(* ===== verification/Fiction_Prelude.thy ===== *)
theory Fiction_Prelude
  imports Main "HOL-Library.Word"
begin

text \<open>
  Shared ground of the development: the machine integers the C++ code uses, the containers of
  the C++ standard library that the layouts are templates over, and the comparator contract
  that \<open>std::set\<close> places on the element type.

  \<^item> \<open>u8\<close>, \<open>u16\<close>, \<open>u32\<close> and \<open>u64\<close> are the fixed-width unsigned integers.
  \<^item> Both container types that occur as the template parameter \<open>Container\<close> are lists here.
    \<open>std::vector\<close> appends (\<open>vec_insert\<close>); \<open>std::set\<close> is the list of its elements in iteration
    order, and \<open>set_insert\<close> places an element by the comparator unless an equivalent element
    is already there.
  \<^item> The locale \<open>weak_order\<close> states what the C++ standard demands of a comparator (a strict weak
    order); the lemmas on \<open>set_insert\<close> are proved once in it.
  \<^item> \<open>fold_option\<close> is a loop whose body may fail.
\<close>

unbundle bit_operations_syntax

type_synonym u8 = "8 word"
type_synonym u16 = "16 word"
type_synonym u32 = "32 word"
type_synonym u64 = "64 word"

named_theorems fiction_defs \<open>definitions of small accessors that proofs unfold freely\<close>

section \<open>Loops\<close>

text \<open>A loop over a list whose body may fail.\<close>

fun fold_option :: "('a \<Rightarrow> 's \<Rightarrow> 's option) \<Rightarrow> 'a list \<Rightarrow> 's \<Rightarrow> 's option" where
  "fold_option f [] s = Some s"
| "fold_option f (x # xs) s = Option.bind (f x s) (fold_option f xs)"

section \<open>Standard containers\<close>

definition vec_insert :: "'a \<Rightarrow> 'a list \<Rightarrow> 'a list" where
  "vec_insert a xs = xs @ [a]"

fun set_insert :: "('a \<Rightarrow> 'a \<Rightarrow> bool) \<Rightarrow> 'a \<Rightarrow> 'a list \<Rightarrow> 'a list" where
  "set_insert lt a [] = [a]"
| "set_insert lt a (b # bs) =
     (if lt a b then a # b # bs else if lt b a then b # set_insert lt a bs else b # bs)"

text \<open>\<open>std::copy_if\<close> into an inserter of the container.\<close>

definition copy_if :: "('a \<Rightarrow> 'a list \<Rightarrow> 'a list) \<Rightarrow> ('a \<Rightarrow> bool) \<Rightarrow> 'a list \<Rightarrow> 'a list \<Rightarrow> 'a list" where
  "copy_if ins P src dst = fold ins (filter P src) dst"

text \<open>\<open>std::merge\<close> of two sorted ranges.\<close>

fun std_merge :: "('a \<Rightarrow> 'a \<Rightarrow> bool) \<Rightarrow> 'a list \<Rightarrow> 'a list \<Rightarrow> 'a list" where
  "std_merge lt [] ys = ys"
| "std_merge lt (x # xs) [] = x # xs"
| "std_merge lt (x # xs) (y # ys) =
     (if lt y x then y # std_merge lt (x # xs) ys else x # std_merge lt xs (y # ys))"

lemma set_std_merge [simp]: "set (std_merge lt xs ys) = set xs \<union> set ys"
  by (induction lt xs ys rule: std_merge.induct) auto

lemma fold_vec_insert [simp]: "fold vec_insert xs ys = ys @ xs"
  by (induction xs arbitrary: ys) (simp_all add: vec_insert_def)

lemma set_set_insert_subset: "set (set_insert lt a xs) \<subseteq> insert a (set xs)"
  by (induction xs) auto

lemma set_insert_not_Nil [simp]: "set_insert lt a xs \<noteq> []"
  by (cases xs) auto

lemma length_set_insert: "length (set_insert lt a xs) \<le> Suc (length xs)"
  by (induction xs) auto

lemma length_fold_set_insert: "length (fold (set_insert lt) as xs) \<le> length as + length xs"
proof (induction as arbitrary: xs)
  case (Cons a as)
  have "length (fold (set_insert lt) as (set_insert lt a xs)) \<le> length as + length (set_insert lt a xs)"
    by (rule Cons.IH)
  with length_set_insert [of lt a xs] show ?case by simp
qed simp

lemma set_fold_set_insert_subset: "set (fold (set_insert lt) as xs) \<subseteq> set as \<union> set xs"
proof (induction as arbitrary: xs)
  case (Cons a as)
  with set_set_insert_subset [of lt a xs] show ?case by fastforce
qed simp

lemma filter_in_subseqs: "filter P xs \<in> set (subseqs xs)"
  by (induction xs) (simp_all add: Let_def)

section \<open>Naturals and words\<close>

lemma word31_div_less: "unat (w :: 31 word) div k < 2 ^ 31"
  using unsigned_less [of w, where ?'a = nat] by (simp add: le_less_trans [OF div_le_dividend])

lemma unat_31_of_nat: "n < 2 ^ 31 \<Longrightarrow> unat (of_nat n :: 31 word) = n"
  by (simp add: unat_of_nat)

lemma unat_31_of_u64: "n < 2 ^ 31 \<Longrightarrow> unat (ucast (of_nat n :: u64) :: 31 word) = n"
  by (simp add: unsigned_ucast_eq unat_of_nat take_bit_nat_eq_self)

lemma ucast_z: "ucast (ucast (z :: 1 word) :: u64) = z"
  by (rule bit_word_eqI) (simp add: bit_simps)

lemma ucast_31: "ucast (ucast (w :: 31 word) :: u64) = w"
  by (rule bit_word_eqI) (simp add: bit_simps)

section \<open>The comparator contract of \<open>std::set\<close>\<close>

locale weak_order =
  fixes lt :: "'a \<Rightarrow> 'a \<Rightarrow> bool"
  assumes lt_irrefl: "\<not> lt a a"
    and lt_trans: "lt a b \<Longrightarrow> lt b c \<Longrightarrow> lt a c"
    and incomp_trans: "\<not> lt a b \<Longrightarrow> \<not> lt b a \<Longrightarrow> \<not> lt b c \<Longrightarrow> \<not> lt c b \<Longrightarrow> \<not> lt a c \<and> \<not> lt c a"
begin

lemma lt_asym: "lt a b \<Longrightarrow> \<not> lt b a"
  using lt_irrefl lt_trans by blast

lemma lt_equiv_left: "lt a c \<Longrightarrow> \<not> lt a b \<Longrightarrow> \<not> lt b a \<Longrightarrow> lt b c"
  using incomp_trans lt_trans lt_asym by blast

lemma sorted_set_insert: "sorted_wrt lt xs \<Longrightarrow> sorted_wrt lt (set_insert lt a xs)"
proof (induction xs)
  case (Cons b bs)
  then show ?case
    using set_set_insert_subset [of lt a bs] by (auto intro: lt_trans)
qed simp

lemma set_insert_mem:
  assumes "sorted_wrt lt xs" and "\<And>b. b \<in> set xs \<Longrightarrow> b \<noteq> a \<Longrightarrow> lt a b \<or> lt b a"
  shows "set (set_insert lt a xs) = insert a (set xs)"
  using assms
proof (induction xs)
  case (Cons b bs)
  then show ?case by (cases "a = b") (auto simp: lt_irrefl)
qed simp

lemma set_insert_equiv: "\<exists>b \<in> set (set_insert lt a xs). \<not> lt a b \<and> \<not> lt b a"
  by (induction xs) (auto simp: lt_irrefl)

lemma sorted_fold_set_insert: "sorted_wrt lt xs \<Longrightarrow> sorted_wrt lt (fold (set_insert lt) as xs)"
  by (induction as arbitrary: xs) (simp_all add: sorted_set_insert)

lemma set_insert_snoc: "\<forall>b \<in> set xs. lt b a \<Longrightarrow> set_insert lt a xs = xs @ [a]"
  by (induction xs) (auto dest: lt_asym)

lemma sorted_distinct: "sorted_wrt lt xs \<Longrightarrow> distinct xs"
  by (induction xs) (auto simp: lt_irrefl)

text \<open>A sorted list within another one is a filter of it.\<close>

lemma sorted_within:
  "sorted_wrt lt xs \<Longrightarrow> sorted_wrt lt ys \<Longrightarrow> set xs \<subseteq> set ys \<Longrightarrow> xs = filter (\<lambda>y. y \<in> set xs) ys"
proof (induction ys arbitrary: xs)
  case (Cons y ys)
  show ?case
  proof (cases "y \<in> set xs")
    case True
    have "hd xs = y"
    proof (cases xs)
      case (Cons x xs')
      then have "x = y \<or> lt x y \<and> lt y x" using True Cons.prems by auto
      then show ?thesis using lt_asym Cons by auto
    qed (use True in simp)
    then obtain xs' where xs: "xs = y # xs'" using True by (cases xs) auto
    then have "y \<notin> set xs'" "y \<notin> set ys" using Cons.prems lt_irrefl by auto
    moreover have "xs' = filter (\<lambda>z. z \<in> set xs') ys"
      using Cons.prems xs \<open>y \<notin> set xs'\<close> by (intro Cons.IH) auto
    moreover have "filter (\<lambda>z. z = y \<or> z \<in> set xs') ys = filter (\<lambda>z. z \<in> set xs') ys"
      by (rule filter_cong) (use \<open>y \<notin> set ys\<close> in auto)
    ultimately show ?thesis unfolding xs by simp
  next
    case False
    then show ?thesis using Cons by auto
  qed
qed simp

text \<open>Copying a set into an empty set keeps it as it is.\<close>

lemma fold_set_insert_sorted:
  "sorted_wrt lt (xs @ as) \<Longrightarrow> fold (set_insert lt) as xs = xs @ as"
proof (induction as arbitrary: xs)
  case (Cons a as)
  then have "set_insert lt a xs = xs @ [a]"
    by (intro set_insert_snoc) (auto simp: sorted_wrt_append)
  with Cons show ?case by simp
qed simp

lemma copy_if_sorted:
  "sorted_wrt lt src \<Longrightarrow> copy_if (set_insert lt) P src [] = filter P src"
  using fold_set_insert_sorted [of "[]" "filter P src"]
  by (simp add: copy_if_def sorted_wrt_filter)

lemma fold_set_insert_mem:
  assumes "sorted_wrt lt xs"
    and "\<And>a b. a \<in> set as \<union> set xs \<Longrightarrow> b \<in> set as \<union> set xs \<Longrightarrow> a \<noteq> b \<Longrightarrow> lt a b \<or> lt b a"
  shows "set (fold (set_insert lt) as xs) = set as \<union> set xs"
  using assms
proof (induction as arbitrary: xs)
  case (Cons a as)
  have eq: "set (set_insert lt a xs) = insert a (set xs)"
    using Cons.prems by (intro set_insert_mem) auto
  have "set (fold (set_insert lt) as (set_insert lt a xs)) = set as \<union> set (set_insert lt a xs)"
    using Cons.prems by (intro Cons.IH sorted_set_insert) (auto simp: eq)
  then show ?case by (simp add: eq)
qed simp

end

end
