(* ===== verification/Coordinates.thy ===== *)
theory Coordinates
  imports Fiction_Prelude
begin

text \<open>
  Model of \<open>layouts/coordinates.hpp\<close>: the 64-bit offset coordinate \<open>offset::ucoord_t\<close> with its
  bit fields (dead flag, 1-bit z, 31-bit y and x), its conversions from and to \<open>uint64_t\<close>, its
  comparison operators, the iterator \<open>offset::coord_iterator\<close> and the ranges it spans, the cube
  coordinate \<open>cube::coord_t\<close>, and the functions \<open>area\<close> and \<open>volume\<close>.

  The bit fields are words of their declared width, so that \<open>++coord.x\<close> wraps at \<open>2 ^ 31\<close> as the
  bit field does. A range-based loop over a coordinate range is \<open>coord_range\<close>, a
  \<^theory_text>\<open>partial_function\<close> whose value \<open>None\<close> means that the loop never ends.
  The fields of \<open>cube::coord_t\<close> are \<open>int32_t\<close>; signed overflow has no defined result in C++, so
  they are integers here, and \<open>cube_in_range\<close> says that they fit.
\<close>

section \<open>Offset coordinates\<close>

record ucoord_t =
  ud :: bool
  uz :: "1 word"
  uy :: "31 word"
  ux :: "31 word"

text \<open>The default constructor, the two positional constructors (their arguments are cast to the
  bit fields) and the constructor from \<open>uint64_t\<close>.\<close>

definition ucoord_default :: ucoord_t where
  "ucoord_default = \<lparr>ud = True, uz = 0, uy = 0, ux = 0\<rparr>"

definition ucoord3 :: "u64 \<Rightarrow> u64 \<Rightarrow> u64 \<Rightarrow> ucoord_t" where
  "ucoord3 x y z = \<lparr>ud = False, uz = ucast z, uy = ucast y, ux = ucast x\<rparr>"

definition ucoord2 :: "u64 \<Rightarrow> u64 \<Rightarrow> ucoord_t" where
  "ucoord2 x y = \<lparr>ud = False, uz = 0, uy = ucast y, ux = ucast x\<rparr>"

definition ucoord_of_u64 :: "u64 \<Rightarrow> ucoord_t" where
  "ucoord_of_u64 t =
     \<lparr>ud = bit (drop_bit 63 t) 0,
      uz = ucast (drop_bit 63 (push_bit 1 t)),
      uy = ucast (drop_bit 33 (push_bit 2 t)),
      ux = ucast (drop_bit 33 (push_bit 33 t))\<rparr>"

text \<open>The explicit conversion operator to \<open>uint64_t\<close>.\<close>

definition u64_of_ucoord :: "ucoord_t \<Rightarrow> u64" where
  "u64_of_ucoord c =
     (push_bit 31 ((push_bit 31 ((push_bit 1 (of_bool (ud c))) OR ucast (uz c))) OR ucast (uy c)))
       OR ucast (ux c)"

definition is_dead :: "ucoord_t \<Rightarrow> bool" where
  "is_dead c = ud c"

definition get_dead :: "ucoord_t \<Rightarrow> ucoord_t" where
  "get_dead c = ucoord_of_u64 (u64_of_ucoord c OR u64_of_ucoord ucoord_default)"

definition ucoord_eq :: "ucoord_t \<Rightarrow> ucoord_t \<Rightarrow> bool" where
  "ucoord_eq a b = (ud a = ud b \<and> uz a = uz b \<and> uy a = uy b \<and> ux a = ux b)"

definition ucoord_eq_u64 :: "ucoord_t \<Rightarrow> u64 \<Rightarrow> bool" where
  "ucoord_eq_u64 c t = (u64_of_ucoord c = t)"

definition ucoord_less :: "ucoord_t \<Rightarrow> ucoord_t \<Rightarrow> bool" where
  "ucoord_less a b =
     (if uz a < uz b then True
      else if uz a = uz b then
        (if uy a < uy b then True
         else if uy a = uy b then ux a < ux b
         else False)
      else False)"

definition ucoord_greater :: "ucoord_t \<Rightarrow> ucoord_t \<Rightarrow> bool" where
  "ucoord_greater a b = ucoord_less b a"

definition ucoord_le :: "ucoord_t \<Rightarrow> ucoord_t \<Rightarrow> bool" where
  "ucoord_le a b = (\<not> ucoord_greater a b)"

definition ucoord_ge :: "ucoord_t \<Rightarrow> ucoord_t \<Rightarrow> bool" where
  "ucoord_ge a b = (\<not> ucoord_less a b)"

section \<open>The coordinate iterator\<close>

text \<open>\<open>operator++\<close>: \<open>dim\<close> is the iterator's \<open>aspect_ratio\<close> and \<open>c\<close> its \<open>coord\<close>.\<close>

definition coord_next :: "ucoord_t \<Rightarrow> ucoord_t \<Rightarrow> ucoord_t" where
  "coord_next dim c =
     (if \<not> ucoord_eq c dim then
        (let c1 = c\<lparr>ux := ux c + 1\<rparr> in
         if ux c1 > ux dim then
           (let c2 = c1\<lparr>ux := 0, uy := uy c1 + 1\<rparr> in
            if uy c2 > uy dim then c2\<lparr>uy := 0, uz := uz c2 + 1\<rparr> else c2)
         else c1)
      else get_dead c)"

text \<open>The elements a loop from \<open>cur\<close> up to \<open>stop\<close> visits.\<close>

partial_function (option) coord_range :: "ucoord_t \<Rightarrow> ucoord_t \<Rightarrow> ucoord_t \<Rightarrow> ucoord_t list option" where
  "coord_range dim cur stop =
     (if ucoord_eq cur stop then Some []
      else Option.bind (coord_range dim (coord_next dim cur) stop) (\<lambda>cs. Some (cur # cs)))"

section \<open>Cube coordinates\<close>

record cube_coord_t =
  cube_d :: bool
  cube_z :: int
  cube_y :: int
  cube_x :: int

definition cube_default :: cube_coord_t where
  "cube_default = \<lparr>cube_d = True, cube_z = 0, cube_y = 0, cube_x = 0\<rparr>"

definition cube3 :: "int \<Rightarrow> int \<Rightarrow> int \<Rightarrow> cube_coord_t" where
  "cube3 x y z = \<lparr>cube_d = False, cube_z = z, cube_y = y, cube_x = x\<rparr>"

definition cube2 :: "int \<Rightarrow> int \<Rightarrow> cube_coord_t" where
  "cube2 x y = \<lparr>cube_d = False, cube_z = 0, cube_y = y, cube_x = x\<rparr>"

definition cube_is_dead :: "cube_coord_t \<Rightarrow> bool" where
  "cube_is_dead c = cube_d c"

definition cube_get_dead :: "cube_coord_t \<Rightarrow> cube_coord_t" where
  "cube_get_dead c = c\<lparr>cube_d := True\<rparr>"

definition cube_less :: "cube_coord_t \<Rightarrow> cube_coord_t \<Rightarrow> bool" where
  "cube_less a b =
     (if cube_z a < cube_z b then True
      else if cube_z a = cube_z b then
        (if cube_y a < cube_y b then True
         else if cube_y a = cube_y b then cube_x a < cube_x b
         else False)
      else False)"

definition cube_plus :: "cube_coord_t \<Rightarrow> cube_coord_t \<Rightarrow> cube_coord_t" where
  "cube_plus a b = cube3 (cube_x a + cube_x b) (cube_y a + cube_y b) (cube_z a + cube_z b)"

definition cube_minus :: "cube_coord_t \<Rightarrow> cube_coord_t \<Rightarrow> cube_coord_t" where
  "cube_minus a b = cube3 (cube_x a - cube_x b) (cube_y a - cube_y b) (cube_z a - cube_z b)"

definition int32_range :: "int \<Rightarrow> bool" where
  "int32_range i = (- (2 ^ 31) \<le> i \<and> i < 2 ^ 31)"

definition cube_in_range :: "cube_coord_t \<Rightarrow> bool" where
  "cube_in_range c = (int32_range (cube_x c) \<and> int32_range (cube_y c) \<and> int32_range (cube_z c))"

section \<open>Area and volume\<close>

definition area :: "ucoord_t \<Rightarrow> u64" where
  "area c = (ucast (ux c) + 1) * (ucast (uy c) + 1)"

definition volume :: "ucoord_t \<Rightarrow> u64" where
  "volume c = (ucast (ux c) + 1) * (ucast (uy c) + 1) * (ucast (uz c) + 1)"

section \<open>Lemmas\<close>

lemma ucoord_eq_iff [simp]: "ucoord_eq a b \<longleftrightarrow> a = b"
  by (cases a; cases b) (auto simp: ucoord_eq_def)

lemma word1_cases: "(w :: 1 word) = 0 \<or> w = 1"
proof -
  have "unat w < 2" using unsigned_less [of w, where 'a = nat] by simp
  then have "unat w = 0 \<or> unat w = 1" by arith
  then show ?thesis by (metis unat_0 unat_1 word_unat_eq_iff)
qed

lemma bit_u64_of_ucoord:
  "bit (u64_of_ucoord c) n \<longleftrightarrow>
     (if n < 31 then bit (ux c) n
      else if n < 62 then bit (uy c) (n - 31)
      else if n = 62 then bit (uz c) 0
      else n = 63 \<and> ud c)"
  by (auto simp: u64_of_ucoord_def bit_simps dest: bit_imp_le_length)

lemma bit_double_63 [simp]: "bit (t * 2 :: u64) 63 \<longleftrightarrow> bit t 62"
proof -
  have "bit (push_bit 1 t) 63 \<longleftrightarrow> bit t 62"
    by (simp only: bit_push_bit_iff) simp
  then show ?thesis by (simp add: push_bit_eq_mult)
qed

lemma bit_1word: "bit (w :: 1 word) n \<Longrightarrow> n = 0"
  using bit_imp_le_length [of w n] by simp

lemma ucoord_of_u64_of_ucoord [simp]: "ucoord_of_u64 (u64_of_ucoord c) = c"
proof (rule ucoord_t.equality)
  show "ud (ucoord_of_u64 (u64_of_ucoord c)) = ud c"
    by (simp add: ucoord_of_u64_def bit_simps bit_u64_of_ucoord)
  show "uz (ucoord_of_u64 (u64_of_ucoord c)) = uz c"
    by (rule bit_word_eqI) (auto simp: ucoord_of_u64_def bit_simps bit_u64_of_ucoord)
  show "uy (ucoord_of_u64 (u64_of_ucoord c)) = uy c"
    by (rule bit_word_eqI) (auto simp: ucoord_of_u64_def bit_simps bit_u64_of_ucoord)
  show "ux (ucoord_of_u64 (u64_of_ucoord c)) = ux c"
    by (rule bit_word_eqI) (auto simp: ucoord_of_u64_def bit_simps bit_u64_of_ucoord)
qed simp

lemma u64_of_ucoord_of_u64 [simp]: "u64_of_ucoord (ucoord_of_u64 t) = t"
proof (rule bit_word_eqI)
  fix n
  assume n: "n < LENGTH(64)"
  consider "n < 31" | "31 \<le> n" "n < 62" | "n = 62" | "n = 63" using n by fastforce
  then show "bit (u64_of_ucoord (ucoord_of_u64 t)) n = bit t n"
    by cases (auto simp: bit_u64_of_ucoord ucoord_of_u64_def bit_simps)
qed

lemma u64_of_ucoord_inject [simp]: "u64_of_ucoord a = u64_of_ucoord b \<longleftrightarrow> a = b"
  by (metis ucoord_of_u64_of_ucoord)

lemma get_dead_eq [simp]: "get_dead c = c\<lparr>ud := True\<rparr>"
proof -
  have "u64_of_ucoord c OR u64_of_ucoord ucoord_default = u64_of_ucoord (c\<lparr>ud := True\<rparr>)"
    by (rule bit_word_eqI) (auto simp: bit_simps bit_u64_of_ucoord ucoord_default_def)
  then show ?thesis by (simp add: get_dead_def)
qed

lemma ucoord_less_iff:
  "ucoord_less a b \<longleftrightarrow>
     uz a < uz b \<or> uz a = uz b \<and> (uy a < uy b \<or> uy a = uy b \<and> ux a < ux b)"
  by (auto simp: ucoord_less_def)

lemma ucoord_incomparable:
  "\<not> ucoord_less a b \<and> \<not> ucoord_less b a \<longleftrightarrow> uz a = uz b \<and> uy a = uy b \<and> ux a = ux b"
  unfolding ucoord_less_iff by (metis linorder_neqE order_less_irrefl)

lemma ucoord_less_trans: "ucoord_less a b \<Longrightarrow> ucoord_less b c \<Longrightarrow> ucoord_less a c"
  unfolding ucoord_less_iff by (elim disjE conjE) (simp_all, (blast intro: less_trans)+)

interpretation ucoord_order: weak_order ucoord_less
proof
  show "\<not> ucoord_less a a" for a by (simp add: ucoord_less_iff)
  show "ucoord_less a b \<Longrightarrow> ucoord_less b c \<Longrightarrow> ucoord_less a c" for a b c
    by (rule ucoord_less_trans)
  show "\<not> ucoord_less a c \<and> \<not> ucoord_less c a"
    if "\<not> ucoord_less a b" "\<not> ucoord_less b a" "\<not> ucoord_less b c" "\<not> ucoord_less c b" for a b c
    using that ucoord_incomparable [of a b] ucoord_incomparable [of b c] ucoord_incomparable [of a c]
    by simp
qed

lemma ucoord_less_total:
  "ud a = ud b \<Longrightarrow> a \<noteq> b \<Longrightarrow> ucoord_less a b \<or> ucoord_less b a"
  using ucoord_incomparable [of a b] by (metis (full_types) ucoord_eq_def ucoord_eq_iff)

section \<open>Enumeration\<close>

text \<open>
  The reference for the iterator: the coordinates of a grid of \<open>W\<close> columns, \<open>H\<close> rows and \<open>D\<close>
  layers are numbered row by row and layer by layer, and \<open>grid_coord W H i\<close> is the \<open>i\<close>-th of them.
\<close>

definition grid_coord :: "nat \<Rightarrow> nat \<Rightarrow> nat \<Rightarrow> ucoord_t" where
  "grid_coord W H i =
     \<lparr>ud = False, uz = of_nat (i div W div H), uy = of_nat (i div W mod H), ux = of_nat (i mod W)\<rparr>"

abbreviation grid_W :: "ucoord_t \<Rightarrow> nat" where "grid_W dim \<equiv> Suc (unat (ux dim))"
abbreviation grid_H :: "ucoord_t \<Rightarrow> nat" where "grid_H dim \<equiv> Suc (unat (uy dim))"
abbreviation grid_D :: "ucoord_t \<Rightarrow> nat" where "grid_D dim \<equiv> Suc (unat (uz dim))"

definition grid_size :: "ucoord_t \<Rightarrow> nat" where
  "grid_size dim = grid_W dim * grid_H dim * grid_D dim"

definition grid_nth :: "ucoord_t \<Rightarrow> nat \<Rightarrow> ucoord_t" where
  "grid_nth dim i = grid_coord (grid_W dim) (grid_H dim) i"

text \<open>Dimensions the iterator can enumerate: alive, and no bit field at its largest value.\<close>

definition enumerable :: "ucoord_t \<Rightarrow> bool" where
  "enumerable dim \<longleftrightarrow> \<not> ud dim \<and> unat (ux dim) < 2 ^ 31 - 1 \<and> unat (uy dim) < 2 ^ 31 - 1"

lemma unat_1word_le: "unat (w :: 1 word) \<le> 1"
  using word1_cases [of w] by auto

lemma unat_of_nat31: "k < 2 ^ 31 \<Longrightarrow> unat (of_nat k :: 31 word) = k"
  by (simp add: unat_of_nat)

lemma unat_of_nat1: "k < 2 \<Longrightarrow> unat (of_nat k :: 1 word) = k"
  by (simp add: unat_of_nat)

lemma div_mod_Suc:
  assumes "0 < (W :: nat)"
  shows "Suc (i mod W) < W \<Longrightarrow> Suc i mod W = Suc (i mod W) \<and> Suc i div W = i div W"
    and "\<not> Suc (i mod W) < W \<Longrightarrow> Suc i mod W = 0 \<and> Suc i div W = Suc (i div W)"
proof -
  show "Suc i mod W = Suc (i mod W) \<and> Suc i div W = i div W" if "Suc (i mod W) < W"
    using that by (simp add: mod_Suc div_Suc)
  show "Suc i mod W = 0 \<and> Suc i div W = Suc (i div W)" if "\<not> Suc (i mod W) < W"
  proof -
    have "Suc (i mod W) = W" using that assms mod_less_divisor [of W i] by linarith
    then show ?thesis by (simp add: mod_Suc div_Suc)
  qed
qed

lemma grid_nth_bounds:
  assumes "enumerable dim" and "i < grid_size dim"
  shows "unat (ux (grid_nth dim i)) = i mod grid_W dim"
    and "unat (uy (grid_nth dim i)) = i div grid_W dim mod grid_H dim"
    and "unat (uz (grid_nth dim i)) = i div grid_W dim div grid_H dim"
    and "i div grid_W dim div grid_H dim < grid_D dim"
proof -
  have W: "grid_W dim < 2 ^ 31" and H: "grid_H dim < 2 ^ 31"
    using assms(1) by (auto simp: enumerable_def)
  have "i mod grid_W dim < grid_W dim" by simp
  with W have "i mod grid_W dim < 2 ^ 31" by linarith
  then show "unat (ux (grid_nth dim i)) = i mod grid_W dim"
    by (simp only: grid_nth_def grid_coord_def ucoord_t.simps unat_of_nat31)
  have "i div grid_W dim mod grid_H dim < grid_H dim" by simp
  with H have "i div grid_W dim mod grid_H dim < 2 ^ 31" by linarith
  then show "unat (uy (grid_nth dim i)) = i div grid_W dim mod grid_H dim"
    by (simp only: grid_nth_def grid_coord_def ucoord_t.simps unat_of_nat31)
  show D: "i div grid_W dim div grid_H dim < grid_D dim"
    using assms(2) unfolding grid_size_def
    by (simp only: less_mult_imp_div_less mult.commute flip: div_mult2_eq)
  then have "i div grid_W dim div grid_H dim < 2" using unat_1word_le [of "uz dim"] by linarith
  then show "unat (uz (grid_nth dim i)) = i div grid_W dim div grid_H dim"
    by (simp only: grid_nth_def grid_coord_def ucoord_t.simps unat_of_nat1)
qed

lemma grid_nth_alive [simp]: "\<not> ud (grid_nth dim i)"
  by (simp add: grid_nth_def grid_coord_def)

lemma ucoord_unat_eqI:
  fixes a b :: ucoord_t
  shows "ud a = ud b \<Longrightarrow> unat (ux a) = unat (ux b) \<Longrightarrow> unat (uy a) = unat (uy b) \<Longrightarrow>
   unat (uz a) = unat (uz b) \<Longrightarrow> a = b"
  by (cases a; cases b) (simp add: word_unat_eq_iff)

lemma index_decompose:
  "(i :: nat) = i div W div H * (W * H) + i div W mod H * W + i mod W"
  by (metis (no_types, lifting) add.commute div_mult_mod_eq distrib_right div_mult2_eq mult.assoc mult.commute)

lemma grid_nth_inject:
  assumes "enumerable dim" and "i < grid_size dim" and "j < grid_size dim"
    and "grid_nth dim i = grid_nth dim j"
  shows "i = j"
proof -
  have "i mod grid_W dim = j mod grid_W dim"
    "i div grid_W dim mod grid_H dim = j div grid_W dim mod grid_H dim"
    "i div grid_W dim div grid_H dim = j div grid_W dim div grid_H dim"
    using grid_nth_bounds [OF assms(1,2)] grid_nth_bounds [OF assms(1,3)] assms(4) by simp_all
  then show ?thesis
    using index_decompose [of i "grid_W dim" "grid_H dim"] index_decompose [of j "grid_W dim" "grid_H dim"]
    by metis
qed

lemma unat_plus1_31: "Suc (unat w) < 2 ^ 31 \<Longrightarrow> unat (w + 1 :: 31 word) = Suc (unat w)"
  by (simp add: unat_word_ariths)

lemma unat_plus1_1: "Suc (unat w) < 2 \<Longrightarrow> unat (w + 1 :: 1 word) = Suc (unat w)"
  by (simp add: unat_word_ariths)

lemma grid_nth_last:
  assumes "enumerable dim"
  shows "grid_nth dim (grid_size dim - 1) = dim"
proof -
  let ?W = "grid_W dim" and ?H = "grid_H dim" and ?D = "grid_D dim"
  have N: "grid_size dim - 1 = unat (uz dim) * (?W * ?H) + (unat (uy dim) * ?W + unat (ux dim))"
    by (simp add: grid_size_def algebra_simps)
  have lt: "grid_size dim - 1 < grid_size dim" by (simp add: grid_size_def)
  have w: "unat (uy dim) * ?W + unat (ux dim) < ?W * ?H" by (simp add: algebra_simps)
  have z: "(grid_size dim - 1) div ?W div ?H = unat (uz dim)"
    unfolding N div_mult2_eq [symmetric] using w by (metis (no_types, lifting) add.commute add.right_neutral div_less div_mult_self1 mult_is_0 nat.distinct(1))
  have "grid_size dim - 1 = (unat (uz dim) * ?H + unat (uy dim)) * ?W + unat (ux dim)"
    unfolding N by (simp add: algebra_simps)
  then have x: "(grid_size dim - 1) mod ?W = unat (ux dim)"
    and q: "(grid_size dim - 1) div ?W = unat (uz dim) * ?H + unat (uy dim)"
    by (simp_all only: mod_mult_self3 div_mult_self3) simp_all
  from q have y: "(grid_size dim - 1) div ?W mod ?H = unat (uy dim)"
    by (simp only: mod_mult_self3) simp
  show ?thesis
    using assms grid_nth_bounds [OF assms lt] by (intro ucoord_unat_eqI) (simp_all only: x y z, simp add: enumerable_def)
qed

lemma coord_next_grid:
  assumes en: "enumerable dim" and i: "Suc i < grid_size dim"
  shows "coord_next dim (grid_nth dim i) = grid_nth dim (Suc i)"
proof -
  let ?W = "grid_W dim" and ?H = "grid_H dim" and ?c = "grid_nth dim i"
  have i': "i < grid_size dim" using i by simp
  note b = grid_nth_bounds [OF en i'] and b' = grid_nth_bounds [OF en i]
  have ne: "?c \<noteq> dim"
  proof
    assume "?c = dim"
    with grid_nth_last [OF en] have "i = grid_size dim - 1"
      using i' by (intro grid_nth_inject [OF en]) auto
    with i show False by simp
  qed
  have W: "?W < 2 ^ 31" and H: "?H < 2 ^ 31" using en by (auto simp: enumerable_def)
  have ux1: "unat (ux ?c + 1) = Suc (i mod ?W)"
    using W mod_less_divisor [of ?W i] b(1) by (subst unat_plus1_31) linarith+
  have uy1: "unat (uy ?c + 1) = Suc (i div ?W mod ?H)"
    using H mod_less_divisor [of ?H "i div ?W"] b(2) by (subst unat_plus1_31) linarith+
  have xg: "ux ?c + 1 > ux dim \<longleftrightarrow> \<not> Suc (i mod ?W) < ?W"
    by (simp only: word_less_nat_alt ux1) auto
  have yg: "uy ?c + 1 > uy dim \<longleftrightarrow> \<not> Suc (i div ?W mod ?H) < ?H"
    by (simp only: word_less_nat_alt uy1) auto
  note dmW = div_mod_Suc [of ?W i] and dmH = div_mod_Suc [of ?H "i div ?W"]
  show ?thesis
  proof (cases "Suc (i mod ?W) < ?W")
    case True
    then have "Suc i mod ?W = Suc (i mod ?W)" "Suc i div ?W = i div ?W" using dmW(1) by simp_all
    with True xg ux1 b b' ne show ?thesis
      by (intro ucoord_unat_eqI) (simp_all only: coord_next_def Let_def, simp_all)
  next
    case x: False
    then have mx: "Suc i mod ?W = 0" "Suc i div ?W = Suc (i div ?W)" using dmW(2) by simp_all
    show ?thesis
    proof (cases "Suc (i div ?W mod ?H) < ?H")
      case True
      then have "Suc (i div ?W) mod ?H = Suc (i div ?W mod ?H)" "Suc (i div ?W) div ?H = i div ?W div ?H"
        using dmH(1) by simp_all
      with True x xg yg uy1 b b' ne mx show ?thesis
        by (intro ucoord_unat_eqI) (simp_all only: coord_next_def Let_def, simp_all)
    next
      case False
      then have my: "Suc (i div ?W) mod ?H = 0" "Suc (i div ?W) div ?H = Suc (i div ?W div ?H)"
        using dmH(2) by simp_all
      have "Suc (i div ?W div ?H) < grid_D dim"
        using b'(4) by (simp only: mx my)
      then have "unat (uz ?c + 1) = Suc (i div ?W div ?H)"
        using unat_1word_le [of "uz dim"] b(3) by (subst unat_plus1_1) simp_all
      with False x xg yg b b' ne mx my show ?thesis
        by (intro ucoord_unat_eqI) (simp_all only: coord_next_def Let_def, simp_all)
    qed
  qed
qed

lemma coord_range_stop [simp]: "coord_range dim c c = Some []"
  by (simp add: coord_range.simps)

lemma coord_range_step:
  "c \<noteq> stop \<Longrightarrow> coord_range dim (coord_next dim c) stop = Some cs \<Longrightarrow>
   coord_range dim c stop = Some (c # cs)"
  by (subst coord_range.simps) simp

lemma coord_range_grid_dead:
  assumes "enumerable dim"
  shows "i < grid_size dim \<Longrightarrow>
    coord_range dim (grid_nth dim i) (get_dead dim) = Some (map (grid_nth dim) [i..<grid_size dim])"
proof (induction "grid_size dim - 1 - i" arbitrary: i)
  case 0
  then have i: "i = grid_size dim - 1" and pos: "0 < grid_size dim" by simp_all
  have "coord_next dim dim = get_dead dim" by (simp add: coord_next_def)
  moreover have "dim \<noteq> get_dead dim"
    using assms by (metis enumerable_def get_dead_eq ucoord_t.select_convs(1) ucoord_t.surjective ucoord_t.update_convs(1))
  ultimately have "coord_range dim dim (get_dead dim) = Some [dim]"
    by (metis coord_range_step coord_range_stop)
  moreover have "[grid_size dim - 1..<grid_size dim] = [grid_size dim - 1]"
    using pos by (cases "grid_size dim") simp_all
  ultimately show ?case using grid_nth_last [OF assms] i by simp
next
  case (Suc k)
  then have lt: "Suc i < grid_size dim" by simp
  have "coord_range dim (grid_nth dim (Suc i)) (get_dead dim) = Some (map (grid_nth dim) [Suc i..<grid_size dim])"
    using Suc lt by (intro Suc.hyps(1)) simp_all
  moreover have "grid_nth dim i \<noteq> get_dead dim"
    by (metis get_dead_eq grid_nth_alive simps(1) ucoord_t.select_convs(1) ucoord_t.surjective ucoord_t.update_convs(1))
  ultimately have "coord_range dim (grid_nth dim i) (get_dead dim) =
      Some (grid_nth dim i # map (grid_nth dim) [Suc i..<grid_size dim])"
    using coord_next_grid [OF assms lt] by (intro coord_range_step) simp_all
  with lt show ?case by (simp add: upt_rec [of i])
qed

lemma coord_range_grid:
  assumes "enumerable dim"
  shows "i \<le> j \<Longrightarrow> j < grid_size dim \<Longrightarrow>
    coord_range dim (grid_nth dim i) (grid_nth dim j) = Some (map (grid_nth dim) [i..<j])"
proof (induction "j - i" arbitrary: i)
  case (Suc k)
  then have lt: "Suc i < grid_size dim" and ij: "i < j" by simp_all
  have "coord_range dim (grid_nth dim (Suc i)) (grid_nth dim j) = Some (map (grid_nth dim) [Suc i..<j])"
    using Suc by (intro Suc.hyps(1)) simp_all
  moreover have "grid_nth dim i \<noteq> grid_nth dim j"
    using grid_nth_inject [OF assms, of i j] Suc.prems ij lt by auto
  ultimately have "coord_range dim (grid_nth dim i) (grid_nth dim j) =
      Some (grid_nth dim i # map (grid_nth dim) [Suc i..<j])"
    using coord_next_grid [OF assms lt] by (intro coord_range_step) simp_all
  with ij show ?case by (simp add: upt_rec [of i])
qed simp

text \<open>The number of a coordinate, the inverse of \<open>grid_nth\<close>.\<close>

definition grid_index :: "ucoord_t \<Rightarrow> ucoord_t \<Rightarrow> nat" where
  "grid_index dim c = (unat (uz c) * grid_H dim + unat (uy c)) * grid_W dim + unat (ux c)"

definition in_grid :: "ucoord_t \<Rightarrow> ucoord_t \<Rightarrow> bool" where
  "in_grid dim c \<longleftrightarrow> \<not> ud c \<and> ux c \<le> ux dim \<and> uy c \<le> uy dim \<and> uz c \<le> uz dim"

lemma mult_add_less:
  fixes a b A B :: nat
  assumes "a < A" and "b < B"
  shows "a * B + b < A * B"
proof -
  have "a * B + b < Suc a * B" using assms(2) by simp
  also have "\<dots> \<le> A * B" using assms(1) by (intro mult_le_mono1) simp
  finally show ?thesis .
qed

lemma grid_index_less:
  assumes "in_grid dim c"
  shows "grid_index dim c < grid_size dim"
proof -
  have x: "unat (ux c) < grid_W dim" and y: "unat (uy c) < grid_H dim" and z: "unat (uz c) < grid_D dim"
    using assms by (auto simp: in_grid_def word_le_nat_alt)
  have "unat (uz c) * grid_H dim + unat (uy c) < grid_D dim * grid_H dim"
    using y z by (rule mult_add_less [rotated])
  then have "(unat (uz c) * grid_H dim + unat (uy c)) * grid_W dim + unat (ux c) < (grid_D dim * grid_H dim) * grid_W dim"
    using x by (rule mult_add_less)
  then show ?thesis by (simp add: grid_index_def grid_size_def algebra_simps)
qed

lemma grid_nth_index:
  assumes "enumerable dim" and "in_grid dim c"
  shows "grid_nth dim (grid_index dim c) = c"
proof -
  have x: "unat (ux c) < grid_W dim" and y: "unat (uy c) < grid_H dim"
    using assms(2) by (auto simp: in_grid_def word_le_nat_alt)
  have m: "grid_index dim c mod grid_W dim = unat (ux c)"
    and d: "grid_index dim c div grid_W dim = unat (uz c) * grid_H dim + unat (uy c)"
    unfolding grid_index_def using x by (simp_all only: mod_mult_self3 div_mult_self3) simp_all
  have "grid_index dim c div grid_W dim mod grid_H dim = unat (uy c)"
    "grid_index dim c div grid_W dim div grid_H dim = unat (uz c)"
    unfolding d using y by (simp_all only: mod_mult_self3 div_mult_self3) simp_all
  with m grid_nth_bounds [OF assms(1) grid_index_less [OF assms(2)]] assms(2) show ?thesis
    by (intro ucoord_unat_eqI) (simp_all add: in_grid_def)
qed

lemma in_grid_nth:
  assumes "enumerable dim" and "i < grid_size dim"
  shows "in_grid dim (grid_nth dim i)"
proof -
  have "i mod grid_W dim < grid_W dim" "i div grid_W dim mod grid_H dim < grid_H dim" by simp_all
  with grid_nth_bounds [OF assms] show ?thesis
    by (simp only: in_grid_def word_le_nat_alt) simp
qed

lemma grid_index_nth:
  assumes "enumerable dim" and "i < grid_size dim"
  shows "grid_index dim (grid_nth dim i) = i"
  using assms grid_nth_index [OF assms(1) in_grid_nth [OF assms]]
    grid_index_less [OF in_grid_nth [OF assms]] by (blast intro: grid_nth_inject)

text \<open>The numbers increase along the comparison operator, so the enumeration is sorted.\<close>

lemma grid_nth_mono:
  assumes "enumerable dim" and "i < j" and "j < grid_size dim"
  shows "ucoord_less (grid_nth dim i) (grid_nth dim j)"
proof -
  let ?W = "grid_W dim" and ?H = "grid_H dim"
  have i: "i < grid_size dim" using assms by simp
  note bi = grid_nth_bounds [OF assms(1) i] and bj = grid_nth_bounds [OF assms(1,3)]
  have q: "i div ?W \<le> j div ?W" and r: "i div ?W div ?H \<le> j div ?W div ?H"
    using assms(2) by (simp_all add: div_le_mono)
  have x: "i mod ?W < j mod ?W" if "i div ?W = j div ?W"
    using that assms(2) by (metis add_less_cancel_left div_mult_mod_eq)
  have y: "i div ?W mod ?H < j div ?W mod ?H" if "i div ?W div ?H = j div ?W div ?H" "i div ?W \<noteq> j div ?W"
    using that q by (metis add_less_cancel_left div_mult_mod_eq le_neq_implies_less)
  have eq: "i div ?W = j div ?W"
    if "i div ?W div ?H = j div ?W div ?H" "i div ?W mod ?H = j div ?W mod ?H"
    using that by (metis div_mult_mod_eq)
  have "i div ?W div ?H < j div ?W div ?H \<or> i div ?W div ?H = j div ?W div ?H \<and>
      (i div ?W mod ?H < j div ?W mod ?H \<or> i div ?W mod ?H = j div ?W mod ?H \<and> i mod ?W < j mod ?W)"
    using x y r eq by (metis le_neq_implies_less)
  then show ?thesis
    unfolding ucoord_less_iff word_less_nat_alt word_unat_eq_iff using bi bj by simp
qed

lemma sorted_grid:
  "enumerable dim \<Longrightarrow> j \<le> grid_size dim \<Longrightarrow> sorted_wrt ucoord_less (map (grid_nth dim) [i..<j])"
  by (auto simp: sorted_wrt_iff_nth_less intro: grid_nth_mono)

lemma set_grid: "enumerable dim \<Longrightarrow> grid_nth dim ` {0..<grid_size dim} = {c. in_grid dim c}"
proof (intro equalityI subsetI)
  fix c
  assume "enumerable dim" and "c \<in> {c. in_grid dim c}"
  then show "c \<in> grid_nth dim ` {0..<grid_size dim}"
    by (intro image_eqI [where x = "grid_index dim c"]) (simp_all add: grid_nth_index grid_index_less)
qed (auto simp: in_grid_nth)

text \<open>A coordinate that is alive stays alive until the iterator meets its aspect ratio, so a loop
  with a dead aspect ratio runs forever.\<close>

lemma coord_range_dead_dim:
  assumes "ud dim" and "ud stop" and "\<not> ud c"
  shows "coord_range dim c stop = None"
proof (rule ccontr)
  assume "coord_range dim c stop \<noteq> None"
  then obtain cs where ret: "coord_range dim c stop = Some cs" by blast
  have "ud dim \<longrightarrow> ud stop \<longrightarrow> ud c"
  proof (rule coord_range.raw_induct [where P = "\<lambda>dim c stop cs. ud dim \<longrightarrow> ud stop \<longrightarrow> ud c", OF _ ret])
    fix f dim cur stop r
    assume IH: "\<And>dim cur stop r. f dim cur stop = Some r \<Longrightarrow> ud dim \<longrightarrow> ud stop \<longrightarrow> ud cur"
      and eq: "(if ucoord_eq cur stop then Some []
        else Option.bind (f dim (coord_next dim cur) stop) (\<lambda>cs. Some (cur # cs))) = Some r"
    have "ud cur" if d: "ud dim" and s: "ud stop"
    proof (rule ccontr)
      assume a: "\<not> ud cur"
      with s have "cur \<noteq> stop" by auto
      with eq obtain r' where "f dim (coord_next dim cur) stop = Some r'" by (auto split: bind_splits)
      with IH d s have "ud (coord_next dim cur)" by blast
      moreover have "cur \<noteq> dim" using a d by auto
      ultimately show False using a by (simp add: coord_next_def Let_def split: if_splits)
    qed
    then show "ud dim \<longrightarrow> ud stop \<longrightarrow> ud cur" by blast
  qed
  with assms show False by simp
qed

section \<open>Arithmetic of the packed representation\<close>

lemma unat_31_less: "unat (w :: 31 word) < 2 ^ 31"
  using unsigned_less [of w, where 'a = nat] by simp

lemma unat_ucast_31: "unat (ucast (w :: 31 word) :: u64) = unat w"
  using unat_31_less [of w] by (simp add: unsigned_ucast_eq take_bit_nat_eq_self)

lemma unat_ucast_1: "unat (ucast (w :: 1 word) :: u64) = unat w"
  using unat_1word_le [of w] by (simp add: unsigned_ucast_eq take_bit_nat_eq_self)

lemma ucast_ucast_31 [simp]: "(ucast (ucast (w :: 31 word) :: u64) :: 31 word) = w"
  by (rule bit_word_eqI) (simp add: bit_simps)

lemma ucast_ucast_1 [simp]: "(ucast (ucast (w :: 1 word) :: u64) :: 1 word) = w"
  by (rule bit_word_eqI) (simp add: bit_simps)

lemma unat_Suc_ucast_31: "unat (ucast (w :: 31 word) + 1 :: u64) = Suc (unat w)"
proof -
  have "unat w + 1 < 2 ^ 64" using unat_31_less [of w] by simp
  then show ?thesis by (simp add: unat_word_ariths unat_ucast_31)
qed

lemma unat_Suc_ucast_1: "unat (ucast (w :: 1 word) + 1 :: u64) = Suc (unat w)"
  using word1_cases [of w] by auto

lemma unat_area: "unat (area c) = Suc (unat (ux c)) * Suc (unat (uy c))"
proof -
  have "Suc (unat (ux c)) \<le> 2 ^ 31" "Suc (unat (uy c)) \<le> 2 ^ 31"
    using unat_31_less [of "ux c"] unat_31_less [of "uy c"] by simp_all
  then have "Suc (unat (ux c)) * Suc (unat (uy c)) \<le> 2 ^ 31 * 2 ^ 31" by (intro mult_le_mono)
  then have "Suc (unat (ux c)) * Suc (unat (uy c)) < 2 ^ 64" by simp
  then show ?thesis
    unfolding area_def unat_word_ariths(2) unat_Suc_ucast_31 by simp
qed

lemma unat_volume: "unat (volume c) = Suc (unat (ux c)) * Suc (unat (uy c)) * Suc (unat (uz c))"
proof -
  have "Suc (unat (ux c)) \<le> 2 ^ 31" "Suc (unat (uy c)) \<le> 2 ^ 31" "Suc (unat (uz c)) \<le> 2"
    using unat_31_less [of "ux c"] unat_31_less [of "uy c"] unat_1word_le [of "uz c"] by simp_all
  then have "Suc (unat (ux c)) * Suc (unat (uy c)) * Suc (unat (uz c)) \<le> 2 ^ 31 * 2 ^ 31 * 2"
    by (intro mult_le_mono)
  then have "Suc (unat (ux c)) * Suc (unat (uy c)) * Suc (unat (uz c)) < 2 ^ 64" by simp
  moreover have v: "volume c = area c * (ucast (uz c) + 1)" by (simp add: volume_def area_def)
  ultimately show ?thesis
    unfolding v unat_word_ariths(2) unat_area unat_Suc_ucast_1 by simp
qed

section \<open>The packed representation as a number\<close>

lemma nat_or_shifted: "x < 2 ^ k \<Longrightarrow> push_bit k h OR x = h * 2 ^ k + x" for h x :: nat
proof -
  assume x: "x < 2 ^ k"
  have "push_bit k h AND x = 0"
  proof (rule bit_eqI)
    fix n
    have "\<not> bit x n" if "k \<le> n"
      using x that by (metis bit_take_bit_iff not_less take_bit_nat_eq_self)
    then show "bit (push_bit k h AND x) n \<longleftrightarrow> bit (0 :: nat) n"
      by (auto simp: bit_and_iff bit_push_bit_iff)
  qed
  then show ?thesis by (simp add: push_bit_eq_mult flip: disjunctive_add_eq_or)
qed

lemma unat_u64_of_ucoord:
  "unat (u64_of_ucoord c) =
     ((of_bool (ud c) * 2 + unat (uz c)) * 2 ^ 31 + unat (uy c)) * 2 ^ 31 + unat (ux c)"
proof -
  let ?a = "push_bit 1 (of_bool (ud c)) OR ucast (uz c) :: u64"
  let ?b = "push_bit 31 ?a OR ucast (uy c) :: u64"
  have b: "unat (uz c) < 2" "unat (uy c) < 2 ^ 31" "unat (ux c) < 2 ^ 31"
    using unat_1word_le [of "uz c"] unat_31_less by (simp_all add: less_Suc_eq_le numeral_2_eq_2)
  have or: "unat (push_bit k h OR x) = unat h * 2 ^ k + unat x"
    if "unat h < 2 ^ (64 - k)" and "unat x < 2 ^ k" and "k \<le> 64" for h x :: u64 and k
  proof -
    have "unat h * 2 ^ k < 2 ^ (64 - k) * 2 ^ k" using that(1) by simp
    also have "\<dots> = (2 :: nat) ^ 64" using that(3) by (simp flip: power_add)
    finally have lt: "push_bit k (unat h) < 2 ^ 64" by (simp only: push_bit_eq_mult)
    have "unat (push_bit k h) = take_bit LENGTH(64) (push_bit k (unat h))" by (rule unsigned_push_bit_eq)
    also have "\<dots> = push_bit k (unat h)" using lt by (intro take_bit_nat_eq_self) simp
    finally have "unat (push_bit k h) = push_bit k (unat h)" .
    then show ?thesis using nat_or_shifted [OF that(2)] by (simp add: unsigned_or_eq)
  qed
  have a: "unat ?a = of_bool (ud c) * 2 + unat (uz c)"
    using or [of "of_bool (ud c)" 1 "ucast (uz c)"] b by (simp add: unat_ucast_1)
  then have "unat ?a < 2 ^ 33" using b by (cases "ud c") simp_all
  then have bb: "unat ?b = (of_bool (ud c) * 2 + unat (uz c)) * 2 ^ 31 + unat (uy c)"
    using or [of ?a 31 "ucast (uy c)"] b a by (simp add: unat_ucast_31)
  have "unat ?b < 2 ^ 33" using b unfolding bb by (cases "ud c") simp_all
  then show ?thesis
    using or [of ?b 31 "ucast (ux c)"] b bb by (simp add: u64_of_ucoord_def unat_ucast_31)
qed

lemma lex_pack:
  fixes a b p q k :: nat
  assumes "p < k" and "q < k"
  shows "a * k + p < b * k + q \<longleftrightarrow> a < b \<or> (a = b \<and> p < q)"
proof -
  have "a * k + p < b * k + q" if "a < b"
  proof -
    have "Suc a * k \<le> b * k" using that by (intro mult_le_mono1) simp
    with assms(1) show ?thesis by simp
  qed
  moreover have "\<not> a * k + p < b * k + q" if "b < a"
  proof -
    have "Suc b * k \<le> a * k" using that by (intro mult_le_mono1) simp
    with assms(2) show ?thesis by simp
  qed
  ultimately show ?thesis by (cases a b rule: linorder_cases) auto
qed

lemma pack_eq:
  fixes a b p q k :: nat
  assumes "p < k" and "q < k"
  shows "a * k + p = b * k + q \<longleftrightarrow> a = b \<and> p = q"
  using lex_pack [OF assms, of a b] lex_pack [OF assms(2,1), of b a] by auto

lemma less_packed:
  assumes "ud a = ud b"
  shows "ucoord_less a b \<longleftrightarrow> u64_of_ucoord a < u64_of_ucoord b"
proof -
  let ?h = "\<lambda>c. of_bool (ud c) * 2 + unat (uz c)"
  have h: "?h a < ?h b \<longleftrightarrow> uz a < uz b" "?h a = ?h b \<longleftrightarrow> uz a = uz b"
    using assms by (simp_all add: word_less_nat_alt word_unat_eq_iff)
  show ?thesis
    unfolding word_less_nat_alt [of "u64_of_ucoord a"] unat_u64_of_ucoord
      lex_pack [OF unat_31_less [of "ux a"] unat_31_less [of "ux b"]]
      lex_pack [OF unat_31_less [of "uy a"] unat_31_less [of "uy b"]] h
      pack_eq [OF unat_31_less [of "uy a"] unat_31_less [of "uy b"]]
    by (auto simp: ucoord_less_iff word_less_nat_alt word_unat_eq_iff)
qed

section \<open>Properties\<close>

text \<open>C25. The packed 64-bit word and the coordinate determine each other: the constructor from
  \<open>uint64_t\<close> and the conversion to it are inverse in both directions, for every word and every
  coordinate, dead ones included. Signals of the gate-level layouts rely on it.\<close>

theorem coordinate_word_roundtrip:
  "ucoord_of_u64 (u64_of_ucoord c) = c \<and> u64_of_ucoord (ucoord_of_u64 t) = t"
  by simp

text \<open>Between coordinates with the same dead flag, \<open>operator<\<close> orders by layer, then row, then
  column; this is the numeric order of their packed words.\<close>

theorem coordinate_order_packed:
  assumes "ud a = ud b"
  shows "ucoord_less a b \<longleftrightarrow> u64_of_ucoord a < u64_of_ucoord b"
  by (rule less_packed [OF assms])

lemma coordinate_order_packed_witness:
  "ucoord_less (ucoord3 5 2 0) (ucoord3 1 3 0) \<longleftrightarrow>
     u64_of_ucoord (ucoord3 5 2 0) < u64_of_ucoord (ucoord3 1 3 0)"
  by (rule coordinate_order_packed) (simp add: ucoord3_def)

text \<open>\<open>area\<close> and \<open>volume\<close> never overflow: for every coordinate the 64-bit results are the
  products of the side lengths.\<close>

theorem area_volume_exact:
  "unat (area c) = (unat (ux c) + 1) * (unat (uy c) + 1) \<and>
   unat (volume c) = (unat (ux c) + 1) * (unat (uy c) + 1) * (unat (uz c) + 1)"
  by (simp add: unat_area unat_volume)

end
