(* ===== verification/Cartesian_Layout.thy ===== *)
theory Cartesian_Layout
  imports Coordinates
begin

text \<open>
  Model of \<open>layouts/cartesian_layout.hpp\<close>. The storage of a Cartesian layout is its \<open>dimension\<close>,
  the coordinate with the highest position, so a layout is that coordinate here. The theory holds
  the structural accessors, the cardinal operations and tests, the border operations, the
  coordinate ranges and the adjacency containers, in the order of the class.

  The lemmas show that the operations never leave the layout, which coordinates are adjacent,
  that adjacency is symmetric, and what the ranges enumerate.
\<close>

type_synonym cartesian_layout = ucoord_t

section \<open>Structural properties\<close>

definition cart_x :: "cartesian_layout \<Rightarrow> 31 word" where
  "cart_x l = ux l"

definition cart_y :: "cartesian_layout \<Rightarrow> 31 word" where
  "cart_y l = uy l"

definition cart_z :: "cartesian_layout \<Rightarrow> 1 word" where
  "cart_z l = uz l"

definition cart_area :: "cartesian_layout \<Rightarrow> u64" where
  "cart_area l = (ucast (cart_x l) + 1) * (ucast (cart_y l) + 1)"

definition cart_resize :: "ucoord_t \<Rightarrow> cartesian_layout \<Rightarrow> cartesian_layout" where
  "cart_resize ar l = ar"

lemmas [simp, fiction_defs] = cart_x_def cart_y_def cart_z_def

section \<open>Cardinal operations\<close>

definition cart_north :: "ucoord_t \<Rightarrow> ucoord_t" where
  "cart_north c = (if uy c = 0 then c else c\<lparr>uy := uy c - 1\<rparr>)"

definition cart_north_east :: "cartesian_layout \<Rightarrow> ucoord_t \<Rightarrow> ucoord_t" where
  "cart_north_east l c =
     (if ux c = cart_x l \<or> uy c = 0 then c else c\<lparr>ux := ux c + 1, uy := uy c - 1\<rparr>)"

definition cart_east :: "cartesian_layout \<Rightarrow> ucoord_t \<Rightarrow> ucoord_t" where
  "cart_east l c =
     (if ux c > cart_x l then c\<lparr>ud := True\<rparr>
      else if ux c < cart_x l then c\<lparr>ux := ux c + 1\<rparr> else c)"

definition cart_south_east :: "cartesian_layout \<Rightarrow> ucoord_t \<Rightarrow> ucoord_t" where
  "cart_south_east l c =
     (if ux c > cart_x l \<or> uy c > cart_y l then c\<lparr>ud := True\<rparr>
      else if ux c < cart_x l \<and> uy c < cart_y l then c\<lparr>ux := ux c + 1, uy := uy c + 1\<rparr> else c)"

definition cart_south :: "cartesian_layout \<Rightarrow> ucoord_t \<Rightarrow> ucoord_t" where
  "cart_south l c =
     (if uy c > cart_y l then c\<lparr>ud := True\<rparr>
      else if uy c < cart_y l then c\<lparr>uy := uy c + 1\<rparr> else c)"

definition cart_south_west :: "cartesian_layout \<Rightarrow> ucoord_t \<Rightarrow> ucoord_t" where
  "cart_south_west l c =
     (if uy c > cart_y l then c\<lparr>ud := True\<rparr>
      else if ux c > 0 \<and> uy c < cart_y l then c\<lparr>ux := ux c - 1, uy := uy c + 1\<rparr> else c)"

definition cart_west :: "ucoord_t \<Rightarrow> ucoord_t" where
  "cart_west c = (if ux c = 0 then c else c\<lparr>ux := ux c - 1\<rparr>)"

definition cart_north_west :: "ucoord_t \<Rightarrow> ucoord_t" where
  "cart_north_west c = (if ux c = 0 \<or> uy c = 0 then c else c\<lparr>ux := ux c - 1, uy := uy c - 1\<rparr>)"

definition cart_above :: "cartesian_layout \<Rightarrow> ucoord_t \<Rightarrow> ucoord_t" where
  "cart_above l c =
     (if uz c > cart_z l then c\<lparr>ud := True\<rparr>
      else if uz c < cart_z l then c\<lparr>uz := uz c + 1\<rparr> else c)"

definition cart_below :: "ucoord_t \<Rightarrow> ucoord_t" where
  "cart_below c = (if uz c = 0 then c else c\<lparr>uz := uz c - 1\<rparr>)"

definition cart_is_north_of :: "ucoord_t \<Rightarrow> ucoord_t \<Rightarrow> bool" where
  "cart_is_north_of c1 c2 = (c1 \<noteq> c2 \<and> cart_north c1 = c2)"

definition cart_is_east_of :: "cartesian_layout \<Rightarrow> ucoord_t \<Rightarrow> ucoord_t \<Rightarrow> bool" where
  "cart_is_east_of l c1 c2 = (c1 \<noteq> c2 \<and> cart_east l c1 = c2)"

definition cart_is_south_of :: "cartesian_layout \<Rightarrow> ucoord_t \<Rightarrow> ucoord_t \<Rightarrow> bool" where
  "cart_is_south_of l c1 c2 = (c1 \<noteq> c2 \<and> cart_south l c1 = c2)"

definition cart_is_west_of :: "ucoord_t \<Rightarrow> ucoord_t \<Rightarrow> bool" where
  "cart_is_west_of c1 c2 = (c1 \<noteq> c2 \<and> cart_west c1 = c2)"

definition cart_is_adjacent_of :: "cartesian_layout \<Rightarrow> ucoord_t \<Rightarrow> ucoord_t \<Rightarrow> bool" where
  "cart_is_adjacent_of l c1 c2 =
     (cart_is_north_of c1 c2 \<or> cart_is_east_of l c1 c2 \<or> cart_is_south_of l c1 c2 \<or> cart_is_west_of c1 c2)"

definition cart_is_adjacent_elevation_of :: "cartesian_layout \<Rightarrow> ucoord_t \<Rightarrow> ucoord_t \<Rightarrow> bool" where
  "cart_is_adjacent_elevation_of l c1 c2 =
     (cart_is_adjacent_of l c1 c2 \<or> cart_is_adjacent_of l (cart_above l c1) c2 \<or>
      cart_is_adjacent_of l (cart_below c1) c2)"

definition cart_is_above :: "cartesian_layout \<Rightarrow> ucoord_t \<Rightarrow> ucoord_t \<Rightarrow> bool" where
  "cart_is_above l c1 c2 = (c1 \<noteq> c2 \<and> cart_above l c1 = c2)"

definition cart_is_below :: "ucoord_t \<Rightarrow> ucoord_t \<Rightarrow> bool" where
  "cart_is_below c1 c2 = (c1 \<noteq> c2 \<and> cart_below c1 = c2)"

definition cart_is_northwards_of :: "ucoord_t \<Rightarrow> ucoord_t \<Rightarrow> bool" where
  "cart_is_northwards_of c1 c2 = (uz c1 = uz c2 \<and> uy c1 > uy c2 \<and> ux c1 = ux c2)"

definition cart_is_eastwards_of :: "ucoord_t \<Rightarrow> ucoord_t \<Rightarrow> bool" where
  "cart_is_eastwards_of c1 c2 = (uz c1 = uz c2 \<and> uy c1 = uy c2 \<and> ux c1 < ux c2)"

definition cart_is_southwards_of :: "ucoord_t \<Rightarrow> ucoord_t \<Rightarrow> bool" where
  "cart_is_southwards_of c1 c2 = (uz c1 = uz c2 \<and> uy c1 < uy c2 \<and> ux c1 = ux c2)"

definition cart_is_westwards_of :: "ucoord_t \<Rightarrow> ucoord_t \<Rightarrow> bool" where
  "cart_is_westwards_of c1 c2 = (uz c1 = uz c2 \<and> uy c1 = uy c2 \<and> ux c1 > ux c2)"

section \<open>Borders and layers\<close>

definition cart_is_at_northern_border :: "ucoord_t \<Rightarrow> bool" where
  "cart_is_at_northern_border c = (uy c = 0)"

definition cart_is_at_eastern_border :: "cartesian_layout \<Rightarrow> ucoord_t \<Rightarrow> bool" where
  "cart_is_at_eastern_border l c = (ux c = cart_x l)"

definition cart_is_at_southern_border :: "cartesian_layout \<Rightarrow> ucoord_t \<Rightarrow> bool" where
  "cart_is_at_southern_border l c = (uy c = cart_y l)"

definition cart_is_at_western_border :: "ucoord_t \<Rightarrow> bool" where
  "cart_is_at_western_border c = (ux c = 0)"

definition cart_is_at_any_border :: "cartesian_layout \<Rightarrow> ucoord_t \<Rightarrow> bool" where
  "cart_is_at_any_border l c =
     (cart_is_at_northern_border c \<or> cart_is_at_eastern_border l c \<or>
      cart_is_at_southern_border l c \<or> cart_is_at_western_border c)"

definition cart_northern_border_of :: "ucoord_t \<Rightarrow> ucoord_t" where
  "cart_northern_border_of c = ucoord3 (ucast (ux c)) 0 (ucast (uz c))"

definition cart_eastern_border_of :: "cartesian_layout \<Rightarrow> ucoord_t \<Rightarrow> ucoord_t" where
  "cart_eastern_border_of l c = ucoord3 (ucast (cart_x l)) (ucast (uy c)) (ucast (uz c))"

definition cart_southern_border_of :: "cartesian_layout \<Rightarrow> ucoord_t \<Rightarrow> ucoord_t" where
  "cart_southern_border_of l c = ucoord3 (ucast (ux c)) (ucast (cart_y l)) (ucast (uz c))"

definition cart_western_border_of :: "ucoord_t \<Rightarrow> ucoord_t" where
  "cart_western_border_of c = ucoord3 0 (ucast (uy c)) (ucast (uz c))"

definition cart_is_ground_layer :: "ucoord_t \<Rightarrow> bool" where
  "cart_is_ground_layer c = (uz c = 0)"

definition cart_is_crossing_layer :: "ucoord_t \<Rightarrow> bool" where
  "cart_is_crossing_layer c = (uz c > 0)"

definition cart_is_within_bounds :: "cartesian_layout \<Rightarrow> ucoord_t \<Rightarrow> bool" where
  "cart_is_within_bounds l c = (ux c \<le> cart_x l \<and> uy c \<le> cart_y l \<and> uz c \<le> cart_z l)"

section \<open>Iteration\<close>

text \<open>The range that \<open>coordinates\<close> returns and \<open>foreach_coordinate\<close> walks, as the list of its
  elements; the ground-layer variants walk the grid with its z-dimension set to 0.\<close>

definition cart_coordinates :: "cartesian_layout \<Rightarrow> ucoord_t \<Rightarrow> ucoord_t \<Rightarrow> ucoord_t list option" where
  "cart_coordinates l start stop =
     coord_range l (if is_dead start then ucoord2 0 0 else start) (if is_dead stop then get_dead l else stop)"

definition cart_ground_coordinates :: "cartesian_layout \<Rightarrow> ucoord_t \<Rightarrow> ucoord_t \<Rightarrow> ucoord_t list option" where
  "cart_ground_coordinates l start stop =
     (let ground_layer = ucoord3 (ucast (cart_x l)) (ucast (cart_y l)) 0 in
      coord_range ground_layer (if is_dead start then ucoord2 0 0 else start)
        (if is_dead stop then get_dead ground_layer else stop))"

definition cart_adjacent_coordinates ::
    "(ucoord_t \<Rightarrow> ucoord_t list \<Rightarrow> ucoord_t list) \<Rightarrow> cartesian_layout \<Rightarrow> ucoord_t \<Rightarrow> ucoord_t list" where
  "cart_adjacent_coordinates ins l c =
     (let add_if_not_c = (\<lambda>cardinal cnt. if cardinal \<noteq> c then ins cardinal cnt else cnt);
          cnt0 = [];
          cnt1 = add_if_not_c (cart_north c) cnt0;
          cnt2 = add_if_not_c (cart_east l c) cnt1;
          cnt3 = add_if_not_c (cart_south l c) cnt2
      in add_if_not_c (cart_west c) cnt3)"

definition cart_adjacent_opposite_coordinates ::
    "(ucoord_t \<times> ucoord_t \<Rightarrow> (ucoord_t \<times> ucoord_t) list \<Rightarrow> (ucoord_t \<times> ucoord_t) list) \<Rightarrow>
     cartesian_layout \<Rightarrow> ucoord_t \<Rightarrow> (ucoord_t \<times> ucoord_t) list" where
  "cart_adjacent_opposite_coordinates ins l c =
     (let add_if_not_c = (\<lambda>c1 c2 cnt. if c1 \<noteq> c \<and> c2 \<noteq> c then ins (c1, c2) cnt else cnt);
          cnt1 = add_if_not_c (cart_north c) (cart_south l c) []
      in add_if_not_c (cart_east l c) (cart_west c) cnt1)"

section \<open>Lemmas on the cardinal operations\<close>

lemma unat_pred_31: "w \<noteq> 0 \<Longrightarrow> unat (w - 1 :: 31 word) = unat w - 1"
  by (rule unat_minus_one)

lemma unat_succ_less_31: "(w :: 31 word) < v \<Longrightarrow> unat (w + 1) = Suc (unat w)"
  using unat_31_less [of v] by (intro unat_plus1_31) (simp add: word_less_nat_alt)

lemma in_grid_bounds: "in_grid l c \<longleftrightarrow> \<not> ud c \<and> cart_is_within_bounds l c"
  by (simp add: in_grid_def cart_is_within_bounds_def)

lemma in_grid_unat:
  "in_grid l c \<longleftrightarrow> \<not> ud c \<and> unat (ux c) \<le> unat (ux l) \<and> unat (uy c) \<le> unat (uy l) \<and> unat (uz c) \<le> unat (uz l)"
  by (simp add: in_grid_def word_le_nat_alt)

text \<open>Positions as integers, and the Manhattan distance within a layer.\<close>

definition manhattan :: "ucoord_t \<Rightarrow> ucoord_t \<Rightarrow> int" where
  "manhattan a b = \<bar>uint (ux a) - uint (ux b)\<bar> + \<bar>uint (uy a) - uint (uy b)\<bar>"

lemma manhattan_unat:
  "manhattan a b = \<bar>int (unat (ux a)) - int (unat (ux b))\<bar> + \<bar>int (unat (uy a)) - int (unat (uy b))\<bar>"
  by (simp add: manhattan_def)

lemma manhattan_sym: "manhattan a b = manhattan b a"
  by (simp add: manhattan_def)

lemma word_0_unat: "(w :: 31 word) = 0 \<longleftrightarrow> unat w = 0"
  by (simp add: unat_eq_0)

lemma ucoord_upd_iff:
  fixes c c2 :: ucoord_t
  shows "c\<lparr>ux := x\<rparr> = c2 \<longleftrightarrow> ud c2 = ud c \<and> uz c2 = uz c \<and> uy c2 = uy c \<and> ux c2 = x"
    and "c\<lparr>uy := y\<rparr> = c2 \<longleftrightarrow> ud c2 = ud c \<and> uz c2 = uz c \<and> uy c2 = y \<and> ux c2 = ux c"
    and "c\<lparr>uz := z\<rparr> = c2 \<longleftrightarrow> ud c2 = ud c \<and> uz c2 = z \<and> uy c2 = uy c \<and> ux c2 = ux c"
    and "c\<lparr>ud := d\<rparr> = c2 \<longleftrightarrow> ud c2 = d \<and> uz c2 = uz c \<and> uy c2 = uy c \<and> ux c2 = ux c"
    and "c = c2 \<longleftrightarrow> ud c2 = ud c \<and> uz c2 = uz c \<and> uy c2 = uy c \<and> ux c2 = ux c"
  by (cases c; cases c2; auto)+

lemma cart_is_north_of_iff:
  assumes "in_grid l c"
  shows "cart_is_north_of c c2 \<longleftrightarrow>
    in_grid l c2 \<and> uz c2 = uz c \<and> unat (ux c2) = unat (ux c) \<and> Suc (unat (uy c2)) = unat (uy c)"
proof (cases "uy c = 0")
  case False
  then have "unat (uy c - 1) = unat (uy c) - 1" "0 < unat (uy c)"
    by (auto simp: unat_pred_31 word_0_unat)
  with False assms show ?thesis
    unfolding cart_is_north_of_def cart_north_def ucoord_upd_iff(5) [of c c2]
    by (auto simp: ucoord_upd_iff(2) in_grid_unat word_unat_eq_iff)
qed (simp add: cart_is_north_of_def cart_north_def)

lemma cart_is_west_of_iff:
  assumes "in_grid l c"
  shows "cart_is_west_of c c2 \<longleftrightarrow>
    in_grid l c2 \<and> uz c2 = uz c \<and> unat (uy c2) = unat (uy c) \<and> Suc (unat (ux c2)) = unat (ux c)"
proof (cases "ux c = 0")
  case False
  then have "unat (ux c - 1) = unat (ux c) - 1" "0 < unat (ux c)"
    by (auto simp: unat_pred_31 word_0_unat)
  with False assms show ?thesis
    unfolding cart_is_west_of_def cart_west_def ucoord_upd_iff(5) [of c c2]
    by (auto simp: ucoord_upd_iff(1) in_grid_unat word_unat_eq_iff)
qed (simp add: cart_is_west_of_def cart_west_def)

lemma cart_is_east_of_iff:
  assumes "in_grid l c"
  shows "cart_is_east_of l c c2 \<longleftrightarrow>
    in_grid l c2 \<and> uz c2 = uz c \<and> unat (uy c2) = unat (uy c) \<and> unat (ux c2) = Suc (unat (ux c))"
proof (cases "ux c < ux l")
  case True
  note u = unat_succ_less_31 [OF True]
  from True assms u show ?thesis
    unfolding cart_is_east_of_def cart_east_def ucoord_upd_iff(5) [of c c2]
    by (auto simp: ucoord_upd_iff(1) in_grid_unat word_unat_eq_iff word_less_nat_alt)
next
  case False
  with assms have "ux c = ux l" by (simp add: in_grid_def)
  with assms show ?thesis
    by (auto simp: cart_is_east_of_def cart_east_def in_grid_unat)
qed

lemma cart_is_south_of_iff:
  assumes "in_grid l c"
  shows "cart_is_south_of l c c2 \<longleftrightarrow>
    in_grid l c2 \<and> uz c2 = uz c \<and> unat (ux c2) = unat (ux c) \<and> unat (uy c2) = Suc (unat (uy c))"
proof (cases "uy c < uy l")
  case True
  note u = unat_succ_less_31 [OF True]
  from True assms u show ?thesis
    unfolding cart_is_south_of_def cart_south_def ucoord_upd_iff(5) [of c c2]
    by (auto simp: ucoord_upd_iff(2) in_grid_unat word_unat_eq_iff word_less_nat_alt)
next
  case False
  with assms have "uy c = uy l" by (simp add: in_grid_def)
  with assms show ?thesis
    by (auto simp: cart_is_south_of_def cart_south_def in_grid_unat)
qed

lemmas cart_cardinal_iff =
  cart_is_north_of_iff cart_is_east_of_iff cart_is_south_of_iff cart_is_west_of_iff

lemma unit_step:
  fixes a b p q :: nat
  shows "\<bar>int a - int b\<bar> + \<bar>int p - int q\<bar> = 1 \<longleftrightarrow>
    (b = a \<and> Suc q = p) \<or> (q = p \<and> b = Suc a) \<or> (b = a \<and> q = Suc p) \<or> (q = p \<and> Suc b = a)"
proof
  assume h: "\<bar>int a - int b\<bar> + \<bar>int p - int q\<bar> = 1"
  show "(b = a \<and> Suc q = p) \<or> (q = p \<and> b = Suc a) \<or> (b = a \<and> q = Suc p) \<or> (q = p \<and> Suc b = a)"
  proof (cases "a = b")
    case True
    with h have "\<bar>int p - int q\<bar> = 1" by simp
    with True show ?thesis by linarith
  next
    case False
    with h have "p = q" "\<bar>int a - int b\<bar> = 1" by linarith+
    then show ?thesis by linarith
  qed
qed auto

lemma cart_is_adjacent_of_iff:
  assumes "in_grid l c"
  shows "cart_is_adjacent_of l c c2 \<longleftrightarrow> in_grid l c2 \<and> uz c2 = uz c \<and> manhattan c c2 = 1"
proof -
  have m: "manhattan c c2 = 1 \<longleftrightarrow>
      (unat (ux c2) = unat (ux c) \<and> Suc (unat (uy c2)) = unat (uy c)) \<or>
      (unat (uy c2) = unat (uy c) \<and> unat (ux c2) = Suc (unat (ux c))) \<or>
      (unat (ux c2) = unat (ux c) \<and> unat (uy c2) = Suc (unat (uy c))) \<or>
      (unat (uy c2) = unat (uy c) \<and> Suc (unat (ux c2)) = unat (ux c))"
    unfolding manhattan_unat by (rule unit_step)
  show ?thesis
    unfolding cart_is_adjacent_of_def cart_cardinal_iff [OF assms] m by blast
qed

lemma cart_adjacent_set:
  "set (cart_adjacent_coordinates vec_insert l c) = {c2. cart_is_adjacent_of l c c2}"
  by (auto simp: cart_adjacent_coordinates_def Let_def vec_insert_def cart_is_adjacent_of_def
      cart_is_north_of_def cart_is_east_of_def cart_is_south_of_def cart_is_west_of_def)

text \<open>Building the container by any insertion is folding the insertion over the vector.\<close>

lemma cart_adjacent_fold:
  "cart_adjacent_coordinates ins l c = fold ins (cart_adjacent_coordinates vec_insert l c) []"
  by (simp add: cart_adjacent_coordinates_def Let_def vec_insert_def)

lemma cart_adjacent_length: "length (cart_adjacent_coordinates vec_insert l c) \<le> 4"
  by (simp add: cart_adjacent_coordinates_def Let_def vec_insert_def)

section \<open>Lemmas on the ranges\<close>

lemma grid_nth_0: "grid_nth dim 0 = ucoord2 0 0"
  by (simp add: grid_nth_def grid_coord_def ucoord2_def)

lemma grid_size_pos: "0 < grid_size dim"
  by (simp add: grid_size_def)

lemma coord_range_all:
  assumes "enumerable dim"
  shows "coord_range dim (ucoord2 0 0) (get_dead dim) = Some (map (grid_nth dim) [0..<grid_size dim])"
  using coord_range_grid_dead [OF assms grid_size_pos] by (simp only: grid_nth_0)

lemma ucoord2_alive [simp]: "\<not> ud (ucoord2 x y)"
  by (simp add: ucoord2_def)

lemma grid_index_mono:
  assumes "enumerable dim" and "in_grid dim a" and "in_grid dim b"
  shows "ucoord_less a b \<longleftrightarrow> grid_index dim a < grid_index dim b"
proof
  assume "grid_index dim a < grid_index dim b"
  then show "ucoord_less a b"
    using grid_nth_mono [OF assms(1) _ grid_index_less [OF assms(3)]] grid_nth_index assms by metis
next
  assume ab: "ucoord_less a b"
  have "\<not> grid_index dim b < grid_index dim a"
    using grid_nth_mono [OF assms(1) _ grid_index_less [OF assms(2)]] grid_nth_index assms ab
      ucoord_order.lt_asym by metis
  moreover have "grid_index dim a \<noteq> grid_index dim b"
    using grid_nth_index assms ab ucoord_order.lt_irrefl by metis
  ultimately show "grid_index dim a < grid_index dim b" by linarith
qed

lemma coord_range_between:
  assumes en: "enumerable dim" and a: "in_grid dim a" and b: "in_grid dim b" and ab: "\<not> ucoord_less b a"
  shows "\<exists>cs. coord_range dim a b = Some cs \<and> sorted_wrt ucoord_less cs \<and>
    set cs = {c. in_grid dim c \<and> \<not> ucoord_less c a \<and> ucoord_less c b}"
proof (intro exI conjI)
  let ?i = "grid_index dim a" and ?j = "grid_index dim b"
  have ij: "?i \<le> ?j" using grid_index_mono [OF en b a] ab by linarith
  have j: "?j < grid_size dim" by (rule grid_index_less [OF b])
  show "coord_range dim a b = Some (map (grid_nth dim) [?i..<?j])"
    using coord_range_grid [OF en ij j] grid_nth_index [OF en] a b by simp
  show "sorted_wrt ucoord_less (map (grid_nth dim) [?i..<?j])"
    using en j by (intro sorted_grid) simp_all
  show "set (map (grid_nth dim) [?i..<?j]) = {c. in_grid dim c \<and> \<not> ucoord_less c a \<and> ucoord_less c b}"
  proof (intro equalityI subsetI)
    fix c
    assume "c \<in> set (map (grid_nth dim) [?i..<?j])"
    then obtain k where k: "?i \<le> k" "k < ?j" "c = grid_nth dim k" by auto
    then have "grid_index dim c = k" "in_grid dim c"
      using grid_index_nth [OF en, of k] in_grid_nth [OF en, of k] j by simp_all
    with k show "c \<in> {c. in_grid dim c \<and> \<not> ucoord_less c a \<and> ucoord_less c b}"
      by (simp add: grid_index_mono [OF en] a b)
  next
    fix c
    assume "c \<in> {c. in_grid dim c \<and> \<not> ucoord_less c a \<and> ucoord_less c b}"
    then have c: "in_grid dim c" "?i \<le> grid_index dim c" "grid_index dim c < ?j"
      using grid_index_mono [OF en _ a] grid_index_mono [OF en _ b] by (auto simp: not_less)
    then have "c = grid_nth dim (grid_index dim c)" by (simp add: grid_nth_index [OF en])
    with c show "c \<in> set (map (grid_nth dim) [?i..<?j])" by (intro image_eqI [of c] | simp)+
  qed
qed

lemma cart_ground_layer_enumerable:
  "unat (ux l) < 2 ^ 31 - 1 \<Longrightarrow> unat (uy l) < 2 ^ 31 - 1 \<Longrightarrow>
   enumerable (ucoord3 (ucast (ux l)) (ucast (uy l)) 0)"
  by (simp add: enumerable_def ucoord3_def)

section \<open>Properties\<close>

text \<open>Iterating over a layout made by the default constructor never ends: its dimension is a
  dead coordinate, the iterator never becomes equal to the end of the range, and \<open>foreach_coordinate\<close>
  loops.\<close>

theorem default_layout_iteration_diverges:
  "cart_coordinates ucoord_default ucoord_default ucoord_default = None"
  unfolding cart_coordinates_def
  by (simp add: is_dead_def ucoord_default_def coord_range_dead_dim)

text \<open>A range with explicit bounds holds the tiles of the layout from \<open>start\<close> inclusive to \<open>stop\<close>
  exclusive, in ascending order and each once.\<close>

theorem coordinates_between:
  assumes "enumerable l" and "in_grid l start" and "in_grid l stop" and "\<not> ucoord_less stop start"
  shows "\<exists>cs. cart_coordinates l start stop = Some cs \<and> sorted_wrt ucoord_less cs \<and>
    set cs = {c. in_grid l c \<and> \<not> ucoord_less c start \<and> ucoord_less c stop}"
  using coord_range_between [OF assms] assms(2,3)
  by (simp add: cart_coordinates_def is_dead_def in_grid_def)

lemma coordinates_between_witness:
  "\<exists>cs. cart_coordinates (ucoord3 4 3 1) (ucoord3 1 0 0) (ucoord3 2 2 1) = Some cs \<and> sorted_wrt ucoord_less cs \<and>
    set cs = {c. in_grid (ucoord3 4 3 1) c \<and> \<not> ucoord_less c (ucoord3 1 0 0) \<and> ucoord_less c (ucoord3 2 2 1)}"
  by (rule coordinates_between) (simp_all add: enumerable_def in_grid_def ucoord3_def ucoord_less_def)

text \<open>C22. The adjacent coordinates of a tile are exactly the tiles of the layout on the same layer
  whose Manhattan distance to it is one, and at most four.\<close>

theorem cartesian_adjacency:
  assumes "in_grid l c"
  shows "set (cart_adjacent_coordinates vec_insert l c) = {d. in_grid l d \<and> uz d = uz c \<and> manhattan c d = 1} \<and>
    length (cart_adjacent_coordinates vec_insert l c) \<le> 4"
  by (simp add: cart_adjacent_set cart_is_adjacent_of_iff [OF assms] cart_adjacent_length)

lemma cartesian_adjacency_witness:
  "set (cart_adjacent_coordinates vec_insert (ucoord3 4 3 1) (ucoord3 4 1 1)) =
     {d. in_grid (ucoord3 4 3 1) d \<and> uz d = uz (ucoord3 4 1 1) \<and> manhattan (ucoord3 4 1 1) d = 1} \<and>
   length (cart_adjacent_coordinates vec_insert (ucoord3 4 3 1) (ucoord3 4 1 1)) \<le> 4"
  by (rule cartesian_adjacency) (simp add: in_grid_def ucoord3_def)

end
