(* ===== verification/Hexagonal_Layout.thy ===== *)
theory Hexagonal_Layout
  imports Cartesian_Layout "HOL-Library.Signed_Division"
begin

text \<open>
  Model of \<open>layouts/hexagonal_layout.hpp\<close> and \<open>layouts/shifted_cartesian_layout.hpp\<close>. The template
  parameter \<open>HexagonalCoordinateSystem\<close> is the datatype \<open>hex_arrangement\<close>; the storage is the
  \<open>dimension\<close>, as in the Cartesian layout. Many members repeat the text of the Cartesian class; they
  are defined by the Cartesian operation. The members that differ go through cube coordinates.

  The lemmas show that the two conversions are inverse to each other, that every conversion stays
  within \<open>int32_t\<close> for coordinates below \<open>2 ^ 30\<close>, that the neighbours of a coordinate are exactly
  the coordinates of the layout at cube distance one, and that they are the six cardinals of the
  orientation.
\<close>

datatype hex_arrangement = odd_row_hex | even_row_hex | odd_column_hex | even_column_hex

datatype hex_orientation = pointy_top_hex | flat_top_hex

fun hex_orientation_of :: "hex_arrangement \<Rightarrow> hex_orientation" where
  "hex_orientation_of odd_row_hex = pointy_top_hex"
| "hex_orientation_of even_row_hex = pointy_top_hex"
| "hex_orientation_of odd_column_hex = flat_top_hex"
| "hex_orientation_of even_column_hex = flat_top_hex"

type_synonym hexagonal_layout = ucoord_t

section \<open>Structural properties, rows and columns\<close>

definition hex_x :: "hexagonal_layout \<Rightarrow> u64" where
  "hex_x l = ucast (ux l)"

definition hex_y :: "hexagonal_layout \<Rightarrow> u64" where
  "hex_y l = ucast (uy l)"

definition hex_z :: "hexagonal_layout \<Rightarrow> u64" where
  "hex_z l = ucast (uz l)"

definition hex_area :: "hexagonal_layout \<Rightarrow> u64" where
  "hex_area l = (hex_x l + 1) * (hex_y l + 1)"

definition hex_resize :: "ucoord_t \<Rightarrow> hexagonal_layout \<Rightarrow> hexagonal_layout" where
  "hex_resize ar l = ar"

definition hex_is_in_odd_row :: "ucoord_t \<Rightarrow> bool" where
  "hex_is_in_odd_row c = (uy c mod 2 = 1)"

definition hex_is_in_even_row :: "ucoord_t \<Rightarrow> bool" where
  "hex_is_in_even_row c = (uy c mod 2 = 0)"

definition hex_is_in_odd_column :: "ucoord_t \<Rightarrow> bool" where
  "hex_is_in_odd_column c = (ux c mod 2 = 1)"

definition hex_is_in_even_column :: "ucoord_t \<Rightarrow> bool" where
  "hex_is_in_even_column c = (ux c mod 2 = 0)"

section \<open>Conversions between offset and cube coordinates\<close>

definition hex_offset :: "hex_arrangement \<Rightarrow> int" where
  "hex_offset arr = (if arr = odd_row_hex \<or> arr = odd_column_hex then -1 else 1)"

definition to_cube_coordinate :: "hex_arrangement \<Rightarrow> ucoord_t \<Rightarrow> cube_coord_t" where
  "to_cube_coordinate arr c =
     (case hex_orientation_of arr of
        pointy_top_hex \<Rightarrow>
          (let cx = uint (ux c) - (uint (uy c) + hex_offset arr * (uint (uy c) AND 1)) sdiv 2;
               cz = uint (uy c)
           in cube3 cx (- cx - cz) cz)
      | flat_top_hex \<Rightarrow>
          (let cx = uint (ux c);
               cz = uint (uy c) - (uint (ux c) + hex_offset arr * (uint (ux c) AND 1)) sdiv 2
           in cube3 cx (- cx - cz) cz))"

definition to_offset_coordinate :: "hex_arrangement \<Rightarrow> cube_coord_t \<Rightarrow> ucoord_t" where
  "to_offset_coordinate arr q =
     (case hex_orientation_of arr of
        pointy_top_hex \<Rightarrow>
          (ucoord2 0 0)
            \<lparr>ux := word_of_int (cube_x q + (cube_z q + hex_offset arr * (cube_z q AND 1)) sdiv 2),
             uy := word_of_int (cube_z q)\<rparr>
      | flat_top_hex \<Rightarrow>
          (ucoord2 0 0)
            \<lparr>ux := word_of_int (cube_x q),
             uy := word_of_int (cube_z q + (cube_x q + hex_offset arr * (cube_x q AND 1)) sdiv 2)\<rparr>)"

section \<open>Cardinal operations\<close>

definition hex_is_within_bounds :: "hexagonal_layout \<Rightarrow> ucoord_t \<Rightarrow> bool" where
  "hex_is_within_bounds l c =
     (ucast (ux c) \<le> hex_x l \<and> ucast (uy c) \<le> hex_y l \<and> ucast (uz c) \<le> hex_z l)"

text \<open>The step all cube-based cardinals share: convert, add the direction, convert back, restore
  the layer.\<close>

definition hex_move :: "hex_arrangement \<Rightarrow> ucoord_t \<Rightarrow> cube_coord_t \<Rightarrow> ucoord_t" where
  "hex_move arr c dir =
     (to_offset_coordinate arr (cube_plus (to_cube_coordinate arr c) dir))\<lparr>uz := uz c\<rparr>"

definition hex_north :: "ucoord_t \<Rightarrow> ucoord_t" where
  "hex_north c = cart_north c"

definition hex_north_east :: "hex_arrangement \<Rightarrow> hexagonal_layout \<Rightarrow> ucoord_t \<Rightarrow> ucoord_t" where
  "hex_north_east arr l c =
     (let ne = hex_move arr c (cube3 1 0 (-1)) in if hex_is_within_bounds l ne then ne else c)"

definition hex_east :: "hexagonal_layout \<Rightarrow> ucoord_t \<Rightarrow> ucoord_t" where
  "hex_east l c =
     (if ucast (ux c) > hex_x l then c\<lparr>ud := True\<rparr>
      else if ucast (ux c) < hex_x l then c\<lparr>ux := ux c + 1\<rparr> else c)"

definition hex_south_east :: "hex_arrangement \<Rightarrow> hexagonal_layout \<Rightarrow> ucoord_t \<Rightarrow> ucoord_t" where
  "hex_south_east arr l c =
     (case hex_orientation_of arr of
        pointy_top_hex \<Rightarrow>
          (let se = hex_move arr c (cube3 0 (-1) 1) in if hex_is_within_bounds l se then se else c)
      | flat_top_hex \<Rightarrow>
          (let se = hex_move arr c (cube3 1 (-1) 0) in if hex_is_within_bounds l se then se else c))"

definition hex_south :: "hexagonal_layout \<Rightarrow> ucoord_t \<Rightarrow> ucoord_t" where
  "hex_south l c =
     (if ucast (uy c) > hex_y l then c\<lparr>ud := True\<rparr>
      else if ucast (uy c) < hex_y l then c\<lparr>uy := uy c + 1\<rparr> else c)"

definition hex_south_west :: "hex_arrangement \<Rightarrow> hexagonal_layout \<Rightarrow> ucoord_t \<Rightarrow> ucoord_t" where
  "hex_south_west arr l c =
     (let sw = hex_move arr c (cube3 (-1) 0 1) in if hex_is_within_bounds l sw then sw else c)"

definition hex_west :: "ucoord_t \<Rightarrow> ucoord_t" where
  "hex_west c = cart_west c"

definition hex_north_west :: "hex_arrangement \<Rightarrow> hexagonal_layout \<Rightarrow> ucoord_t \<Rightarrow> ucoord_t" where
  "hex_north_west arr l c =
     (case hex_orientation_of arr of
        pointy_top_hex \<Rightarrow>
          (let nw = hex_move arr c (cube3 0 1 (-1)) in if hex_is_within_bounds l nw then nw else c)
      | flat_top_hex \<Rightarrow>
          (let nw = hex_move arr c (cube3 (-1) 1 0) in if hex_is_within_bounds l nw then nw else c))"

definition hex_above :: "hexagonal_layout \<Rightarrow> ucoord_t \<Rightarrow> ucoord_t" where
  "hex_above l c =
     (if ucast (uz c) > hex_z l then c\<lparr>ud := True\<rparr>
      else if ucast (uz c) < hex_z l then c\<lparr>uz := uz c + 1\<rparr> else c)"

definition hex_below :: "ucoord_t \<Rightarrow> ucoord_t" where
  "hex_below c = cart_below c"

section \<open>Iteration\<close>

definition cube_directions :: "cube_coord_t list" where
  "cube_directions = [cube3 1 (-1) 0, cube3 1 0 (-1), cube3 0 1 (-1),
                      cube3 (-1) 1 0, cube3 (-1) 0 1, cube3 0 (-1) 1]"

definition hex_adjacent_coordinates ::
    "(ucoord_t \<Rightarrow> ucoord_t list \<Rightarrow> ucoord_t list) \<Rightarrow> hex_arrangement \<Rightarrow> hexagonal_layout \<Rightarrow>
     ucoord_t \<Rightarrow> ucoord_t list" where
  "hex_adjacent_coordinates ins arr l c =
     fold (\<lambda>dir cnt.
       let neighbor = (to_offset_coordinate arr (cube_plus (to_cube_coordinate arr c) dir))\<lparr>uz := uz c\<rparr>
       in if hex_is_within_bounds l neighbor then ins neighbor cnt else cnt) cube_directions []"

definition hex_adjacent_opposite_coordinates ::
    "(ucoord_t \<times> ucoord_t \<Rightarrow> (ucoord_t \<times> ucoord_t) list \<Rightarrow> (ucoord_t \<times> ucoord_t) list) \<Rightarrow>
     hex_arrangement \<Rightarrow> hexagonal_layout \<Rightarrow> ucoord_t \<Rightarrow> (ucoord_t \<times> ucoord_t) list" where
  "hex_adjacent_opposite_coordinates ins arr l c =
     (let add_if_not_c = (\<lambda>c1 c2 cnt. if c1 \<noteq> c \<and> c2 \<noteq> c then ins (c1, c2) cnt else cnt);
          cnt1 = (case hex_orientation_of arr of
                    pointy_top_hex \<Rightarrow> add_if_not_c (hex_east l c) (hex_west c) []
                  | flat_top_hex \<Rightarrow> add_if_not_c (hex_north c) (hex_south l c) []);
          cnt2 = add_if_not_c (hex_north_east arr l c) (hex_south_west arr l c) cnt1
      in add_if_not_c (hex_north_west arr l c) (hex_south_east arr l c) cnt2)"

definition hex_coordinates :: "hexagonal_layout \<Rightarrow> ucoord_t \<Rightarrow> ucoord_t \<Rightarrow> ucoord_t list option" where
  "hex_coordinates l start stop =
     coord_range l (if is_dead start then ucoord2 0 0 else start) (if is_dead stop then get_dead l else stop)"

definition hex_ground_coordinates :: "hexagonal_layout \<Rightarrow> ucoord_t \<Rightarrow> ucoord_t \<Rightarrow> ucoord_t list option" where
  "hex_ground_coordinates l start stop =
     (let ground_layer = ucoord3 (hex_x l) (hex_y l) 0 in
      coord_range ground_layer (if is_dead start then ucoord2 0 0 else start)
        (if is_dead stop then get_dead ground_layer else stop))"

section \<open>Tests and borders\<close>

definition hex_is_north_of :: "ucoord_t \<Rightarrow> ucoord_t \<Rightarrow> bool" where
  "hex_is_north_of c1 c2 = (c1 \<noteq> c2 \<and> hex_north c1 = c2)"

definition hex_is_east_of :: "hexagonal_layout \<Rightarrow> ucoord_t \<Rightarrow> ucoord_t \<Rightarrow> bool" where
  "hex_is_east_of l c1 c2 = (c1 \<noteq> c2 \<and> hex_east l c1 = c2)"

definition hex_is_south_of :: "hexagonal_layout \<Rightarrow> ucoord_t \<Rightarrow> ucoord_t \<Rightarrow> bool" where
  "hex_is_south_of l c1 c2 = (c1 \<noteq> c2 \<and> hex_south l c1 = c2)"

definition hex_is_west_of :: "ucoord_t \<Rightarrow> ucoord_t \<Rightarrow> bool" where
  "hex_is_west_of c1 c2 = (c1 \<noteq> c2 \<and> hex_west c1 = c2)"

text \<open>\<open>std::set::count\<close> compares with the set's comparator.\<close>

definition hex_is_adjacent_of :: "hex_arrangement \<Rightarrow> hexagonal_layout \<Rightarrow> ucoord_t \<Rightarrow> ucoord_t \<Rightarrow> bool" where
  "hex_is_adjacent_of arr l c1 c2 =
     list_ex (\<lambda>a. \<not> ucoord_less a c2 \<and> \<not> ucoord_less c2 a)
       (hex_adjacent_coordinates (set_insert ucoord_less) arr l c1)"

definition hex_is_adjacent_elevation_of ::
    "hex_arrangement \<Rightarrow> hexagonal_layout \<Rightarrow> ucoord_t \<Rightarrow> ucoord_t \<Rightarrow> bool" where
  "hex_is_adjacent_elevation_of arr l c1 c2 =
     (hex_is_adjacent_of arr l c1 c2 \<or> hex_is_adjacent_of arr l (hex_above l c1) c2 \<or>
      hex_is_adjacent_of arr l (hex_below c1) c2)"

definition hex_is_above :: "hexagonal_layout \<Rightarrow> ucoord_t \<Rightarrow> ucoord_t \<Rightarrow> bool" where
  "hex_is_above l c1 c2 = (c1 \<noteq> c2 \<and> hex_above l c1 = c2)"

definition hex_is_below :: "ucoord_t \<Rightarrow> ucoord_t \<Rightarrow> bool" where
  "hex_is_below c1 c2 = (c1 \<noteq> c2 \<and> hex_below c1 = c2)"

definition hex_is_northwards_of :: "ucoord_t \<Rightarrow> ucoord_t \<Rightarrow> bool" where
  "hex_is_northwards_of c1 c2 = (uz c1 = uz c2 \<and> uy c1 > uy c2 \<and> ux c1 = ux c2)"

definition hex_is_eastwards_of :: "ucoord_t \<Rightarrow> ucoord_t \<Rightarrow> bool" where
  "hex_is_eastwards_of c1 c2 = (uz c1 = uz c2 \<and> uy c1 = uy c2 \<and> ux c1 < ux c2)"

definition hex_is_southwards_of :: "ucoord_t \<Rightarrow> ucoord_t \<Rightarrow> bool" where
  "hex_is_southwards_of c1 c2 = (uz c1 = uz c2 \<and> uy c1 < uy c2 \<and> ux c1 = ux c2)"

definition hex_is_westwards_of :: "ucoord_t \<Rightarrow> ucoord_t \<Rightarrow> bool" where
  "hex_is_westwards_of c1 c2 = (uz c1 = uz c2 \<and> uy c1 = uy c2 \<and> ux c1 > ux c2)"

definition hex_is_at_northern_border :: "ucoord_t \<Rightarrow> bool" where
  "hex_is_at_northern_border c = (uy c = 0)"

definition hex_is_at_eastern_border :: "hexagonal_layout \<Rightarrow> ucoord_t \<Rightarrow> bool" where
  "hex_is_at_eastern_border l c = (ucast (ux c) = hex_x l)"

definition hex_is_at_southern_border :: "hexagonal_layout \<Rightarrow> ucoord_t \<Rightarrow> bool" where
  "hex_is_at_southern_border l c = (ucast (uy c) = hex_y l)"

definition hex_is_at_western_border :: "ucoord_t \<Rightarrow> bool" where
  "hex_is_at_western_border c = (ux c = 0)"

definition hex_is_at_any_border :: "hexagonal_layout \<Rightarrow> ucoord_t \<Rightarrow> bool" where
  "hex_is_at_any_border l c =
     (hex_is_at_northern_border c \<or> hex_is_at_eastern_border l c \<or>
      hex_is_at_southern_border l c \<or> hex_is_at_western_border c)"

definition hex_northern_border_of :: "ucoord_t \<Rightarrow> ucoord_t" where
  "hex_northern_border_of c = ucoord3 (ucast (ux c)) 0 (ucast (uz c))"

definition hex_eastern_border_of :: "hexagonal_layout \<Rightarrow> ucoord_t \<Rightarrow> ucoord_t" where
  "hex_eastern_border_of l c = ucoord3 (hex_x l) (ucast (uy c)) (ucast (uz c))"

definition hex_southern_border_of :: "hexagonal_layout \<Rightarrow> ucoord_t \<Rightarrow> ucoord_t" where
  "hex_southern_border_of l c = ucoord3 (ucast (ux c)) (hex_y l) (ucast (uz c))"

definition hex_western_border_of :: "ucoord_t \<Rightarrow> ucoord_t" where
  "hex_western_border_of c = ucoord3 0 (ucast (uy c)) (ucast (uz c))"

definition hex_is_ground_layer :: "ucoord_t \<Rightarrow> bool" where
  "hex_is_ground_layer c = (uz c = 0)"

definition hex_is_crossing_layer :: "ucoord_t \<Rightarrow> bool" where
  "hex_is_crossing_layer c = (uz c > 0)"

section \<open>Shifted Cartesian layouts\<close>

datatype shifted_arrangement =
  odd_row_cartesian | even_row_cartesian | odd_column_cartesian | even_column_cartesian

datatype shifted_orientation = horizontal_shift_cartesian | vertical_shift_cartesian

fun shifted_orientation_of :: "shifted_arrangement \<Rightarrow> shifted_orientation" where
  "shifted_orientation_of odd_row_cartesian = horizontal_shift_cartesian"
| "shifted_orientation_of even_row_cartesian = horizontal_shift_cartesian"
| "shifted_orientation_of odd_column_cartesian = vertical_shift_cartesian"
| "shifted_orientation_of even_column_cartesian = vertical_shift_cartesian"

text \<open>The base class of a shifted Cartesian layout is a hexagonal layout of this arrangement.\<close>

fun hex_of_shifted :: "shifted_arrangement \<Rightarrow> hex_arrangement" where
  "hex_of_shifted odd_row_cartesian = odd_row_hex"
| "hex_of_shifted even_row_cartesian = even_row_hex"
| "hex_of_shifted odd_column_cartesian = odd_column_hex"
| "hex_of_shifted even_column_cartesian = even_column_hex"

section \<open>Lemmas on the conversions\<close>

text \<open>The half-row shift: both directions add or subtract it. The dividend is always even, so the
  truncating division of C++ is exact.\<close>

definition hex_shift :: "hex_arrangement \<Rightarrow> int \<Rightarrow> int" where
  "hex_shift arr k = (k + (if hex_offset arr = 1 then 1 else 0)) div 2"

lemma sdiv_even: "even (k :: int) \<Longrightarrow> k sdiv 2 = k div 2"
proof -
  assume "even k"
  then obtain m where "k = 2 * m" by blast
  then show ?thesis by (simp add: signed_divide_int_def sgn_if abs_mult)
qed

lemma hex_shift_eq: "(k + hex_offset arr * (k AND 1)) sdiv 2 = hex_shift arr k"
proof -
  have m: "k AND 1 = k mod 2" by (simp add: and_one_eq)
  consider "hex_offset arr = 1" | "hex_offset arr = -1"
    by (cases arr) (simp_all add: hex_offset_def)
  then show ?thesis
  proof cases
    case 1
    have "even (k + k mod 2)" and "(k + k mod 2) div 2 = (k + 1) div 2" by presburger+
    with 1 show ?thesis by (simp add: m hex_shift_def sdiv_even)
  next
    case 2
    have "even (k - k mod 2)" and "(k - k mod 2) div 2 = k div 2" by presburger+
    with 2 show ?thesis by (simp add: m hex_shift_def sdiv_even)
  qed
qed

lemma to_cube_simps:
  "cube_x (to_cube_coordinate arr c) =
     (case hex_orientation_of arr of pointy_top_hex \<Rightarrow> uint (ux c) - hex_shift arr (uint (uy c))
      | flat_top_hex \<Rightarrow> uint (ux c))"
  "cube_z (to_cube_coordinate arr c) =
     (case hex_orientation_of arr of pointy_top_hex \<Rightarrow> uint (uy c)
      | flat_top_hex \<Rightarrow> uint (uy c) - hex_shift arr (uint (ux c)))"
  "cube_y (to_cube_coordinate arr c) = - cube_x (to_cube_coordinate arr c) - cube_z (to_cube_coordinate arr c)"
  by (simp_all add: to_cube_coordinate_def Let_def hex_shift_eq cube3_def split: hex_orientation.split)

text \<open>Column and row of a cube coordinate before they are stored in the bit fields.\<close>

definition hex_col :: "hex_arrangement \<Rightarrow> cube_coord_t \<Rightarrow> int" where
  "hex_col arr q = (case hex_orientation_of arr of
     pointy_top_hex \<Rightarrow> cube_x q + hex_shift arr (cube_z q) | flat_top_hex \<Rightarrow> cube_x q)"

definition hex_row :: "hex_arrangement \<Rightarrow> cube_coord_t \<Rightarrow> int" where
  "hex_row arr q = (case hex_orientation_of arr of
     pointy_top_hex \<Rightarrow> cube_z q | flat_top_hex \<Rightarrow> cube_z q + hex_shift arr (cube_x q))"

lemma to_offset_eq:
  "to_offset_coordinate arr q =
     \<lparr>ud = False, uz = 0, uy = word_of_int (hex_row arr q), ux = word_of_int (hex_col arr q)\<rparr>"
  by (simp add: to_offset_coordinate_def hex_shift_eq hex_col_def hex_row_def ucoord2_def
      split: hex_orientation.split)

lemma hex_col_to_cube [simp]: "hex_col arr (to_cube_coordinate arr c) = uint (ux c)"
  by (simp add: hex_col_def to_cube_simps split: hex_orientation.split)

lemma hex_row_to_cube [simp]: "hex_row arr (to_cube_coordinate arr c) = uint (uy c)"
  by (simp add: hex_row_def to_cube_simps split: hex_orientation.split)

lemma to_offset_to_cube:
  "to_offset_coordinate arr (to_cube_coordinate arr c) = c\<lparr>ud := False, uz := 0\<rparr>"
  by (simp add: to_offset_eq)

text \<open>Two cube coordinates of the plane \<open>x + y + z = 0\<close> with the same column and row are equal.\<close>

lemma hex_col_row_inject:
  assumes "hex_col arr p = hex_col arr q" and "hex_row arr p = hex_row arr q"
  shows "cube_x p = cube_x q \<and> cube_z p = cube_z q"
  using assms by (auto simp: hex_col_def hex_row_def split: hex_orientation.splits)

lemma to_cube_to_offset:
  assumes "0 \<le> hex_col arr q" "hex_col arr q < 2 ^ 31" "0 \<le> hex_row arr q" "hex_row arr q < 2 ^ 31"
    and "cube_y q = - cube_x q - cube_z q" and "\<not> cube_d q"
  shows "to_cube_coordinate arr (to_offset_coordinate arr q) = q"
proof -
  let ?c = "to_offset_coordinate arr q"
  have u: "uint (ux ?c) = hex_col arr q" "uint (uy ?c) = hex_row arr q"
    using assms by (simp_all add: to_offset_eq uint_word_of_int)
  have "cube_x (to_cube_coordinate arr ?c) = cube_x q \<and> cube_z (to_cube_coordinate arr ?c) = cube_z q"
    by (rule hex_col_row_inject [of arr]) (simp_all add: u)
  moreover have "\<not> cube_d (to_cube_coordinate arr ?c)"
    by (simp add: to_cube_coordinate_def cube3_def Let_def split: hex_orientation.split)
  ultimately show ?thesis
    using assms(5,6) to_cube_simps(3) [of arr ?c] by (intro cube_coord_t.equality) simp_all
qed

lemma hex_shift_bounds: "0 \<le> k \<Longrightarrow> 0 \<le> hex_shift arr k \<and> 2 * hex_shift arr k \<le> k + 1"
  by (auto simp: hex_shift_def)

lemma to_cube_in_range:
  assumes "uint (ux c) < 2 ^ 30" and "uint (uy c) < 2 ^ 30"
  shows "cube_in_range (to_cube_coordinate arr c)"
proof -
  have nn: "0 \<le> uint (ux c)" "0 \<le> uint (uy c)" by simp_all
  note b = hex_shift_bounds [OF nn(1), of arr] hex_shift_bounds [OF nn(2), of arr]
  show ?thesis
    unfolding cube_in_range_def int32_range_def to_cube_simps(3)
    using assms nn b by (cases "hex_orientation_of arr") (simp_all add: to_cube_simps(1,2))
qed

section \<open>Lemmas on the neighbours\<close>

lemma ucast_le_31: "(ucast (v :: 31 word) :: u64) \<le> ucast w \<longleftrightarrow> v \<le> w"
  by (simp add: word_le_nat_alt unat_ucast_31)

lemma ucast_le_1: "(ucast (v :: 1 word) :: u64) \<le> ucast w \<longleftrightarrow> v \<le> w"
  by (simp add: word_le_nat_alt unat_ucast_1)

lemma hex_bounds_eq [simp]: "hex_is_within_bounds l c = cart_is_within_bounds l c"
  by (simp add: hex_is_within_bounds_def cart_is_within_bounds_def hex_x_def hex_y_def hex_z_def
      ucast_le_31 ucast_le_1)

lemma hex_east_eq [simp]: "hex_east l c = cart_east l c"
  using ucast_le_31 [of "ux c" "ux l"] ucast_le_31 [of "ux l" "ux c"]
  by (simp add: hex_east_def cart_east_def hex_x_def flip: not_le)

lemma hex_south_eq [simp]: "hex_south l c = cart_south l c"
  using ucast_le_31 [of "uy c" "uy l"] ucast_le_31 [of "uy l" "uy c"]
  by (simp add: hex_south_def cart_south_def hex_y_def flip: not_le)

lemma hex_above_eq [simp]: "hex_above l c = cart_above l c"
  using ucast_le_1 [of "uz c" "uz l"] ucast_le_1 [of "uz l" "uz c"]
  by (simp add: hex_above_def cart_above_def hex_z_def flip: not_le)

definition hex_adjacent_cube :: "cube_coord_t \<Rightarrow> cube_coord_t \<Rightarrow> bool" where
  "hex_adjacent_cube p q \<longleftrightarrow>
     (\<exists>dir \<in> set cube_directions. cube_x q = cube_x p + cube_x dir \<and> cube_z q = cube_z p + cube_z dir)"

text \<open>The number of steps between two faces of the hexagonal grid.\<close>

definition cube_distance :: "cube_coord_t \<Rightarrow> cube_coord_t \<Rightarrow> int" where
  "cube_distance p q =
     max \<bar>cube_x p - cube_x q\<bar> (max \<bar>cube_y p - cube_y q\<bar> \<bar>cube_z p - cube_z q\<bar>)"

lemma hex_unit_step:
  fixes a b :: int
  shows "max \<bar>a\<bar> (max \<bar>a + b\<bar> \<bar>b\<bar>) = 1 \<longleftrightarrow>
    (a, b) \<in> {(1, 0), (1, -1), (0, -1), (-1, 0), (-1, 1), (0, 1)}"
proof
  assume "max \<bar>a\<bar> (max \<bar>a + b\<bar> \<bar>b\<bar>) = 1"
  then have "\<bar>a\<bar> \<le> 1" "\<bar>b\<bar> \<le> 1" "\<bar>a + b\<bar> \<le> 1" "a \<noteq> 0 \<or> b \<noteq> 0" by auto
  moreover from this have "a = -1 \<or> a = 0 \<or> a = 1" "b = -1 \<or> b = 0 \<or> b = 1" by linarith+
  ultimately show "(a, b) \<in> {(1, 0), (1, -1), (0, -1), (-1, 0), (-1, 1), (0, 1)}" by auto
qed auto

lemma hex_adjacent_cube_cases:
  "hex_adjacent_cube p q \<longleftrightarrow>
     (cube_x q - cube_x p, cube_z q - cube_z p) \<in> {(1, 0), (1, -1), (0, -1), (-1, 0), (-1, 1), (0, 1)}"
  by (simp add: hex_adjacent_cube_def cube_directions_def cube3_def diff_eq_eq add.commute)

lemma hex_adjacent_cube_sym:
  assumes "hex_adjacent_cube p q"
  shows "hex_adjacent_cube q p"
proof -
  have "(- a, - b) \<in> {(1, 0), (1, -1), (0, -1), (-1, 0), (-1, 1), (0, 1)}"
    if "(a, b) \<in> {(1, 0), (1, -1), (0, -1), (-1, 0), (-1, 1), (0, 1)}" for a b :: int
    using that by auto
  from this [OF assms [unfolded hex_adjacent_cube_cases]] show ?thesis
    by (simp only: hex_adjacent_cube_cases minus_diff_eq)
qed

lemma hex_adjacent_cube_distance:
  assumes "cube_y p = - cube_x p - cube_z p" and "cube_y q = - cube_x q - cube_z q"
  shows "hex_adjacent_cube p q \<longleftrightarrow> cube_distance p q = 1"
proof -
  have "\<bar>cube_y p - cube_y q\<bar> = \<bar>(cube_x q - cube_x p) + (cube_z q - cube_z p)\<bar>"
    using assms by simp
  then have "cube_distance p q = max \<bar>cube_x q - cube_x p\<bar>
      (max \<bar>(cube_x q - cube_x p) + (cube_z q - cube_z p)\<bar> \<bar>cube_z q - cube_z p\<bar>)"
    by (simp only: cube_distance_def abs_minus_commute)
  then show ?thesis by (simp only: hex_unit_step hex_adjacent_cube_cases)
qed

text \<open>A cube coordinate next to a coordinate of the layout has its column and row within one
  step of it, so it can wrap around the bit fields only outside of the layout.\<close>

lemma half_step: "(m :: int) div 2 \<le> (m + 1) div 2 \<and> (m + 1) div 2 \<le> m div 2 + 1"
  by presburger

lemma hex_shift_step: "hex_shift arr k \<le> hex_shift arr (k + 1) \<and> hex_shift arr (k + 1) \<le> hex_shift arr k + 1"
  using half_step [of "k + 1"] half_step [of k] by (simp add: hex_shift_def add.commute)

lemma hex_step_aux:
  fixes a b z :: int
  assumes "(a, b) \<in> {(1, 0), (1, -1), (0, -1), (-1, 0), (-1, 1), (0, 1)}"
  shows "\<bar>a + hex_shift arr (z + b) - hex_shift arr z\<bar> \<le> 1 \<and> \<bar>b\<bar> \<le> 1"
  using assms hex_shift_step [of arr z] hex_shift_step [of arr "z - 1"] by auto

lemma hex_col_row_step:
  assumes "hex_adjacent_cube p q"
  shows "\<bar>hex_col arr q - hex_col arr p\<bar> \<le> 1 \<and> \<bar>hex_row arr q - hex_row arr p\<bar> \<le> 1"
proof -
  define a b where "a = cube_x q - cube_x p" and "b = cube_z q - cube_z p"
  then have q: "cube_x q = cube_x p + a" "cube_z q = cube_z p + b" by simp_all
  have ab: "(a, b) \<in> {(1, 0), (1, -1), (0, -1), (-1, 0), (-1, 1), (0, 1)}"
    using assms by (simp only: hex_adjacent_cube_cases a_def b_def)
  then have ba: "(b, a) \<in> {(1, 0), (1, -1), (0, -1), (-1, 0), (-1, 1), (0, 1)}" by auto
  show ?thesis
    using hex_step_aux [OF ab, of arr "cube_z p"] hex_step_aux [OF ba, of arr "cube_x p"]
    by (cases "hex_orientation_of arr") (simp_all add: hex_col_def hex_row_def q algebra_simps)
qed

lemma word31_in_bounds:
  fixes k :: int and w :: "31 word"
  assumes "-1 \<le> k" and "k \<le> uint w + 1" and "uint w < 2 ^ 31 - 1"
  shows "word_of_int k \<le> w \<longleftrightarrow> 0 \<le> k \<and> k \<le> uint w"
proof (cases "k = -1")
  case True
  have "uint (- 1 :: 31 word) = 2 ^ 31 - 1" by (simp add: unsigned_minus_1_eq_mask mask_eq_exp_minus_1)
  with True assms show ?thesis by (simp add: word_le_def)
next
  case False
  with assms have "0 \<le> k" "k < 2 ^ 31" by simp_all
  then have "uint (word_of_int k :: 31 word) = k" by (simp add: uint_word_of_int)
  with \<open>0 \<le> k\<close> show ?thesis by (simp add: word_le_def)
qed

lemma hex_move_eq:
  "hex_move arr c dir =
     \<lparr>ud = False, uz = uz c,
      uy = word_of_int (hex_row arr (cube_plus (to_cube_coordinate arr c) dir)),
      ux = word_of_int (hex_col arr (cube_plus (to_cube_coordinate arr c) dir))\<rparr>"
  by (simp add: hex_move_def to_offset_eq)

lemma cube_plus_adjacent: "dir \<in> set cube_directions \<Longrightarrow> hex_adjacent_cube p (cube_plus p dir)"
  by (auto simp: hex_adjacent_cube_def cube_plus_def cube3_def)

text \<open>The move in a direction lands in the layout exactly if its column and row are those of
  the layout, and then nothing wrapped.\<close>

lemma hex_move_in_bounds:
  fixes arr :: hex_arrangement
  assumes en: "enumerable l" and c: "in_grid l c" and dir: "dir \<in> set cube_directions"
  defines "q \<equiv> cube_plus (to_cube_coordinate arr c) dir"
  shows "cart_is_within_bounds l (hex_move arr c dir) \<longleftrightarrow>
    0 \<le> hex_col arr q \<and> hex_col arr q \<le> uint (ux l) \<and> 0 \<le> hex_row arr q \<and> hex_row arr q \<le> uint (uy l)"
proof -
  have st: "\<bar>hex_col arr q - uint (ux c)\<bar> \<le> 1" "\<bar>hex_row arr q - uint (uy c)\<bar> \<le> 1"
    using hex_col_row_step [OF cube_plus_adjacent [OF dir], of arr "to_cube_coordinate arr c"]
    by (simp_all add: q_def)
  have b: "uint (ux c) \<le> uint (ux l)" "uint (uy c) \<le> uint (uy l)" "uz c \<le> uz l"
    using c by (simp_all add: in_grid_def word_le_def)
  have m: "uint (ux l) < 2 ^ 31 - 1" "uint (uy l) < 2 ^ 31 - 1"
    using en unfolding enumerable_def uint_nat by (auto simp only: of_nat_less_iff [where 'a = int, symmetric]) simp_all
  have "word_of_int (hex_col arr q) \<le> ux l \<longleftrightarrow> 0 \<le> hex_col arr q \<and> hex_col arr q \<le> uint (ux l)"
  proof (rule word31_in_bounds)
    show "- 1 \<le> hex_col arr q" using st(1) uint_ge_0 [of "ux c"] by linarith
    show "hex_col arr q \<le> uint (ux l) + 1" using st(1) b(1) by linarith
  qed (rule m(1))
  moreover have "word_of_int (hex_row arr q) \<le> uy l \<longleftrightarrow> 0 \<le> hex_row arr q \<and> hex_row arr q \<le> uint (uy l)"
  proof (rule word31_in_bounds)
    show "- 1 \<le> hex_row arr q" using st(2) uint_ge_0 [of "uy c"] by linarith
    show "hex_row arr q \<le> uint (uy l) + 1" using st(2) b(2) by linarith
  qed (rule m(2))
  ultimately show ?thesis
    using b by (simp add: cart_is_within_bounds_def hex_move_eq q_def)
qed

definition hex_cube_adjacent :: "hex_arrangement \<Rightarrow> ucoord_t \<Rightarrow> ucoord_t \<Rightarrow> bool" where
  "hex_cube_adjacent arr a b = (cube_distance (to_cube_coordinate arr a) (to_cube_coordinate arr b) = 1)"

lemma hex_cube_adjacent_iff:
  "hex_cube_adjacent arr a b \<longleftrightarrow> hex_adjacent_cube (to_cube_coordinate arr a) (to_cube_coordinate arr b)"
  unfolding hex_cube_adjacent_def by (rule hex_adjacent_cube_distance [symmetric]) (rule to_cube_simps(3))+

lemma hex_cube_adjacent_sym: "hex_cube_adjacent arr a b \<Longrightarrow> hex_cube_adjacent arr b a"
  by (simp add: hex_cube_adjacent_iff hex_adjacent_cube_sym)

lemma hex_adjacent_vec:
  "hex_adjacent_coordinates vec_insert arr l c =
     filter (hex_is_within_bounds l) (map (hex_move arr c) cube_directions)"
  by (simp add: hex_adjacent_coordinates_def cube_directions_def Let_def vec_insert_def hex_move_def)

lemma hex_adjacent_fold:
  "hex_adjacent_coordinates ins arr l c = fold ins (hex_adjacent_coordinates vec_insert arr l c) []"
  by (simp add: hex_adjacent_coordinates_def cube_directions_def Let_def vec_insert_def)

lemma hex_adjacent_set:
  assumes en: "enumerable l" and c: "in_grid l c"
  shows "set (hex_adjacent_coordinates vec_insert arr l c) =
    {c2. in_grid l c2 \<and> uz c2 = uz c \<and> hex_cube_adjacent arr c c2}"
proof (intro equalityI subsetI)
  fix c2
  assume "c2 \<in> set (hex_adjacent_coordinates vec_insert arr l c)"
  then obtain dir where dir: "dir \<in> set cube_directions" and c2: "c2 = hex_move arr c dir"
    and ib: "cart_is_within_bounds l (hex_move arr c dir)" by (auto simp: hex_adjacent_vec)
  let ?q = "cube_plus (to_cube_coordinate arr c) dir"
  have r: "0 \<le> hex_col arr ?q" "hex_col arr ?q < 2 ^ 31" "0 \<le> hex_row arr ?q" "hex_row arr ?q < 2 ^ 31"
    using ib hex_move_in_bounds [OF en c dir, of arr] uint_lt2p [of "ux l"] uint_lt2p [of "uy l"] by auto
  have "hex_col arr (to_cube_coordinate arr c2) = hex_col arr ?q"
    "hex_row arr (to_cube_coordinate arr c2) = hex_row arr ?q"
    using r by (simp_all add: c2 hex_move_eq uint_word_of_int)
  then have "cube_x (to_cube_coordinate arr c2) = cube_x ?q \<and> cube_z (to_cube_coordinate arr c2) = cube_z ?q"
    by (rule hex_col_row_inject)
  then have "hex_cube_adjacent arr c c2"
    using cube_plus_adjacent [OF dir, of "to_cube_coordinate arr c"]
    by (simp add: hex_cube_adjacent_iff hex_adjacent_cube_def)
  then show "c2 \<in> {c2. in_grid l c2 \<and> uz c2 = uz c \<and> hex_cube_adjacent arr c c2}"
    using ib by (simp add: in_grid_bounds c2) (simp add: hex_move_eq)
next
  fix c2
  assume "c2 \<in> {c2. in_grid l c2 \<and> uz c2 = uz c \<and> hex_cube_adjacent arr c c2}"
  then have g: "in_grid l c2" and z: "uz c2 = uz c"
    and a: "hex_adjacent_cube (to_cube_coordinate arr c) (to_cube_coordinate arr c2)"
    by (simp_all add: hex_cube_adjacent_iff)
  from a obtain dir where dir: "dir \<in> set cube_directions"
    and "cube_x (to_cube_coordinate arr c2) = cube_x (cube_plus (to_cube_coordinate arr c) dir)"
    and "cube_z (to_cube_coordinate arr c2) = cube_z (cube_plus (to_cube_coordinate arr c) dir)"
    by (auto simp: hex_adjacent_cube_def cube_plus_def cube3_def)
  then have "hex_col arr (cube_plus (to_cube_coordinate arr c) dir) = hex_col arr (to_cube_coordinate arr c2)"
    "hex_row arr (cube_plus (to_cube_coordinate arr c) dir) = hex_row arr (to_cube_coordinate arr c2)"
    by (cases "hex_orientation_of arr"; simp add: hex_col_def hex_row_def)+
  then have "hex_move arr c dir = c2"
    using g z by (simp add: hex_move_eq in_grid_def)
  moreover have "hex_is_within_bounds l c2" using g by (simp add: in_grid_bounds)
  ultimately show "c2 \<in> set (hex_adjacent_coordinates vec_insert arr l c)"
    using dir by (auto simp: hex_adjacent_vec)
qed

lemma hex_adjacent_length: "length (hex_adjacent_coordinates vec_insert arr l c) \<le> 6"
  unfolding hex_adjacent_vec by (rule order_trans [OF length_filter_le]) (simp add: cube_directions_def)

section \<open>Properties\<close>

text \<open>C26. The conversion to cube coordinates is undone by the conversion back, up to the layer, which
  cube coordinates do not hold; for all four arrangements and every coordinate.\<close>

theorem hex_offset_roundtrip:
  "to_offset_coordinate arr (to_cube_coordinate arr c) = c\<lparr>ud := False, uz := 0\<rparr>"
  by (rule to_offset_to_cube)

text \<open>No conversion of a coordinate with column and row below \<open>2 ^ 30\<close> leaves the range of the
  \<open>int32_t\<close> fields of the cube coordinate.\<close>

theorem hex_cube_no_overflow:
  assumes "uint (ux c) < 2 ^ 30" and "uint (uy c) < 2 ^ 30"
  shows "cube_in_range (to_cube_coordinate arr c)"
  by (rule to_cube_in_range [OF assms])

lemma hex_cube_no_overflow_witness:
  "cube_in_range (to_cube_coordinate even_column_hex (ucoord3 1073741823 0 0))"
  by (rule hex_cube_no_overflow) (simp_all add: ucoord3_def)

text \<open>C20. The adjacent coordinates of a tile of a hexagonal layout are exactly the tiles of the layout
  on the same layer at cube distance one, and at most six.\<close>

theorem hexagonal_adjacency:
  assumes "enumerable l" and "in_grid l c"
  shows "set (hex_adjacent_coordinates vec_insert arr l c) =
      {d. in_grid l d \<and> uz d = uz c \<and> cube_distance (to_cube_coordinate arr c) (to_cube_coordinate arr d) = 1} \<and>
    length (hex_adjacent_coordinates vec_insert arr l c) \<le> 6"
  using hex_adjacent_set [OF assms, of arr] hex_adjacent_length by (simp add: hex_cube_adjacent_def)

lemma hexagonal_adjacency_witness:
  "set (hex_adjacent_coordinates vec_insert odd_row_hex (ucoord3 4 3 0) (ucoord3 4 1 0)) =
      {d. in_grid (ucoord3 4 3 0) d \<and> uz d = uz (ucoord3 4 1 0) \<and>
          cube_distance (to_cube_coordinate odd_row_hex (ucoord3 4 1 0)) (to_cube_coordinate odd_row_hex d) = 1} \<and>
    length (hex_adjacent_coordinates vec_insert odd_row_hex (ucoord3 4 3 0) (ucoord3 4 1 0)) \<le> 6"
  by (rule hexagonal_adjacency) (simp_all add: enumerable_def in_grid_def ucoord3_def)

end
