(* ===== verification/Coordinate_Layout.thy ===== *)
theory Coordinate_Layout
  imports Hexagonal_Layout
begin

text \<open>
  The interface that the clocked, tile-based, gate-level and cell-level layouts rely on. Those
  classes are templates over a coordinate layout and inherit from it; here the template argument
  is the datatype \<open>topology\<close>, and the record \<open>coordinate_layout\<close> holds it with the dimension. The
  layers above extend the record the way the classes extend their base class.

  The members of \<open>layouts/tile_based_layout.hpp\<close> only rename those of the coordinate layout
  (\<open>tiles\<close>, \<open>ground_tiles\<close>, \<open>adjacent_tiles\<close>, \<open>adjacent_opposite_tiles\<close>); they are the operations of
  this theory. A \<open>foreach\<close> member is the list of the elements that it hands to its functor, in order.

  The locale \<open>adjacency\<close> states what the layers above need to know of the adjacent coordinates;
  it is interpreted on the adjacency of every topology. Its lemmas are the counting facts on a
  directed neighbourhood relation that the clocked layouts use.
\<close>

datatype topology = Cartesian | Shifted_Cartesian shifted_arrangement | Hexagonal hex_arrangement

record coordinate_layout =
  lyt_topology :: topology
  lyt_dimension :: ucoord_t

section \<open>Operations of the base class\<close>

text \<open>The arrangement of the hexagonal base class, if there is one.\<close>

fun hex_base :: "topology \<Rightarrow> hex_arrangement option" where
  "hex_base Cartesian = None"
| "hex_base (Shifted_Cartesian s) = Some (hex_of_shifted s)"
| "hex_base (Hexagonal h) = Some h"

definition max_fanin_size :: "topology \<Rightarrow> u32" where
  "max_fanin_size t = (case hex_base t of None \<Rightarrow> 3 | Some _ \<Rightarrow> 5)"

definition lyt_resize :: "ucoord_t \<Rightarrow> 'a coordinate_layout_scheme \<Rightarrow> 'a coordinate_layout_scheme" where
  "lyt_resize ar l =
     l\<lparr>lyt_dimension :=
       (case hex_base (lyt_topology l) of
          None \<Rightarrow> cart_resize ar (lyt_dimension l) | Some _ \<Rightarrow> hex_resize ar (lyt_dimension l))\<rparr>"

definition lyt_area :: "'a coordinate_layout_scheme \<Rightarrow> u64" where
  "lyt_area l = (case hex_base (lyt_topology l) of
     None \<Rightarrow> cart_area (lyt_dimension l) | Some _ \<Rightarrow> hex_area (lyt_dimension l))"

definition lyt_coordinates :: "'a coordinate_layout_scheme \<Rightarrow> ucoord_t \<Rightarrow> ucoord_t \<Rightarrow> ucoord_t list option" where
  "lyt_coordinates l start stop = (case hex_base (lyt_topology l) of
     None \<Rightarrow> cart_coordinates (lyt_dimension l) start stop
   | Some _ \<Rightarrow> hex_coordinates (lyt_dimension l) start stop)"

definition lyt_ground_coordinates ::
    "'a coordinate_layout_scheme \<Rightarrow> ucoord_t \<Rightarrow> ucoord_t \<Rightarrow> ucoord_t list option" where
  "lyt_ground_coordinates l start stop = (case hex_base (lyt_topology l) of
     None \<Rightarrow> cart_ground_coordinates (lyt_dimension l) start stop
   | Some _ \<Rightarrow> hex_ground_coordinates (lyt_dimension l) start stop)"

definition lyt_adjacent_coordinates ::
    "(ucoord_t \<Rightarrow> ucoord_t list \<Rightarrow> ucoord_t list) \<Rightarrow> 'a coordinate_layout_scheme \<Rightarrow> ucoord_t \<Rightarrow> ucoord_t list" where
  "lyt_adjacent_coordinates ins l c = (case hex_base (lyt_topology l) of
     None \<Rightarrow> cart_adjacent_coordinates ins (lyt_dimension l) c
   | Some arr \<Rightarrow> hex_adjacent_coordinates ins arr (lyt_dimension l) c)"

definition lyt_adjacent_opposite_coordinates ::
    "(ucoord_t \<times> ucoord_t \<Rightarrow> (ucoord_t \<times> ucoord_t) list \<Rightarrow> (ucoord_t \<times> ucoord_t) list) \<Rightarrow>
     'a coordinate_layout_scheme \<Rightarrow> ucoord_t \<Rightarrow> (ucoord_t \<times> ucoord_t) list" where
  "lyt_adjacent_opposite_coordinates ins l c = (case hex_base (lyt_topology l) of
     None \<Rightarrow> cart_adjacent_opposite_coordinates ins (lyt_dimension l) c
   | Some arr \<Rightarrow> hex_adjacent_opposite_coordinates ins arr (lyt_dimension l) c)"

definition lyt_north :: "'a coordinate_layout_scheme \<Rightarrow> ucoord_t \<Rightarrow> ucoord_t" where
  "lyt_north l c = (case hex_base (lyt_topology l) of
     None \<Rightarrow> cart_north c | Some arr \<Rightarrow> hex_north c)"

definition lyt_north_east :: "'a coordinate_layout_scheme \<Rightarrow> ucoord_t \<Rightarrow> ucoord_t" where
  "lyt_north_east l c = (case hex_base (lyt_topology l) of
     None \<Rightarrow> cart_north_east (lyt_dimension l) c | Some arr \<Rightarrow> hex_north_east arr (lyt_dimension l) c)"

definition lyt_east :: "'a coordinate_layout_scheme \<Rightarrow> ucoord_t \<Rightarrow> ucoord_t" where
  "lyt_east l c = (case hex_base (lyt_topology l) of
     None \<Rightarrow> cart_east (lyt_dimension l) c | Some arr \<Rightarrow> hex_east (lyt_dimension l) c)"

definition lyt_south_east :: "'a coordinate_layout_scheme \<Rightarrow> ucoord_t \<Rightarrow> ucoord_t" where
  "lyt_south_east l c = (case hex_base (lyt_topology l) of
     None \<Rightarrow> cart_south_east (lyt_dimension l) c | Some arr \<Rightarrow> hex_south_east arr (lyt_dimension l) c)"

definition lyt_south :: "'a coordinate_layout_scheme \<Rightarrow> ucoord_t \<Rightarrow> ucoord_t" where
  "lyt_south l c = (case hex_base (lyt_topology l) of
     None \<Rightarrow> cart_south (lyt_dimension l) c | Some arr \<Rightarrow> hex_south (lyt_dimension l) c)"

definition lyt_south_west :: "'a coordinate_layout_scheme \<Rightarrow> ucoord_t \<Rightarrow> ucoord_t" where
  "lyt_south_west l c = (case hex_base (lyt_topology l) of
     None \<Rightarrow> cart_south_west (lyt_dimension l) c | Some arr \<Rightarrow> hex_south_west arr (lyt_dimension l) c)"

definition lyt_west :: "'a coordinate_layout_scheme \<Rightarrow> ucoord_t \<Rightarrow> ucoord_t" where
  "lyt_west l c = (case hex_base (lyt_topology l) of
     None \<Rightarrow> cart_west c | Some arr \<Rightarrow> hex_west c)"

definition lyt_north_west :: "'a coordinate_layout_scheme \<Rightarrow> ucoord_t \<Rightarrow> ucoord_t" where
  "lyt_north_west l c = (case hex_base (lyt_topology l) of
     None \<Rightarrow> cart_north_west c | Some arr \<Rightarrow> hex_north_west arr (lyt_dimension l) c)"

definition lyt_above :: "'a coordinate_layout_scheme \<Rightarrow> ucoord_t \<Rightarrow> ucoord_t" where
  "lyt_above l c = (case hex_base (lyt_topology l) of
     None \<Rightarrow> cart_above (lyt_dimension l) c | Some _ \<Rightarrow> hex_above (lyt_dimension l) c)"

definition lyt_below :: "'a coordinate_layout_scheme \<Rightarrow> ucoord_t \<Rightarrow> ucoord_t" where
  "lyt_below l c = (case hex_base (lyt_topology l) of None \<Rightarrow> cart_below c | Some _ \<Rightarrow> hex_below c)"

definition lyt_is_at_any_border :: "'a coordinate_layout_scheme \<Rightarrow> ucoord_t \<Rightarrow> bool" where
  "lyt_is_at_any_border l c = (case hex_base (lyt_topology l) of
     None \<Rightarrow> cart_is_at_any_border (lyt_dimension l) c
   | Some _ \<Rightarrow> hex_is_at_any_border (lyt_dimension l) c)"

definition lyt_is_ground_layer :: "'a coordinate_layout_scheme \<Rightarrow> ucoord_t \<Rightarrow> bool" where
  "lyt_is_ground_layer l c = (case hex_base (lyt_topology l) of
     None \<Rightarrow> cart_is_ground_layer c | Some _ \<Rightarrow> hex_is_ground_layer c)"

definition lyt_is_crossing_layer :: "'a coordinate_layout_scheme \<Rightarrow> ucoord_t \<Rightarrow> bool" where
  "lyt_is_crossing_layer l c = (case hex_base (lyt_topology l) of
     None \<Rightarrow> cart_is_crossing_layer c | Some _ \<Rightarrow> hex_is_crossing_layer c)"

definition lyt_is_within_bounds :: "'a coordinate_layout_scheme \<Rightarrow> ucoord_t \<Rightarrow> bool" where
  "lyt_is_within_bounds l c = (case hex_base (lyt_topology l) of
     None \<Rightarrow> cart_is_within_bounds (lyt_dimension l) c
   | Some _ \<Rightarrow> hex_is_within_bounds (lyt_dimension l) c)"

text \<open>The comparator of \<open>std::set<std::pair<coordinate, coordinate>>\<close>: the lexicographic order of
  \<open>std::pair\<close>.\<close>

definition pair_less :: "ucoord_t \<times> ucoord_t \<Rightarrow> ucoord_t \<times> ucoord_t \<Rightarrow> bool" where
  "pair_less p q = (ucoord_less (fst p) (fst q) \<or>
     (\<not> ucoord_less (fst q) (fst p) \<and> ucoord_less (snd p) (snd q)))"

text \<open>What \<open>foreach_adjacent_tile\<close> and \<open>foreach_adjacent_opposite_tiles\<close> walk: both build the
  \<open>std::set\<close> first.\<close>

definition lyt_adjacent_tiles :: "'a coordinate_layout_scheme \<Rightarrow> ucoord_t \<Rightarrow> ucoord_t list" where
  "lyt_adjacent_tiles l c = lyt_adjacent_coordinates (set_insert ucoord_less) l c"

definition lyt_adjacent_opposite_tiles :: "'a coordinate_layout_scheme \<Rightarrow> ucoord_t \<Rightarrow> (ucoord_t \<times> ucoord_t) list" where
  "lyt_adjacent_opposite_tiles l c = lyt_adjacent_opposite_coordinates (set_insert pair_less) l c"

section \<open>The contract of adjacency\<close>

locale adjacency =
  fixes ok :: "'l \<Rightarrow> bool"
    and inside :: "'l \<Rightarrow> ucoord_t \<Rightarrow> bool"
    and adj :: "'l \<Rightarrow> ucoord_t \<Rightarrow> ucoord_t list"
  assumes adj_inside: "ok l \<Longrightarrow> inside l c \<Longrightarrow> d \<in> set (adj l c) \<Longrightarrow> inside l d"
    and adj_sym: "ok l \<Longrightarrow> inside l c \<Longrightarrow> d \<in> set (adj l c) \<Longrightarrow> c \<in> set (adj l d)"
    and adj_irrefl: "ok l \<Longrightarrow> inside l c \<Longrightarrow> c \<notin> set (adj l c)"
    and adj_sorted: "sorted_wrt ucoord_less (adj l c)"
    and finite_inside: "finite {c. inside l c}"
begin

lemma adj_distinct: "distinct (adj l c)"
  by (rule ucoord_order.sorted_distinct [OF adj_sorted])

text \<open>A neighbourhood relation read from both ends: \<open>d\<close> is a selected neighbour of \<open>c\<close> under a
  relation exactly if \<open>c\<close> is one of \<open>d\<close> under its converse.\<close>

lemma dual_neighbour:
  assumes "ok l" and "inside l c" and "inside l d"
  shows "d \<in> set (filter (\<lambda>x. R x c) (adj l c)) \<longleftrightarrow> c \<in> set (filter (\<lambda>x. R d x) (adj l d))"
  using adj_sym [of l c d] adj_sym [of l d c] assms by auto

lemma handshake:
  assumes "ok l"
  shows "(\<Sum>c | inside l c. length (filter (\<lambda>x. R x c) (adj l c))) =
         (\<Sum>c | inside l c. length (filter (\<lambda>x. R c x) (adj l c)))"
proof -
  let ?I = "{c. inside l c}"
  have len: "length (filter P (adj l c)) = (\<Sum>d\<in>?I. if d \<in> set (adj l c) \<and> P d then 1 else 0)"
    if "inside l c" for P c
  proof -
    have "length (filter P (adj l c)) = card {d \<in> set (adj l c). P d}"
      using adj_distinct [of l c] by (metis distinct_card distinct_filter set_filter)
    also have "{d \<in> set (adj l c). P d} = {d \<in> ?I. d \<in> set (adj l c) \<and> P d}"
      using adj_inside [OF assms that] by auto
    finally show ?thesis by (simp add: finite_inside sum.If_cases Int_def)
  qed
  have "(\<Sum>c\<in>?I. length (filter (\<lambda>x. R x c) (adj l c))) =
        (\<Sum>c\<in>?I. \<Sum>d\<in>?I. if d \<in> set (adj l c) \<and> R d c then 1 else 0)"
    by (rule sum.cong) (simp_all add: len)
  also have "\<dots> = (\<Sum>d\<in>?I. \<Sum>c\<in>?I. if d \<in> set (adj l c) \<and> R d c then 1 else 0)"
    by (rule sum.swap)
  also have "\<dots> = (\<Sum>d\<in>?I. \<Sum>c\<in>?I. if c \<in> set (adj l d) \<and> R d c then 1 else 0)"
    using adj_sym [OF assms] by (intro sum.cong refl if_cong conj_cong) auto
  also have "\<dots> = (\<Sum>d\<in>?I. length (filter (\<lambda>x. R d x) (adj l d)))"
    by (rule sum.cong) (simp_all add: len)
  finally show ?thesis .
qed

end

section \<open>Every topology keeps the contract\<close>

definition lyt_enumerable :: "'a coordinate_layout_scheme \<Rightarrow> bool" where
  "lyt_enumerable l = enumerable (lyt_dimension l)"

definition lyt_in_grid :: "'a coordinate_layout_scheme \<Rightarrow> ucoord_t \<Rightarrow> bool" where
  "lyt_in_grid l c = in_grid (lyt_dimension l) c"

definition lyt_neighbour :: "'a coordinate_layout_scheme \<Rightarrow> ucoord_t \<Rightarrow> ucoord_t \<Rightarrow> bool" where
  "lyt_neighbour l c d = (uz d = uz c \<and> (case hex_base (lyt_topology l) of
     None \<Rightarrow> manhattan c d = 1 | Some arr \<Rightarrow> hex_cube_adjacent arr c d))"

lemma lyt_neighbour_sym: "lyt_neighbour l c d \<Longrightarrow> lyt_neighbour l d c"
  by (auto simp: lyt_neighbour_def manhattan_sym hex_cube_adjacent_sym split: option.splits)

lemma lyt_neighbour_irrefl: "\<not> lyt_neighbour l c c"
  by (simp add: lyt_neighbour_def manhattan_def hex_cube_adjacent_iff hex_adjacent_cube_cases split: option.split)

lemma lyt_adjacent_vec:
  assumes "lyt_enumerable l" and "lyt_in_grid l c"
  shows "set (lyt_adjacent_coordinates vec_insert l c) = {d. lyt_in_grid l d \<and> lyt_neighbour l c d}"
  using assms
  by (auto simp: lyt_adjacent_coordinates_def lyt_neighbour_def lyt_enumerable_def lyt_in_grid_def
      cart_adjacent_set cart_is_adjacent_of_iff hex_adjacent_set split: option.split)

lemma lyt_adjacent_fold:
  "lyt_adjacent_coordinates ins l c = fold ins (lyt_adjacent_coordinates vec_insert l c) []"
  using cart_adjacent_fold [of ins] hex_adjacent_fold [of ins]
  by (simp add: lyt_adjacent_coordinates_def split: option.split)

lemma lyt_adjacent_tiles_sorted: "sorted_wrt ucoord_less (lyt_adjacent_tiles l c)"
  unfolding lyt_adjacent_tiles_def lyt_adjacent_fold [of "set_insert ucoord_less"]
  by (rule ucoord_order.sorted_fold_set_insert) simp

lemma lyt_adjacent_tiles_set:
  assumes "lyt_enumerable l" and "lyt_in_grid l c"
  shows "set (lyt_adjacent_tiles l c) = {d. lyt_in_grid l d \<and> lyt_neighbour l c d}"
proof -
  have "set (fold (set_insert ucoord_less) (lyt_adjacent_coordinates vec_insert l c) []) =
      set (lyt_adjacent_coordinates vec_insert l c) \<union> set []"
    by (rule ucoord_order.fold_set_insert_mem)
      (auto simp: lyt_adjacent_vec [OF assms] lyt_in_grid_def in_grid_def dest: ucoord_less_total [rotated])
  then show ?thesis
    unfolding lyt_adjacent_tiles_def lyt_adjacent_fold [of "set_insert ucoord_less"]
    by (simp add: lyt_adjacent_vec [OF assms])
qed

lemma lyt_adjacent_tiles_length: "length (lyt_adjacent_tiles l c) \<le> unat (max_fanin_size (lyt_topology l)) + 1"
proof -
  have "length (lyt_adjacent_tiles l c) \<le> length (lyt_adjacent_coordinates vec_insert l c)"
    unfolding lyt_adjacent_tiles_def lyt_adjacent_fold [of "set_insert ucoord_less"]
    using length_fold_set_insert [of ucoord_less _ "[]"] by simp
  also have "\<dots> \<le> unat (max_fanin_size (lyt_topology l)) + 1"
    using cart_adjacent_length [of "lyt_dimension l" c] hex_adjacent_length [of _ "lyt_dimension l" c]
    by (simp add: lyt_adjacent_coordinates_def max_fanin_size_def split: option.split)
  finally show ?thesis .
qed

lemma finite_lyt_in_grid: "finite {c. lyt_in_grid l c}"
proof -
  have "finite (UNIV :: ucoord_t set)"
  proof (rule finite_surj)
    show "finite (UNIV :: u64 set)" by simp
    show "UNIV \<subseteq> range ucoord_of_u64" by (metis surj_def ucoord_of_u64_of_ucoord subset_UNIV top.extremum_uniqueI)
  qed
  then show ?thesis by (rule finite_subset [rotated]) simp
qed

interpretation lyt: adjacency lyt_enumerable lyt_in_grid lyt_adjacent_tiles
proof
  fix l :: "'a coordinate_layout_scheme" and c d
  assume l: "lyt_enumerable l" and c: "lyt_in_grid l c"
  show "c \<notin> set (lyt_adjacent_tiles l c)"
    by (simp add: lyt_adjacent_tiles_set [OF l c] lyt_neighbour_irrefl)
  assume d: "d \<in> set (lyt_adjacent_tiles l c)"
  then show d': "lyt_in_grid l d"
    by (simp add: lyt_adjacent_tiles_set [OF l c])
  show "c \<in> set (lyt_adjacent_tiles l d)"
    using d c lyt_neighbour_sym by (auto simp: lyt_adjacent_tiles_set [OF l c] lyt_adjacent_tiles_set [OF l d'])
qed (simp_all add: lyt_adjacent_tiles_sorted finite_lyt_in_grid)

section \<open>Iteration over a layout\<close>

lemma lyt_coordinates_all:
  assumes "lyt_enumerable l" and "ud start" and "ud stop"
  shows "\<exists>cs. lyt_coordinates l start stop = Some cs \<and> sorted_wrt ucoord_less cs \<and>
    set cs = {c. lyt_in_grid l c}"
proof (intro exI conjI)
  have en: "enumerable (lyt_dimension l)" using assms(1) by (simp add: lyt_enumerable_def)
  show "lyt_coordinates l start stop =
      Some (map (grid_nth (lyt_dimension l)) [0..<grid_size (lyt_dimension l)])"
    using assms coord_range_all [OF en]
    by (simp add: lyt_coordinates_def cart_coordinates_def hex_coordinates_def is_dead_def split: option.split)
  show "sorted_wrt ucoord_less (map (grid_nth (lyt_dimension l)) [0..<grid_size (lyt_dimension l)])"
    by (rule sorted_grid [OF en]) simp
  show "set (map (grid_nth (lyt_dimension l)) [0..<grid_size (lyt_dimension l)]) = {c. lyt_in_grid l c}"
    using set_grid [OF en] by (simp add: lyt_in_grid_def)
qed

section \<open>Properties\<close>

text \<open>C21. On every topology, iterating over all coordinates of a layout ends and visits each
  coordinate of the layout once, in ascending order.\<close>

theorem iteration_complete:
  assumes "lyt_enumerable l" and "ud start" and "ud stop"
  shows "\<exists>cs. lyt_coordinates l start stop = Some cs \<and> sorted_wrt ucoord_less cs \<and> distinct cs \<and>
    set cs = {c. lyt_in_grid l c}"
  using lyt_coordinates_all [OF assms] ucoord_order.sorted_distinct by blast

lemma iteration_complete_witness:
  "\<exists>cs. lyt_coordinates \<lparr>lyt_topology = Hexagonal even_row_hex, lyt_dimension = ucoord3 9 7 1\<rparr>
      ucoord_default ucoord_default = Some cs \<and> sorted_wrt ucoord_less cs \<and> distinct cs \<and>
    set cs = {c. lyt_in_grid \<lparr>lyt_topology = Hexagonal even_row_hex, lyt_dimension = ucoord3 9 7 1\<rparr> c}"
  by (rule iteration_complete) (simp_all add: lyt_enumerable_def enumerable_def ucoord3_def ucoord_default_def)

text \<open>C23. On every topology, adjacency of tiles is symmetric and irreflexive and does not leave the
  layout.\<close>

theorem adjacency_symmetric:
  assumes "lyt_enumerable l" and "lyt_in_grid l c" and "d \<in> set (lyt_adjacent_tiles l c)"
  shows "lyt_in_grid l d \<and> c \<in> set (lyt_adjacent_tiles l d) \<and> c \<noteq> d"
  using lyt.adj_inside [OF assms] lyt.adj_sym [OF assms] lyt.adj_irrefl [OF assms(1,2)] assms(3) by blast

lemma adjacency_symmetric_witness:
  "lyt_in_grid \<lparr>lyt_topology = Cartesian, lyt_dimension = ucoord3 3 3 0\<rparr> (ucoord3 2 1 0) \<and>
   ucoord3 1 1 0 \<in> set (lyt_adjacent_tiles \<lparr>lyt_topology = Cartesian, lyt_dimension = ucoord3 3 3 0\<rparr> (ucoord3 2 1 0)) \<and>
   ucoord3 1 1 0 \<noteq> ucoord3 2 1 0"
proof (rule adjacency_symmetric)
  show en: "lyt_enumerable \<lparr>lyt_topology = Cartesian, lyt_dimension = ucoord3 3 3 0\<rparr>"
    by (simp add: lyt_enumerable_def enumerable_def ucoord3_def)
  show c: "lyt_in_grid \<lparr>lyt_topology = Cartesian, lyt_dimension = ucoord3 3 3 0\<rparr> (ucoord3 1 1 0)"
    by (simp add: lyt_in_grid_def in_grid_def ucoord3_def)
  show "ucoord3 2 1 0 \<in> set (lyt_adjacent_tiles \<lparr>lyt_topology = Cartesian, lyt_dimension = ucoord3 3 3 0\<rparr> (ucoord3 1 1 0))"
    unfolding lyt_adjacent_tiles_set [OF en c]
    by (simp add: lyt_in_grid_def in_grid_def lyt_neighbour_def manhattan_def ucoord3_def)
qed

end
