(* ===== verification/Clocking_Scheme.thy ===== *)
theory Clocking_Scheme
  imports Coordinate_Layout
begin

text \<open>
  Model of \<open>layouts/clocking_scheme.hpp\<close>: the class \<open>clocking_scheme\<close> as a record, its members, the
  pre-defined schemes with their cutouts, \<open>is_linear_scheme\<close> and the lookup by name. The template
  argument \<open>Lyt\<close> enters as its topology, which decides \<open>max_fanin_size\<close> and the hexagonal
  arrangement.

  The lemmas show that every scheme of the lookup is well formed (at least three clocks, and every
  clock number below their count), that overriding keeps a scheme well formed, and that the clock
  numbers of the linear schemes are a position on a line, counted modulo the number of clocks.
\<close>

section \<open>The class\<close>

record clocking_scheme =
  cs_name :: string
  cs_max_in_degree :: u8
  cs_max_out_degree :: u8
  cs_num_clocks :: u8
  cs_regular :: bool
  cs_fn :: "ucoord_t \<Rightarrow> u8"
  cs_override :: "ucoord_t \<rightharpoonup> u8"

definition make_scheme :: "string \<Rightarrow> (ucoord_t \<Rightarrow> u8) \<Rightarrow> u32 \<Rightarrow> u32 \<Rightarrow> u8 \<Rightarrow> bool \<Rightarrow> clocking_scheme" where
  "make_scheme n f in_deg out_deg cn r =
     \<lparr>cs_name = n, cs_max_in_degree = ucast in_deg, cs_max_out_degree = ucast out_deg,
      cs_num_clocks = cn, cs_regular = r, cs_fn = f, cs_override = Map.empty\<rparr>"

definition scheme_clock :: "clocking_scheme \<Rightarrow> ucoord_t \<Rightarrow> u8" where
  "scheme_clock s cz =
     (if cs_regular s then cs_fn s cz
      else case cs_override s cz of Some n \<Rightarrow> n | None \<Rightarrow> cs_fn s cz)"

definition scheme_eq_name :: "clocking_scheme \<Rightarrow> string \<Rightarrow> bool" where
  "scheme_eq_name s n = (cs_name s = n)"

definition is_regular :: "clocking_scheme \<Rightarrow> bool" where
  "is_regular s = cs_regular s"

definition override_clock_number :: "ucoord_t \<Rightarrow> u8 \<Rightarrow> clocking_scheme \<Rightarrow> clocking_scheme" where
  "override_clock_number cz cn s =
     s\<lparr>cs_regular := False, cs_override := (cs_override s)(cz \<mapsto> cn mod cs_num_clocks s)\<rparr>"

section \<open>Pre-defined schemes\<close>

datatype num_clks = THREE | FOUR

text \<open>Access to a cutout: row by the first index, column by the second, each modulo its bound.\<close>

definition cutout_at :: "u8 list list \<Rightarrow> nat \<Rightarrow> nat \<Rightarrow> nat \<Rightarrow> nat \<Rightarrow> u8" where
  "cutout_at cutout h w i j = cutout ! (i mod h) ! (j mod w)"

definition cutout_yx :: "u8 list list \<Rightarrow> nat \<Rightarrow> nat \<Rightarrow> ucoord_t \<Rightarrow> u8" where
  "cutout_yx cutout h w cz = cutout_at cutout h w (unat (uy cz)) (unat (ux cz))"

definition cutout_xy :: "u8 list list \<Rightarrow> nat \<Rightarrow> nat \<Rightarrow> ucoord_t \<Rightarrow> u8" where
  "cutout_xy cutout h w cz = cutout_at cutout h w (unat (ux cz)) (unat (uy cz))"

definition open_clocking :: "topology \<Rightarrow> num_clks \<Rightarrow> clocking_scheme" where
  "open_clocking t n =
     (let open_clock_function = (\<lambda>cz. 0) in
      case n of
        THREE \<Rightarrow> make_scheme ''OPEN'' open_clock_function (max_fanin_size t) (max_fanin_size t) 3 False
      | FOUR \<Rightarrow> make_scheme ''OPEN'' open_clock_function (max_fanin_size t) (max_fanin_size t) 4 False)"

definition columnar_3_cutout :: "u8 list list" where
  "columnar_3_cutout = [[0, 1, 2], [0, 1, 2], [0, 1, 2]]"

definition columnar_4_cutout :: "u8 list list" where
  "columnar_4_cutout = [[0, 1, 2, 3], [0, 1, 2, 3], [0, 1, 2, 3], [0, 1, 2, 3]]"

definition columnar_clocking :: "topology \<Rightarrow> num_clks \<Rightarrow> clocking_scheme" where
  "columnar_clocking t n = (case n of
     THREE \<Rightarrow> make_scheme ''COLUMNAR'' (cutout_yx columnar_3_cutout 3 3) (min (max_fanin_size t) 3) 2 3 True
   | FOUR \<Rightarrow> make_scheme ''COLUMNAR'' (cutout_yx columnar_4_cutout 4 4) (min (max_fanin_size t) 3) 2 4 True)"

definition row_3_cutout :: "u8 list list" where
  "row_3_cutout = [[0, 0, 0], [1, 1, 1], [2, 2, 2]]"

definition row_4_cutout :: "u8 list list" where
  "row_4_cutout = [[0, 0, 0, 0], [1, 1, 1, 1], [2, 2, 2, 2], [3, 3, 3, 3]]"

definition row_clocking :: "topology \<Rightarrow> num_clks \<Rightarrow> clocking_scheme" where
  "row_clocking t n = (case n of
     THREE \<Rightarrow> make_scheme ''ROW'' (cutout_yx row_3_cutout 3 3) (min (max_fanin_size t) 3) 2 3 True
   | FOUR \<Rightarrow> make_scheme ''ROW'' (cutout_yx row_4_cutout 4 4) (min (max_fanin_size t) 3) 2 4 True)"

definition twoddwave_3_cutout :: "u8 list list" where
  "twoddwave_3_cutout = [[0, 1, 2], [1, 2, 0], [2, 0, 1]]"

definition twoddwave_4_cutout :: "u8 list list" where
  "twoddwave_4_cutout = [[0, 1, 2, 3], [1, 2, 3, 0], [2, 3, 0, 1], [3, 0, 1, 2]]"

definition twoddwave_clocking :: "topology \<Rightarrow> num_clks \<Rightarrow> clocking_scheme" where
  "twoddwave_clocking t n = (case n of
     THREE \<Rightarrow> make_scheme ''2DDWAVE'' (cutout_yx twoddwave_3_cutout 3 3) (min (max_fanin_size t) 2) 2 3 True
   | FOUR \<Rightarrow> make_scheme ''2DDWAVE'' (cutout_yx twoddwave_4_cutout 4 4) (min (max_fanin_size t) 2) 2 4 True)"

definition odd_3_cutout :: "u8 list list" where
  "odd_3_cutout = [[0, 1, 2], [1, 2, 0], [1, 2, 0], [2, 0, 1], [2, 0, 1], [0, 1, 2]]"

definition even_3_cutout :: "u8 list list" where
  "even_3_cutout = [[0, 1, 2], [0, 1, 2], [1, 2, 0], [1, 2, 0], [2, 0, 1], [2, 0, 1]]"

definition odd_4_cutout :: "u8 list list" where
  "odd_4_cutout = [[0, 1, 2, 3], [1, 2, 3, 0], [1, 2, 3, 0], [2, 3, 0, 1],
                   [2, 3, 0, 1], [3, 0, 1, 2], [3, 0, 1, 2], [0, 1, 2, 3]]"

definition even_4_cutout :: "u8 list list" where
  "even_4_cutout = [[0, 1, 2, 3], [0, 1, 2, 3], [1, 2, 3, 0], [1, 2, 3, 0],
                    [2, 3, 0, 1], [2, 3, 0, 1], [3, 0, 1, 2], [3, 0, 1, 2]]"

definition twoddwave_hex_function :: "hex_arrangement \<Rightarrow> num_clks \<Rightarrow> ucoord_t \<Rightarrow> u8" where
  "twoddwave_hex_function arr n = (case (arr, n) of
     (odd_row_hex, THREE) \<Rightarrow> cutout_yx odd_3_cutout 6 3
   | (odd_row_hex, FOUR) \<Rightarrow> cutout_yx odd_4_cutout 8 4
   | (even_row_hex, THREE) \<Rightarrow> cutout_yx even_3_cutout 6 3
   | (even_row_hex, FOUR) \<Rightarrow> cutout_yx even_4_cutout 8 4
   | (odd_column_hex, THREE) \<Rightarrow> cutout_xy odd_3_cutout 6 3
   | (odd_column_hex, FOUR) \<Rightarrow> cutout_xy odd_4_cutout 8 4
   | (even_column_hex, THREE) \<Rightarrow> cutout_xy even_3_cutout 6 3
   | (even_column_hex, FOUR) \<Rightarrow> cutout_xy even_4_cutout 8 4)"

text \<open>On a layout that is not hexagonal the call falls back to 2DDWave with its default argument,
  whatever \<open>n\<close> is.\<close>

definition twoddwave_hex_clocking :: "topology \<Rightarrow> num_clks \<Rightarrow> clocking_scheme" where
  "twoddwave_hex_clocking t n = (case t of
     Hexagonal arr \<Rightarrow>
       (case n of
          THREE \<Rightarrow> make_scheme ''2DDWAVEHEX'' (twoddwave_hex_function arr THREE) (min (max_fanin_size t) 2) 2 3 True
        | FOUR \<Rightarrow> make_scheme ''2DDWAVEHEX'' (twoddwave_hex_function arr FOUR) (min (max_fanin_size t) 2) 2 4 True)
   | _ \<Rightarrow> twoddwave_clocking t FOUR)"

definition use_cutout :: "u8 list list" where
  "use_cutout = [[0, 1, 2, 3], [3, 2, 1, 0], [2, 3, 0, 1], [1, 0, 3, 2]]"

definition use_clocking :: "topology \<Rightarrow> clocking_scheme" where
  "use_clocking t = make_scheme ''USE'' (cutout_yx use_cutout 4 4) (min (max_fanin_size t) 2) 2 4 True"

definition res_cutout :: "u8 list list" where
  "res_cutout = [[3, 0, 1, 2], [0, 1, 0, 3], [1, 2, 3, 0], [0, 3, 2, 1]]"

definition res_clocking :: "topology \<Rightarrow> clocking_scheme" where
  "res_clocking t = make_scheme ''RES'' (cutout_yx res_cutout 4 4) (min (max_fanin_size t) 3) 3 4 True"

definition esr_cutout :: "u8 list list" where
  "esr_cutout = [[3, 0, 1, 2], [0, 1, 2, 3], [1, 2, 3, 0], [0, 3, 2, 1]]"

definition esr_clocking :: "topology \<Rightarrow> clocking_scheme" where
  "esr_clocking t = make_scheme ''ESR'' (cutout_yx esr_cutout 4 4) (min (max_fanin_size t) 3) 3 4 True"

definition cfe_cutout :: "u8 list list" where
  "cfe_cutout = [[0, 1, 0, 1], [3, 2, 3, 2], [0, 1, 0, 1], [3, 2, 3, 2]]"

definition cfe_clocking :: "topology \<Rightarrow> clocking_scheme" where
  "cfe_clocking t = make_scheme ''CFE'' (cutout_yx cfe_cutout 4 4) (min (max_fanin_size t) 3) 3 4 True"

definition bancs_cutout :: "u8 list list" where
  "bancs_cutout = [[0, 1, 2], [2, 1, 0], [2, 0, 1], [1, 0, 2], [1, 2, 0], [0, 2, 1]]"

definition bancs_clocking :: "topology \<Rightarrow> clocking_scheme" where
  "bancs_clocking t = make_scheme ''BANCS'' (cutout_yx bancs_cutout 6 3) (min (max_fanin_size t) 2) 2 3 True"

section \<open>Lookup\<close>

definition is_linear_scheme :: "clocking_scheme \<Rightarrow> bool" where
  "is_linear_scheme s = list_ex (scheme_eq_name s) [''COLUMNAR'', ''ROW'', ''2DDWAVE'', ''2DDWAVEHEX'']"

definition scheme_lookup :: "topology \<Rightarrow> (string \<times> clocking_scheme) list" where
  "scheme_lookup t =
     [(''OPEN'', open_clocking t FOUR), (''OPEN3'', open_clocking t THREE), (''OPEN4'', open_clocking t FOUR),
      (''COLUMNAR'', columnar_clocking t FOUR), (''COLUMNAR3'', columnar_clocking t THREE),
      (''COLUMNAR4'', columnar_clocking t FOUR),
      (''ROW'', row_clocking t FOUR), (''ROW3'', row_clocking t THREE), (''ROW4'', row_clocking t FOUR),
      (''2DDWAVE'', twoddwave_clocking t FOUR), (''2DDWAVE3'', twoddwave_clocking t THREE),
      (''2DDWAVE4'', twoddwave_clocking t FOUR),
      (''2DDWAVEHEX'', twoddwave_hex_clocking t FOUR), (''2DDWAVEHEX3'', twoddwave_hex_clocking t THREE),
      (''2DDWAVEHEX4'', twoddwave_hex_clocking t FOUR),
      (''USE'', use_clocking t), (''RES'', res_clocking t), (''ESR'', esr_clocking t),
      (''CFE'', cfe_clocking t), (''BANCS'', bancs_clocking t)]"

text \<open>\<open>toupper\<close> of the C locale.\<close>

definition char_toupper :: "char \<Rightarrow> char" where
  "char_toupper c = (let k = (of_char c :: nat) in if 97 \<le> k \<and> k \<le> 122 then char_of (k - 32) else c)"

definition get_clocking_scheme :: "topology \<Rightarrow> string \<Rightarrow> clocking_scheme option" where
  "get_clocking_scheme t name = map_of (scheme_lookup t) (map char_toupper name)"

lemmas scheme_defs = open_clocking_def columnar_clocking_def row_clocking_def twoddwave_clocking_def
  twoddwave_hex_clocking_def use_clocking_def res_clocking_def esr_clocking_def cfe_clocking_def
  bancs_clocking_def

section \<open>Well-formed schemes\<close>

definition scheme_wf :: "clocking_scheme \<Rightarrow> bool" where
  "scheme_wf s \<longleftrightarrow> 3 \<le> cs_num_clocks s \<and> (\<forall>cz. cs_fn s cz < cs_num_clocks s) \<and>
     (\<forall>n \<in> ran (cs_override s). n < cs_num_clocks s)"

definition cutout_ok :: "u8 list list \<Rightarrow> nat \<Rightarrow> nat \<Rightarrow> u8 \<Rightarrow> bool" where
  "cutout_ok cutout h w n =
     (0 < h \<and> 0 < w \<and> length cutout = h \<and> list_all (\<lambda>r. length r = w \<and> list_all (\<lambda>k. k < n) r) cutout)"

lemma cutout_at_less: "cutout_ok cutout h w n \<Longrightarrow> cutout_at cutout h w i j < n"
  by (simp add: cutout_ok_def cutout_at_def list_all_length)

lemma cutout_fn_less:
  assumes "cutout_ok cutout h w n"
  shows "cutout_yx cutout h w cz < n" and "cutout_xy cutout h w cz < n"
  by (simp_all add: cutout_yx_def cutout_xy_def cutout_at_less [OF assms])

lemma cutouts_ok:
  "cutout_ok columnar_3_cutout 3 3 3" "cutout_ok columnar_4_cutout 4 4 4"
  "cutout_ok row_3_cutout 3 3 3" "cutout_ok row_4_cutout 4 4 4"
  "cutout_ok twoddwave_3_cutout 3 3 3" "cutout_ok twoddwave_4_cutout 4 4 4"
  "cutout_ok odd_3_cutout 6 3 3" "cutout_ok even_3_cutout 6 3 3"
  "cutout_ok odd_4_cutout 8 4 4" "cutout_ok even_4_cutout 8 4 4"
  "cutout_ok use_cutout 4 4 4" "cutout_ok res_cutout 4 4 4" "cutout_ok esr_cutout 4 4 4"
  "cutout_ok cfe_cutout 4 4 4" "cutout_ok bancs_cutout 6 3 3"
  by (simp_all add: cutout_ok_def columnar_3_cutout_def columnar_4_cutout_def row_3_cutout_def
      row_4_cutout_def twoddwave_3_cutout_def twoddwave_4_cutout_def odd_3_cutout_def even_3_cutout_def
      odd_4_cutout_def even_4_cutout_def use_cutout_def res_cutout_def esr_cutout_def cfe_cutout_def
      bancs_cutout_def)

lemma make_scheme_simps [simp]:
  "cs_name (make_scheme n f i d cn r) = n" "cs_fn (make_scheme n f i d cn r) = f"
  "cs_num_clocks (make_scheme n f i d cn r) = cn" "cs_regular (make_scheme n f i d cn r) = r"
  "cs_override (make_scheme n f i d cn r) = Map.empty"
  "cs_max_in_degree (make_scheme n f i d cn r) = ucast i"
  "cs_max_out_degree (make_scheme n f i d cn r) = ucast d"
  by (simp_all add: make_scheme_def)

lemma make_scheme_wf: "3 \<le> cn \<Longrightarrow> (\<And>cz. f cz < cn) \<Longrightarrow> scheme_wf (make_scheme n f i d cn r)"
  by (simp add: scheme_wf_def)

lemma twoddwave_hex_function_less:
  "twoddwave_hex_function arr THREE cz < 3" "twoddwave_hex_function arr FOUR cz < 4"
  by (cases arr; simp add: twoddwave_hex_function_def cutout_fn_less cutouts_ok)+

lemma scheme_lookup_wf: "(k, s) \<in> set (scheme_lookup t) \<Longrightarrow> scheme_wf s"
  unfolding scheme_lookup_def
  by (auto simp: scheme_defs cutout_fn_less cutouts_ok twoddwave_hex_function_less
      intro!: make_scheme_wf split: topology.splits)

lemma get_clocking_scheme_mem:
  "get_clocking_scheme t name = Some s \<Longrightarrow> \<exists>k. (k, s) \<in> set (scheme_lookup t)"
  unfolding get_clocking_scheme_def by (blast dest: map_of_SomeD)

lemma scheme_clock_less:
  assumes "scheme_wf s"
  shows "scheme_clock s cz < cs_num_clocks s"
  using assms by (auto simp: scheme_wf_def scheme_clock_def ran_def split: option.split)

lemma override_wf:
  assumes "scheme_wf s"
  shows "scheme_wf (override_clock_number cz cn s)"
proof -
  have "0 < cs_num_clocks s" using assms by (simp add: scheme_wf_def word_le_nat_alt word_less_nat_alt)
  then have "cn mod cs_num_clocks s < cs_num_clocks s" by (rule word_mod_less_divisor)
  with assms show ?thesis by (auto simp: scheme_wf_def override_clock_number_def ran_def split: if_splits)
qed

lemma override_clock:
  "scheme_clock (override_clock_number cz cn s) cz' =
     (if cz' = cz then cn mod cs_num_clocks s
      else case cs_override s cz' of Some n \<Rightarrow> n | None \<Rightarrow> cs_fn s cz')"
  by (simp add: scheme_clock_def override_clock_number_def split: option.split)

section \<open>Linear schemes\<close>

text \<open>Each linear scheme numbers the zones along a line: the clock number is the position modulo
  the number of clocks.\<close>

fun hex_line :: "hex_arrangement \<Rightarrow> nat \<Rightarrow> nat \<Rightarrow> nat" where
  "hex_line odd_row_hex x y = x + (y + 1) div 2"
| "hex_line even_row_hex x y = x + y div 2"
| "hex_line odd_column_hex x y = y + (x + 1) div 2"
| "hex_line even_column_hex x y = y + x div 2"

definition linear_position :: "topology \<Rightarrow> clocking_scheme \<Rightarrow> ucoord_t \<Rightarrow> nat" where
  "linear_position t s c =
     (if cs_name s = ''COLUMNAR'' then unat (ux c)
      else if cs_name s = ''ROW'' then unat (uy c)
      else case t of
        Hexagonal arr \<Rightarrow>
          if cs_name s = ''2DDWAVEHEX'' then hex_line arr (unat (ux c)) (unat (uy c))
          else unat (ux c) + unat (uy c)
      | _ \<Rightarrow> unat (ux c) + unat (uy c))"

definition cutout_table :: "u8 list list \<Rightarrow> nat \<Rightarrow> nat \<Rightarrow> (nat \<Rightarrow> nat \<Rightarrow> nat) \<Rightarrow> bool" where
  "cutout_table cutout h w g =
     list_all (\<lambda>r. list_all (\<lambda>c. cutout ! r ! c = of_nat (g r c)) [0..<w]) [0..<h]"

lemma cutout_at_table:
  assumes "cutout_table cutout h w g" and "0 < h" and "0 < w"
  shows "cutout_at cutout h w i j = of_nat (g (i mod h) (j mod w))"
  using assms by (simp add: cutout_table_def cutout_at_def list_all_iff)

lemma columnar_line:
  "cutout_at columnar_3_cutout 3 3 i j = of_nat (j mod 3)"
  "cutout_at columnar_4_cutout 4 4 i j = of_nat (j mod 4)"
proof -
  have "cutout_table columnar_3_cutout 3 3 (\<lambda>r c. c)" "cutout_table columnar_4_cutout 4 4 (\<lambda>r c. c)"
    by code_simp+
  then show "cutout_at columnar_3_cutout 3 3 i j = of_nat (j mod 3)"
    "cutout_at columnar_4_cutout 4 4 i j = of_nat (j mod 4)"
    by (simp_all add: cutout_at_table)
qed

lemma row_line:
  "cutout_at row_3_cutout 3 3 i j = of_nat (i mod 3)"
  "cutout_at row_4_cutout 4 4 i j = of_nat (i mod 4)"
proof -
  have "cutout_table row_3_cutout 3 3 (\<lambda>r c. r)" "cutout_table row_4_cutout 4 4 (\<lambda>r c. r)"
    by code_simp+
  then show "cutout_at row_3_cutout 3 3 i j = of_nat (i mod 3)"
    "cutout_at row_4_cutout 4 4 i j = of_nat (i mod 4)"
    by (simp_all add: cutout_at_table)
qed

lemma twoddwave_line:
  "cutout_at twoddwave_3_cutout 3 3 i j = of_nat ((j + i) mod 3)"
  "cutout_at twoddwave_4_cutout 4 4 i j = of_nat ((j + i) mod 4)"
proof -
  have "cutout_table twoddwave_3_cutout 3 3 (\<lambda>r c. (c + r) mod 3)"
    "cutout_table twoddwave_4_cutout 4 4 (\<lambda>r c. (c + r) mod 4)"
    by code_simp+
  then show "cutout_at twoddwave_3_cutout 3 3 i j = of_nat ((j + i) mod 3)"
    "cutout_at twoddwave_4_cutout 4 4 i j = of_nat ((j + i) mod 4)"
    by (simp_all only: cutout_at_table zero_less_numeral mod_add_eq)
qed

lemma half_period:
  fixes i j k n :: nat
  shows "(j + (i + k) div 2) mod n = (j mod n + (i mod (2 * n) + k) div 2) mod n"
proof -
  define q r where "q = i div (2 * n)" and "r = i mod (2 * n)"
  have "i = 2 * (n * q) + r" by (simp add: q_def r_def flip: mult.assoc)
  then have "(i + k) div 2 = n * q + (r + k) div 2" by presburger
  then have "(j + (i + k) div 2) mod n = (j + (r + k) div 2 + n * q) mod n" by (simp add: ac_simps)
  also have "\<dots> = (j mod n + (r + k) div 2) mod n" by (simp add: mod_add_left_eq)
  finally show ?thesis by (simp add: r_def)
qed

lemma hex_3_line:
  "cutout_at odd_3_cutout 6 3 i j = of_nat ((j + (i + 1) div 2) mod 3)"
  "cutout_at even_3_cutout 6 3 i j = of_nat ((j + i div 2) mod 3)"
proof -
  have "cutout_table odd_3_cutout 6 3 (\<lambda>r c. (c + (r + 1) div 2) mod 3)"
    "cutout_table even_3_cutout 6 3 (\<lambda>r c. (c + r div 2) mod 3)"
    by code_simp+
  moreover have "(j + (i + 1) div 2) mod 3 = (j mod 3 + (i mod 6 + 1) div 2) mod 3"
    and "(j + i div 2) mod 3 = (j mod 3 + (i mod 6) div 2) mod 3"
    using half_period [of j i 1 3] half_period [of j i 0 3] by simp_all
  ultimately show "cutout_at odd_3_cutout 6 3 i j = of_nat ((j + (i + 1) div 2) mod 3)"
    "cutout_at even_3_cutout 6 3 i j = of_nat ((j + i div 2) mod 3)"
    by (simp_all only: cutout_at_table zero_less_numeral)
qed

lemma hex_4_line:
  "cutout_at odd_4_cutout 8 4 i j = of_nat ((j + (i + 1) div 2) mod 4)"
  "cutout_at even_4_cutout 8 4 i j = of_nat ((j + i div 2) mod 4)"
proof -
  have "cutout_table odd_4_cutout 8 4 (\<lambda>r c. (c + (r + 1) div 2) mod 4)"
    "cutout_table even_4_cutout 8 4 (\<lambda>r c. (c + r div 2) mod 4)"
    by code_simp+
  moreover have "(j + (i + 1) div 2) mod 4 = (j mod 4 + (i mod 8 + 1) div 2) mod 4"
    and "(j + i div 2) mod 4 = (j mod 4 + (i mod 8) div 2) mod 4"
    using half_period [of j i 1 4] half_period [of j i 0 4] by simp_all
  ultimately show "cutout_at odd_4_cutout 8 4 i j = of_nat ((j + (i + 1) div 2) mod 4)"
    "cutout_at even_4_cutout 8 4 i j = of_nat ((j + i div 2) mod 4)"
    by (simp_all only: cutout_at_table zero_less_numeral)
qed

lemmas cutout_lines = columnar_line row_line twoddwave_line hex_3_line hex_4_line

lemma twoddwave_hex_line:
  "twoddwave_hex_function arr THREE c = of_nat (hex_line arr (unat (ux c)) (unat (uy c)) mod 3)"
  "twoddwave_hex_function arr FOUR c = of_nat (hex_line arr (unat (ux c)) (unat (uy c)) mod 4)"
  by (cases arr; simp add: twoddwave_hex_function_def cutout_yx_def cutout_xy_def cutout_lines)+

definition on_a_line :: "topology \<Rightarrow> clocking_scheme \<Rightarrow> bool" where
  "on_a_line t s \<longleftrightarrow> cs_regular s \<and>
     (\<forall>c. cs_fn s c = of_nat (linear_position t s c mod unat (cs_num_clocks s)))"

lemma on_a_line_schemes:
  "on_a_line t (columnar_clocking t n)" "on_a_line t (row_clocking t n)"
  "on_a_line t (twoddwave_clocking t n)" "on_a_line t (twoddwave_hex_clocking t n)"
  by (cases n; simp add: on_a_line_def linear_position_def scheme_defs cutout_yx_def cutout_lines
      twoddwave_hex_line split: topology.split)+

lemma linear_scheme_names [simp]:
  "\<not> is_linear_scheme (open_clocking t n)" "\<not> is_linear_scheme (use_clocking t)"
  "\<not> is_linear_scheme (res_clocking t)" "\<not> is_linear_scheme (esr_clocking t)"
  "\<not> is_linear_scheme (cfe_clocking t)" "\<not> is_linear_scheme (bancs_clocking t)"
  by (cases n; simp add: is_linear_scheme_def scheme_eq_name_def scheme_defs)+

lemma linear_on_a_line:
  assumes "get_clocking_scheme t name = Some s" and "is_linear_scheme s"
  shows "on_a_line t s"
proof -
  obtain k where "(k, s) \<in> set (scheme_lookup t)" using get_clocking_scheme_mem [OF assms(1)] by blast
  then have "s \<in> set (map snd (scheme_lookup t))" by (auto intro: rev_image_eqI)
  then show ?thesis
    using assms(2) unfolding scheme_lookup_def list.map snd_conv list.set
    by (elim insertE emptyE) (simp_all add: on_a_line_schemes)
qed

section \<open>Properties\<close>

lemma char_toupper_idem: "char_toupper (char_toupper c) = char_toupper c"
proof (cases "97 \<le> (of_char c :: nat) \<and> (of_char c :: nat) \<le> 122")
  case True
  then have "char_toupper c = char_of ((of_char c :: nat) - 32)" by (simp add: char_toupper_def Let_def)
  moreover have "(of_char (char_of ((of_char c :: nat) - 32)) :: nat) = of_char c - 32"
    unfolding of_char_of using True by (intro mod_less) linarith
  moreover have "\<not> 97 \<le> (of_char c :: nat) - 32" using True by linarith
  ultimately show ?thesis by (simp add: char_toupper_def Let_def)
qed (auto simp: char_toupper_def Let_def)

lemma upper_names:
  "map char_toupper ''use'' = ''USE''" "map char_toupper ''Row3'' = ''ROW3''"
  "map char_toupper ''2DDWave'' = ''2DDWAVE''" "map char_toupper ''2DDWAVE3'' = ''2DDWAVE3''"
  "map char_toupper ''columnar'' = ''COLUMNAR''"
  "map char_toupper ''2ddwavehex'' = ''2DDWAVEHEX''" "map char_toupper ''2DDWAVEHEX3'' = ''2DDWAVEHEX3''"
  by code_simp+

lemma lookup_columnar: "get_clocking_scheme t ''columnar'' = Some (columnar_clocking t FOUR)"
  unfolding get_clocking_scheme_def upper_names by (simp add: scheme_lookup_def)

lemma lookup_use: "get_clocking_scheme t ''use'' = Some (use_clocking t)"
  unfolding get_clocking_scheme_def upper_names by (simp add: scheme_lookup_def)

lemma lookup_row: "get_clocking_scheme t ''Row3'' = Some (row_clocking t THREE)"
  unfolding get_clocking_scheme_def upper_names by (simp add: scheme_lookup_def)

lemma lookup_wave: "get_clocking_scheme t ''2DDWave'' = Some (twoddwave_clocking t FOUR)"
  unfolding get_clocking_scheme_def upper_names by (simp add: scheme_lookup_def)

lemma lookup_wave3: "get_clocking_scheme t ''2DDWAVE3'' = Some (twoddwave_clocking t THREE)"
  unfolding get_clocking_scheme_def upper_names by (simp add: scheme_lookup_def)

lemma lookup_wave_hex: "get_clocking_scheme t ''2ddwavehex'' = Some (twoddwave_hex_clocking t FOUR)"
  unfolding get_clocking_scheme_def upper_names by (simp add: scheme_lookup_def)

lemma lookup_wave_hex3: "get_clocking_scheme t ''2DDWAVEHEX3'' = Some (twoddwave_hex_clocking t THREE)"
  unfolding get_clocking_scheme_def upper_names by (simp add: scheme_lookup_def)

lemma lookup_clocks:
  assumes "get_clocking_scheme t name = Some s"
  shows "cs_num_clocks s \<in> {3, 4} \<and> scheme_clock s cz < cs_num_clocks s"
proof -
  obtain k where m: "(k, s) \<in> set (scheme_lookup t)" using get_clocking_scheme_mem [OF assms] by blast
  then have "cs_num_clocks s \<in> {3, 4}"
    unfolding scheme_lookup_def by (auto simp: scheme_defs split: topology.splits)
  with scheme_clock_less [OF scheme_lookup_wf [OF m]] show ?thesis by simp
qed

lemma linear_clock:
  assumes "get_clocking_scheme t name = Some s" and "is_linear_scheme s"
  shows "unat (scheme_clock s c) = linear_position t s c mod unat (cs_num_clocks s)"
proof -
  have line: "on_a_line t s" by (rule linear_on_a_line [OF assms])
  have n: "unat (cs_num_clocks s) < 256" using unsigned_less [of "cs_num_clocks s", where ?'a = nat] by simp
  have "cs_num_clocks s = 3 \<or> cs_num_clocks s = 4" using lookup_clocks [OF assms(1)] by blast
  then have "0 < unat (cs_num_clocks s)" by auto
  then have "linear_position t s c mod unat (cs_num_clocks s) < 256"
    using n mod_less_divisor order_less_trans by blast
  with line show ?thesis by (simp add: on_a_line_def scheme_clock_def unat_of_nat)
qed

text \<open>Every scheme that the lookup returns has three or four clocks, and assigns each zone a
  clock number below their count.\<close>

theorem lookup_clock_numbers:
  assumes "get_clocking_scheme t name = Some s"
  shows "cs_num_clocks s \<in> {3, 4} \<and> scheme_clock s cz < cs_num_clocks s"
  by (rule lookup_clocks [OF assms])

lemma lookup_clock_numbers_witness:
  "cs_num_clocks (use_clocking Cartesian) \<in> {3, 4} \<and>
   scheme_clock (use_clocking Cartesian) (ucoord3 7 2 0) < cs_num_clocks (use_clocking Cartesian)"
  by (rule lookup_clock_numbers [OF lookup_use])

text \<open>Overriding a clock number keeps a scheme well formed, makes it irregular, gives the zone the
  number modulo the number of clocks, and leaves every other zone of a regular scheme without
  overrides as it was.\<close>

theorem override_effect:
  assumes "scheme_wf s" and "cs_override s = Map.empty"
  shows "scheme_wf (override_clock_number cz cn s) \<and> \<not> is_regular (override_clock_number cz cn s) \<and>
    scheme_clock (override_clock_number cz cn s) cz' =
      (if cz' = cz then cn mod cs_num_clocks s else scheme_clock s cz')"
  using override_wf [OF assms(1)] assms(2)
  by (simp add: override_clock is_regular_def override_clock_number_def scheme_clock_def)

lemma override_effect_witness:
  "scheme_wf (override_clock_number (ucoord3 1 0 0) 6 (use_clocking Cartesian)) \<and>
   \<not> is_regular (override_clock_number (ucoord3 1 0 0) 6 (use_clocking Cartesian)) \<and>
   scheme_clock (override_clock_number (ucoord3 1 0 0) 6 (use_clocking Cartesian)) (ucoord3 1 0 0) =
     (if ucoord3 1 0 0 = ucoord3 1 0 0 then 6 mod cs_num_clocks (use_clocking Cartesian)
      else scheme_clock (use_clocking Cartesian) (ucoord3 1 0 0))"
proof (rule override_effect)
  show "scheme_wf (use_clocking Cartesian)"
    using scheme_lookup_wf get_clocking_scheme_mem [OF lookup_use] by blast
qed (simp add: use_clocking_def)

text \<open>The lookup by name does not depend on the case of the letters.\<close>

theorem lookup_case_insensitive:
  "get_clocking_scheme t (map char_toupper name) = get_clocking_scheme t name"
  by (simp add: get_clocking_scheme_def char_toupper_idem comp_def)

text \<open>The linear schemes number the zones along a line: the clock number of a zone is its
  position modulo the number of clocks, where the position is the column (COLUMNAR), the row (ROW),
  their sum (2DDWAVE), or the sum with every second row or column shifted (2DDWAVEHEX).\<close>

theorem linear_scheme_numbers:
  assumes "get_clocking_scheme t name = Some s" and "is_linear_scheme s"
  shows "unat (scheme_clock s c) = linear_position t s c mod unat (cs_num_clocks s)"
  by (rule linear_clock [OF assms])

lemma linear_scheme_numbers_witness:
  "unat (scheme_clock (row_clocking (Hexagonal odd_row_hex) THREE) (ucoord3 5 4 0)) =
   linear_position (Hexagonal odd_row_hex) (row_clocking (Hexagonal odd_row_hex) THREE) (ucoord3 5 4 0)
     mod unat (cs_num_clocks (row_clocking (Hexagonal odd_row_hex) THREE))"
  by (rule linear_scheme_numbers [OF lookup_row]) (simp add: is_linear_scheme_def scheme_eq_name_def row_clocking_def)

text \<open>On a layout that is not hexagonal, the three-phase hexagonal 2DDWave scheme is the
  Cartesian one with four clocks: the fallback drops the requested number of clocks.\<close>

theorem hex_wave_fallback_drops_phases:
  "map_option cs_num_clocks (get_clocking_scheme Cartesian ''2DDWAVEHEX3'') = Some 4"
  by (simp add: lookup_wave_hex3 scheme_defs)

end
