(* ===== verification/Clocked_Layout.thy ===== *)
theory Clocked_Layout
  imports Clocking_Scheme "HOL-Library.AList"
begin

text \<open>
  Model of \<open>layouts/clocked_layout.hpp\<close> and \<open>layouts/synchronization_element_layout.hpp\<close>. Each class
  extends the record of its base class by its storage. A shared pointer to storage is the storage
  itself. The unordered map of synchronization elements is an association list without duplicate
  keys, so that its size is that of the list.

  The lemmas show which zones are incoming and outgoing, that the two are dual, that the degrees
  add up over the layout, that the information flow of a linear scheme moves one position along
  its line, and that no zone exceeds the degrees its regular scheme promises.
\<close>

section \<open>Clocked layouts\<close>

record clocked_layout = coordinate_layout +
  cl_clocking :: clocking_scheme

definition make_clocked_layout :: "topology \<Rightarrow> ucoord_t \<Rightarrow> clocking_scheme \<Rightarrow> clocked_layout" where
  "make_clocked_layout t ar scheme = \<lparr>lyt_topology = t, lyt_dimension = ar, cl_clocking = scheme\<rparr>"

definition open_clocked_layout :: "topology \<Rightarrow> ucoord_t \<Rightarrow> clocked_layout" where
  "open_clocked_layout t ar = make_clocked_layout t ar (open_clocking t FOUR)"

definition replace_clocking_scheme ::
    "clocking_scheme \<Rightarrow> 'a clocked_layout_scheme \<Rightarrow> 'a clocked_layout_scheme" where
  "replace_clocking_scheme scheme l = l\<lparr>cl_clocking := scheme\<rparr>"

definition assign_clock_number ::
    "ucoord_t \<Rightarrow> u8 \<Rightarrow> 'a clocked_layout_scheme \<Rightarrow> 'a clocked_layout_scheme" where
  "assign_clock_number cz cn l = l\<lparr>cl_clocking := override_clock_number cz cn (cl_clocking l)\<rparr>"

definition get_clock_number :: "'a clocked_layout_scheme \<Rightarrow> ucoord_t \<Rightarrow> u8" where
  "get_clock_number l cz = scheme_clock (cl_clocking l) cz"

definition num_clocks :: "'a clocked_layout_scheme \<Rightarrow> u8" where
  "num_clocks l = cs_num_clocks (cl_clocking l)"

definition is_regularly_clocked :: "'a clocked_layout_scheme \<Rightarrow> bool" where
  "is_regularly_clocked l = is_regular (cl_clocking l)"

definition is_clocking_scheme :: "'a clocked_layout_scheme \<Rightarrow> string \<Rightarrow> bool" where
  "is_clocking_scheme l name = scheme_eq_name (cl_clocking l) name"

text \<open>The sum and the remainder are computed in \<open>int\<close>, to which \<open>uint8_t\<close> is promoted, and then
  cast back.\<close>

definition next_clock :: "'a clocked_layout_scheme \<Rightarrow> u8 \<Rightarrow> u8" where
  "next_clock l n = of_nat ((unat n + 1) mod unat (num_clocks l))"

definition is_incoming_clocked :: "'a clocked_layout_scheme \<Rightarrow> ucoord_t \<Rightarrow> ucoord_t \<Rightarrow> bool" where
  "is_incoming_clocked l cz1 cz2 =
     (if cz1 = cz2 then False else next_clock l (get_clock_number l cz2) = get_clock_number l cz1)"

definition is_outgoing_clocked :: "'a clocked_layout_scheme \<Rightarrow> ucoord_t \<Rightarrow> ucoord_t \<Rightarrow> bool" where
  "is_outgoing_clocked l cz1 cz2 =
     (if cz1 = cz2 then False else next_clock l (get_clock_number l cz1) = get_clock_number l cz2)"

definition incoming_clocked_zones ::
    "(ucoord_t \<Rightarrow> ucoord_t list \<Rightarrow> ucoord_t list) \<Rightarrow> 'a clocked_layout_scheme \<Rightarrow> ucoord_t \<Rightarrow> ucoord_t list" where
  "incoming_clocked_zones ins l cz =
     copy_if ins (is_incoming_clocked l cz) (lyt_adjacent_coordinates ins l cz) []"

definition outgoing_clocked_zones ::
    "(ucoord_t \<Rightarrow> ucoord_t list \<Rightarrow> ucoord_t list) \<Rightarrow> 'a clocked_layout_scheme \<Rightarrow> ucoord_t \<Rightarrow> ucoord_t list" where
  "outgoing_clocked_zones ins l cz =
     copy_if ins (is_outgoing_clocked l cz) (lyt_adjacent_coordinates ins l cz) []"

text \<open>What \<open>foreach_incoming_clocked_zone\<close> and \<open>foreach_outgoing_clocked_zone\<close> walk.\<close>

definition incoming_zones :: "'a clocked_layout_scheme \<Rightarrow> ucoord_t \<Rightarrow> ucoord_t list" where
  "incoming_zones l cz = incoming_clocked_zones (set_insert ucoord_less) l cz"

definition outgoing_zones :: "'a clocked_layout_scheme \<Rightarrow> ucoord_t \<Rightarrow> ucoord_t list" where
  "outgoing_zones l cz = outgoing_clocked_zones (set_insert ucoord_less) l cz"

definition in_degree :: "'a clocked_layout_scheme \<Rightarrow> ucoord_t \<Rightarrow> u8" where
  "in_degree l cz = of_nat (length (incoming_clocked_zones (set_insert ucoord_less) l cz))"

definition out_degree :: "'a clocked_layout_scheme \<Rightarrow> ucoord_t \<Rightarrow> u8" where
  "out_degree l cz = of_nat (length (outgoing_clocked_zones (set_insert ucoord_less) l cz))"

definition degree :: "'a clocked_layout_scheme \<Rightarrow> ucoord_t \<Rightarrow> u8" where
  "degree l cz = in_degree l cz + out_degree l cz"

section \<open>Synchronization elements\<close>

record synchronization_element_layout = clocked_layout +
  se_map :: "(u64 \<times> u8) list"

definition assign_synchronization_element ::
    "ucoord_t \<Rightarrow> u8 \<Rightarrow> 'a synchronization_element_layout_scheme \<Rightarrow> 'a synchronization_element_layout_scheme" where
  "assign_synchronization_element cz se l =
     (if se = 0 then l\<lparr>se_map := AList.delete (u64_of_ucoord cz) (se_map l)\<rparr>
      else l\<lparr>se_map := AList.update (u64_of_ucoord cz) se (se_map l)\<rparr>)"

definition is_synchronization_element :: "'a synchronization_element_layout_scheme \<Rightarrow> ucoord_t \<Rightarrow> bool" where
  "is_synchronization_element l cz =
     (case map_of (se_map l) (u64_of_ucoord cz) of Some se \<Rightarrow> se \<noteq> 0 | None \<Rightarrow> False)"

definition get_synchronization_element :: "'a synchronization_element_layout_scheme \<Rightarrow> ucoord_t \<Rightarrow> u8" where
  "get_synchronization_element l cz =
     (case map_of (se_map l) (u64_of_ucoord cz) of Some se \<Rightarrow> se | None \<Rightarrow> 0)"

definition se_is_incoming_clocked ::
    "'a synchronization_element_layout_scheme \<Rightarrow> ucoord_t \<Rightarrow> ucoord_t \<Rightarrow> bool" where
  "se_is_incoming_clocked l cz1 cz2 =
     (if cz1 = cz2 then False
      else is_incoming_clocked l cz1 cz2 \<or> is_synchronization_element l cz1 \<or> is_synchronization_element l cz2)"

definition se_is_outgoing_clocked ::
    "'a synchronization_element_layout_scheme \<Rightarrow> ucoord_t \<Rightarrow> ucoord_t \<Rightarrow> bool" where
  "se_is_outgoing_clocked l cz1 cz2 =
     (if cz1 = cz2 then False
      else is_outgoing_clocked l cz1 cz2 \<or> is_synchronization_element l cz1 \<or> is_synchronization_element l cz2)"

definition se_incoming_clocked_zones ::
    "(ucoord_t \<Rightarrow> ucoord_t list \<Rightarrow> ucoord_t list) \<Rightarrow> 'a synchronization_element_layout_scheme \<Rightarrow>
     ucoord_t \<Rightarrow> ucoord_t list" where
  "se_incoming_clocked_zones ins l cz =
     copy_if ins (se_is_incoming_clocked l cz) (lyt_adjacent_coordinates ins l cz) []"

definition se_outgoing_clocked_zones ::
    "(ucoord_t \<Rightarrow> ucoord_t list \<Rightarrow> ucoord_t list) \<Rightarrow> 'a synchronization_element_layout_scheme \<Rightarrow>
     ucoord_t \<Rightarrow> ucoord_t list" where
  "se_outgoing_clocked_zones ins l cz =
     copy_if ins (se_is_outgoing_clocked l cz) (lyt_adjacent_coordinates ins l cz) []"

definition num_se :: "'a synchronization_element_layout_scheme \<Rightarrow> u32" where
  "num_se l = of_nat (length (se_map l))"

definition se_in_degree :: "'a synchronization_element_layout_scheme \<Rightarrow> ucoord_t \<Rightarrow> u8" where
  "se_in_degree l cz = of_nat (length (se_incoming_clocked_zones (set_insert ucoord_less) l cz))"

definition se_out_degree :: "'a synchronization_element_layout_scheme \<Rightarrow> ucoord_t \<Rightarrow> u8" where
  "se_out_degree l cz = of_nat (length (se_outgoing_clocked_zones (set_insert ucoord_less) l cz))"

definition se_degree :: "'a synchronization_element_layout_scheme \<Rightarrow> ucoord_t \<Rightarrow> u8" where
  "se_degree l cz =
     (let incoming = se_incoming_clocked_zones (set_insert ucoord_less) l cz;
          outgoing = se_outgoing_clocked_zones (set_insert ucoord_less) l cz;
          merged_clock_zones = fold (set_insert ucoord_less) (std_merge ucoord_less incoming outgoing) []
      in of_nat (length merged_clock_zones))"

section \<open>Incoming and outgoing zones\<close>

lemma is_incoming_outgoing: "is_incoming_clocked l a b = is_outgoing_clocked l b a"
  by (auto simp: is_incoming_clocked_def is_outgoing_clocked_def)

lemma se_is_incoming_outgoing: "se_is_incoming_clocked l a b = se_is_outgoing_clocked l b a"
  by (auto simp: se_is_incoming_clocked_def se_is_outgoing_clocked_def is_incoming_outgoing)

lemma copy_adjacent:
  "copy_if (set_insert ucoord_less) P (lyt_adjacent_coordinates (set_insert ucoord_less) l c) [] =
     filter P (lyt_adjacent_tiles l c)"
  using ucoord_order.copy_if_sorted [OF lyt_adjacent_tiles_sorted [of l c]]
  by (simp add: lyt_adjacent_tiles_def)

lemma zones_filter:
  "incoming_clocked_zones (set_insert ucoord_less) l c = filter (is_incoming_clocked l c) (lyt_adjacent_tiles l c)"
  "outgoing_clocked_zones (set_insert ucoord_less) l c = filter (is_outgoing_clocked l c) (lyt_adjacent_tiles l c)"
  by (simp_all add: incoming_clocked_zones_def outgoing_clocked_zones_def copy_adjacent)

lemma se_zones_filter:
  "se_incoming_clocked_zones (set_insert ucoord_less) l c =
     filter (se_is_incoming_clocked l c) (lyt_adjacent_tiles l c)"
  "se_outgoing_clocked_zones (set_insert ucoord_less) l c =
     filter (se_is_outgoing_clocked l c) (lyt_adjacent_tiles l c)"
  by (simp_all add: se_incoming_clocked_zones_def se_outgoing_clocked_zones_def copy_adjacent)

lemma length_adjacent_6: "length (lyt_adjacent_tiles l c) \<le> 6"
  using lyt_adjacent_tiles_length [of l c] by (simp add: max_fanin_size_def split: option.splits)

lemma unat_filter_adjacent: "unat (of_nat (length (filter P (lyt_adjacent_tiles l c))) :: u8) =
    length (filter P (lyt_adjacent_tiles l c))"
  using order_trans [OF length_filter_le [of P] length_adjacent_6 [of l c]] by (simp add: unat_of_nat)

lemma unat_degrees:
  "unat (in_degree l c) = length (filter (is_incoming_clocked l c) (lyt_adjacent_tiles l c))"
  "unat (out_degree l c) = length (filter (is_outgoing_clocked l c) (lyt_adjacent_tiles l c))"
  by (simp_all add: in_degree_def out_degree_def zones_filter unat_filter_adjacent)

lemma unat_degree: "unat (degree l c) = unat (in_degree l c) + unat (out_degree l c)"
proof -
  have "unat (in_degree l c) \<le> 6" "unat (out_degree l c) \<le> 6"
    unfolding unat_degrees by (rule order_trans [OF length_filter_le length_adjacent_6])+
  then show ?thesis by (simp add: degree_def unat_word_ariths)
qed

lemma incoming_zones_set:
  assumes "lyt_enumerable l" and "lyt_in_grid l c"
  shows "set (incoming_zones l c) = {d. lyt_in_grid l d \<and> lyt_neighbour l c d \<and> is_incoming_clocked l c d}"
    and "set (outgoing_zones l c) = {d. lyt_in_grid l d \<and> lyt_neighbour l c d \<and> is_outgoing_clocked l c d}"
  using lyt_adjacent_tiles_set [OF assms]
  by (auto simp: incoming_zones_def outgoing_zones_def zones_filter)

lemma zones_sorted: "sorted_wrt ucoord_less (incoming_zones l c)" "sorted_wrt ucoord_less (outgoing_zones l c)"
  by (simp_all add: incoming_zones_def outgoing_zones_def zones_filter sorted_wrt_filter lyt_adjacent_tiles_sorted)

section \<open>Synchronization elements as a map\<close>

definition se_wf :: "'a synchronization_element_layout_scheme \<Rightarrow> bool" where
  "se_wf l \<longleftrightarrow> distinct (map fst (se_map l)) \<and> 0 \<notin> snd ` set (se_map l)"

lemma snd_update: "snd ` set (AList.update k v al) \<subseteq> insert v (snd ` set al)"
  by (induction al) auto

lemma snd_delete: "snd ` set (AList.delete k al) \<subseteq> snd ` set al"
  by (induction al) auto

lemma assign_se_wf: "se_wf l \<Longrightarrow> se_wf (assign_synchronization_element cz se l)"
  using snd_update [of "u64_of_ucoord cz" se "se_map l"] snd_delete [of "u64_of_ucoord cz" "se_map l"]
  by (auto simp: se_wf_def assign_synchronization_element_def distinct_update distinct_delete)

lemma get_assign_se:
  "get_synchronization_element (assign_synchronization_element cz se l) cz' =
     (if cz' = cz then se else get_synchronization_element l cz')"
  by (auto simp: get_synchronization_element_def assign_synchronization_element_def update_conv'
      delete_conv' split: option.split)

lemma is_se_iff: "is_synchronization_element l cz \<longleftrightarrow> get_synchronization_element l cz \<noteq> 0"
  by (simp add: is_synchronization_element_def get_synchronization_element_def split: option.split)

lemma num_se_card:
  assumes "se_wf l"
  shows "num_se l = of_nat (card {cz. is_synchronization_element l cz})"
proof -
  have d: "distinct (map fst (se_map l))" and z: "0 \<notin> snd ` set (se_map l)"
    using assms by (simp_all add: se_wf_def)
  have "{cz. is_synchronization_element l cz} = ucoord_of_u64 ` fst ` set (se_map l)"
  proof (intro equalityI subsetI)
    fix cz
    assume "cz \<in> {cz. is_synchronization_element l cz}"
    then obtain v where "map_of (se_map l) (u64_of_ucoord cz) = Some v"
      by (auto simp: is_synchronization_element_def split: option.splits)
    then have "(u64_of_ucoord cz, v) \<in> set (se_map l)" by (rule map_of_SomeD)
    then show "cz \<in> ucoord_of_u64 ` fst ` set (se_map l)" by (force simp: image_iff)
  next
    fix cz
    assume "cz \<in> ucoord_of_u64 ` fst ` set (se_map l)"
    then obtain k v where kv: "(k, v) \<in> set (se_map l)" and cz: "cz = ucoord_of_u64 k" by auto
    from kv z have "v \<noteq> 0" by (force simp: image_iff)
    then show "cz \<in> {cz. is_synchronization_element l cz}"
      using map_of_is_SomeI [OF d kv] by (simp add: is_synchronization_element_def cz)
  qed
  moreover have "inj ucoord_of_u64" by (metis injI u64_of_ucoord_of_u64)
  ultimately have "card {cz. is_synchronization_element l cz} = card (fst ` set (se_map l))"
    by (simp add: card_image inj_on_subset)
  also have "\<dots> = length (se_map l)" using distinct_card [OF d] by simp
  finally show ?thesis by (simp add: num_se_def)
qed

section \<open>Directions\<close>

text \<open>Each neighbour is reached by its own step; a bound on the steps bounds the neighbours.\<close>

definition step_of :: "ucoord_t \<Rightarrow> ucoord_t \<Rightarrow> int \<times> int" where
  "step_of c d = (uint (ux d) - uint (ux c), uint (uy d) - uint (uy c))"

lemma length_filter_image:
  assumes "lyt_enumerable l" and "lyt_in_grid l c" and "finite V"
    and "\<And>d. d \<in> set (lyt_adjacent_tiles l c) \<Longrightarrow> P d \<Longrightarrow> f d \<in> V"
    and f: "\<And>a b. f a = f b \<Longrightarrow> ux a = ux b \<and> uy a = uy b"
  shows "length (filter P (lyt_adjacent_tiles l c)) \<le> card V"
proof -
  let ?D = "{d \<in> set (lyt_adjacent_tiles l c). P d}"
  have mem: "\<not> ud d \<and> uz d = uz c" if "d \<in> ?D" for d
    using that by (simp add: lyt_adjacent_tiles_set [OF assms(1,2)] lyt_in_grid_def in_grid_def lyt_neighbour_def)
  have "inj_on f ?D"
  proof (rule inj_onI)
    fix a b
    assume "a \<in> ?D" and "b \<in> ?D" and "f a = f b"
    with mem [of a] mem [of b] f [of a b] show "a = b" by (simp add: ucoord_upd_iff(5))
  qed
  moreover have "f ` ?D \<subseteq> V" using assms(4) by auto
  ultimately have "card ?D \<le> card V" using card_inj_on_le assms(3) by blast
  moreover have "length (filter P (lyt_adjacent_tiles l c)) = card ?D"
    using lyt.adj_distinct [of l c] by (metis distinct_card distinct_filter set_filter)
  ultimately show ?thesis by simp
qed

lemma length_filter_steps:
  assumes "lyt_enumerable l" and "lyt_in_grid l c" and "finite V"
    and "\<And>d. d \<in> set (lyt_adjacent_tiles l c) \<Longrightarrow> P d \<Longrightarrow> step_of c d \<in> V"
  shows "length (filter P (lyt_adjacent_tiles l c)) \<le> card V"
  using assms by (rule length_filter_image) (simp_all add: step_of_def word_uint_eq_iff)

definition cart_steps :: "(int \<times> int) list" where
  "cart_steps = [(0, -1), (1, 0), (0, 1), (-1, 0)]"

lemma int_unit_step:
  fixes a b :: int
  assumes "\<bar>a\<bar> + \<bar>b\<bar> = 1"
  shows "(a, b) \<in> {(0, -1), (1, 0), (0, 1), (-1, 0)}"
proof (cases "a = 0")
  case True
  with assms have "b = 1 \<or> b = -1" by linarith
  with True show ?thesis by auto
next
  case False
  with assms have "b = 0" "a = 1 \<or> a = -1" by linarith+
  then show ?thesis by auto
qed

lemma cart_step:
  assumes "lyt_topology l = Cartesian" and "lyt_neighbour l c d"
  shows "step_of c d \<in> set cart_steps"
proof -
  have "\<bar>uint (ux d) - uint (ux c)\<bar> + \<bar>uint (uy d) - uint (uy c)\<bar> = 1"
    using assms by (simp add: lyt_neighbour_def manhattan_def abs_minus_commute)
  from int_unit_step [OF this] show ?thesis
    by (simp add: step_of_def cart_steps_def)
qed

section \<open>Linear schemes move along their line\<close>

lemma next_mod_unique:
  fixes p q n :: nat
  assumes "(p + 1) mod n = q mod n" and "\<bar>int q - int p\<bar> \<le> 1" and "3 \<le> n"
  shows "q = p + 1"
proof -
  have "int (p + 1) mod int n = int q mod int n" using arg_cong [OF assms(1), of int] by (simp only: zmod_int)
  then have dvd: "int n dvd int (p + 1) - int q" by (simp only: mod_eq_dvd_iff)
  have "int (p + 1) - int q = 0"
  proof (rule ccontr)
    assume "int (p + 1) - int q \<noteq> 0"
    from dvd_imp_le_int [OF this dvd] assms(2,3) show False by linarith
  qed
  then show ?thesis by simp
qed

lemma of_nat_u8_eq: "p < 256 \<Longrightarrow> q < 256 \<Longrightarrow> (of_nat p :: u8) = of_nat q \<longleftrightarrow> p = q"
  by (simp add: word_of_nat_eq_iff take_bit_eq_mod)

lemma outgoing_on_a_line:
  assumes wf: "scheme_wf (cl_clocking l)" and line: "on_a_line (lyt_topology l) (cl_clocking l)"
    and near: "\<bar>int (linear_position (lyt_topology l) (cl_clocking l) d) -
                 int (linear_position (lyt_topology l) (cl_clocking l) c)\<bar> \<le> 1"
  shows "is_outgoing_clocked l c d \<longleftrightarrow>
    linear_position (lyt_topology l) (cl_clocking l) d = linear_position (lyt_topology l) (cl_clocking l) c + 1"
proof -
  let ?n = "unat (num_clocks l)"
  let ?p = "linear_position (lyt_topology l) (cl_clocking l) c"
  let ?q = "linear_position (lyt_topology l) (cl_clocking l) d"
  have n3: "3 \<le> ?n" using wf by (simp add: scheme_wf_def num_clocks_def word_le_nat_alt)
  have n: "?n < 256" using unsigned_less [of "num_clocks l", where ?'a = nat] by simp
  have small: "k mod ?n < 256" for k using mod_less_divisor [of ?n k] n3 n by linarith
  have num: "get_clock_number l x = of_nat (linear_position (lyt_topology l) (cl_clocking l) x mod ?n)" for x
    using line by (simp add: get_clock_number_def scheme_clock_def on_a_line_def num_clocks_def)
  have "next_clock l (get_clock_number l c) = get_clock_number l d \<longleftrightarrow> (?p + 1) mod ?n = ?q mod ?n"
    using small [of ?p] small [of "?p + 1"] small [of ?q]
    by (simp add: num next_clock_def unat_of_nat of_nat_u8_eq mod_Suc_eq)
  also have "\<dots> \<longleftrightarrow> ?q = ?p + 1"
    using next_mod_unique [OF _ near n3] by auto
  finally show ?thesis by (auto simp: is_outgoing_clocked_def)
qed

lemma hex_line_cube:
  "int (hex_line arr (unat (ux c)) (unat (uy c))) = - cube_y (to_cube_coordinate arr c)"
proof -
  have h: "(k + 1) div 2 + k div 2 = k" for k :: int by presburger
  show ?thesis
    using h [of "uint (ux c)"] h [of "uint (uy c)"]
    by (cases arr) (simp_all add: to_cube_simps hex_shift_def hex_offset_def zdiv_int algebra_simps)
qed

text \<open>On a hexagonal base the Cartesian 2DDWave is not a line: its positions may differ by two
  between neighbours.\<close>

definition linear_on :: "topology \<Rightarrow> clocking_scheme \<Rightarrow> bool" where
  "linear_on t s = (case t of
     Cartesian \<Rightarrow> True
   | Shifted_Cartesian _ \<Rightarrow> cs_name s = ''COLUMNAR'' \<or> cs_name s = ''ROW''
   | Hexagonal _ \<Rightarrow> cs_name s \<noteq> ''2DDWAVE'')"

lemma hex_neighbour_step:
  assumes "hex_base (lyt_topology l) = Some arr" and "lyt_neighbour l c d"
  shows "\<bar>uint (ux d) - uint (ux c)\<bar> \<le> 1" and "\<bar>uint (uy d) - uint (uy c)\<bar> \<le> 1"
    and "\<bar>cube_y (to_cube_coordinate arr d) - cube_y (to_cube_coordinate arr c)\<bar> \<le> 1"
proof -
  have adj: "hex_adjacent_cube (to_cube_coordinate arr c) (to_cube_coordinate arr d)"
    using assms by (simp add: lyt_neighbour_def hex_cube_adjacent_iff)
  show "\<bar>uint (ux d) - uint (ux c)\<bar> \<le> 1" "\<bar>uint (uy d) - uint (uy c)\<bar> \<le> 1"
    using hex_col_row_step [OF adj, of arr] by simp_all
  show "\<bar>cube_y (to_cube_coordinate arr d) - cube_y (to_cube_coordinate arr c)\<bar> \<le> 1"
    using adj unfolding hex_adjacent_cube_cases to_cube_simps(3) by auto
qed

lemma linear_position_step:
  assumes "is_linear_scheme s" and "linear_on (lyt_topology l) s" and "lyt_neighbour l c d"
  shows "\<bar>int (linear_position (lyt_topology l) s d) - int (linear_position (lyt_topology l) s c)\<bar> \<le> 1"
proof (cases "hex_base (lyt_topology l)")
  case None
  then have t: "lyt_topology l = Cartesian" by (cases "lyt_topology l") simp_all
  with cart_step [OF t assms(3)] show ?thesis
    by (auto simp: linear_position_def step_of_def cart_steps_def)
next
  case (Some arr)
  note st = hex_neighbour_step [OF Some assms(3)]
  have h: "int (hex_line arr (unat (ux x)) (unat (uy x))) = - cube_y (to_cube_coordinate arr x)" for x
    by (rule hex_line_cube)
  consider "cs_name s = ''COLUMNAR''" | "cs_name s = ''ROW''"
    | "cs_name s = ''2DDWAVEHEX''" "lyt_topology l = Hexagonal arr"
    using assms(1,2) Some
    by (cases "lyt_topology l") (auto simp: is_linear_scheme_def scheme_eq_name_def linear_on_def)
  then show ?thesis
  proof cases
    case 3
    then show ?thesis using st(3) by (simp add: linear_position_def h)
  qed (use st in \<open>simp_all add: linear_position_def\<close>)
qed

lemma outgoing_advances:
  assumes "get_clocking_scheme (lyt_topology l) name = Some (cl_clocking l)"
    and "is_linear_scheme (cl_clocking l)" and "linear_on (lyt_topology l) (cl_clocking l)"
    and "lyt_neighbour l c d"
  shows "is_outgoing_clocked l c d \<longleftrightarrow>
    linear_position (lyt_topology l) (cl_clocking l) d = linear_position (lyt_topology l) (cl_clocking l) c + 1"
proof (rule outgoing_on_a_line)
  show "scheme_wf (cl_clocking l)"
    using get_clocking_scheme_mem [OF assms(1)] scheme_lookup_wf by blast
qed (use assms linear_on_a_line linear_position_step in blast)+

definition clock_flow :: "'a clocked_layout_scheme \<Rightarrow> (ucoord_t \<times> ucoord_t) set" where
  "clock_flow l = {(c, d). lyt_in_grid l c \<and> d \<in> set (outgoing_zones l c)}"

lemma linear_flow_acyclic:
  assumes "lyt_enumerable l"
    and "get_clocking_scheme (lyt_topology l) name = Some (cl_clocking l)"
    and "is_linear_scheme (cl_clocking l)" and "linear_on (lyt_topology l) (cl_clocking l)"
  shows "acyclic (clock_flow l)"
proof -
  have "clock_flow l \<subseteq> measure (linear_position (lyt_topology l) (cl_clocking l))"
  proof (rule subrelI)
    fix c d
    assume "(c, d) \<in> clock_flow l"
    then have "lyt_neighbour l c d" and "is_outgoing_clocked l c d"
      by (auto simp: clock_flow_def incoming_zones_set [OF assms(1)])
    then show "(c, d) \<in> measure (linear_position (lyt_topology l) (cl_clocking l))"
      by (simp add: outgoing_advances [OF assms(2-4)])
  qed
  then show ?thesis by (meson acyclic_subset wf_acyclic wf_measure)
qed

section \<open>Degrees of the regular schemes\<close>

text \<open>The number of steps of the Cartesian neighbourhood that lead to a zone clocked one earlier
  (or one later), for each entry of a cutout.\<close>

definition cutout_int :: "u8 list list \<Rightarrow> nat \<Rightarrow> nat \<Rightarrow> int \<Rightarrow> int \<Rightarrow> u8" where
  "cutout_int cutout h w i j = cutout ! nat (i mod int h) ! nat (j mod int w)"

definition clock_succ :: "nat \<Rightarrow> u8 \<Rightarrow> u8" where
  "clock_succ n k = of_nat ((unat k + 1) mod n)"

definition in_steps :: "u8 list list \<Rightarrow> nat \<Rightarrow> nat \<Rightarrow> nat \<Rightarrow> int \<Rightarrow> int \<Rightarrow> (int \<times> int) list" where
  "in_steps cutout h w n i j =
     filter (\<lambda>(dx, dy). clock_succ n (cutout_int cutout h w (i + dy) (j + dx)) = cutout_int cutout h w i j)
       cart_steps"

definition out_steps :: "u8 list list \<Rightarrow> nat \<Rightarrow> nat \<Rightarrow> nat \<Rightarrow> int \<Rightarrow> int \<Rightarrow> (int \<times> int) list" where
  "out_steps cutout h w n i j =
     filter (\<lambda>(dx, dy). clock_succ n (cutout_int cutout h w i j) = cutout_int cutout h w (i + dy) (j + dx))
       cart_steps"

definition cutout_degrees_ok :: "u8 list list \<Rightarrow> nat \<Rightarrow> nat \<Rightarrow> nat \<Rightarrow> nat \<Rightarrow> nat \<Rightarrow> bool" where
  "cutout_degrees_ok cutout h w n mi mo =
     list_all (\<lambda>i. list_all (\<lambda>j. length (in_steps cutout h w n i j) \<le> mi \<and>
                                 length (out_steps cutout h w n i j) \<le> mo) [0..int w - 1]) [0..int h - 1]"

lemma cutout_degrees:
  "cutout_degrees_ok columnar_3_cutout 3 3 3 3 2" "cutout_degrees_ok columnar_4_cutout 4 4 4 3 2"
  "cutout_degrees_ok row_3_cutout 3 3 3 3 2" "cutout_degrees_ok row_4_cutout 4 4 4 3 2"
  "cutout_degrees_ok twoddwave_3_cutout 3 3 3 2 2" "cutout_degrees_ok twoddwave_4_cutout 4 4 4 2 2"
  "cutout_degrees_ok use_cutout 4 4 4 2 2" "cutout_degrees_ok res_cutout 4 4 4 3 3"
  "cutout_degrees_ok esr_cutout 4 4 4 3 3" "cutout_degrees_ok cfe_cutout 4 4 4 3 3"
  "cutout_degrees_ok bancs_cutout 6 3 3 2 2"
  by code_simp+

lemma cutout_yx_int: "cutout_yx cutout h w c = cutout_int cutout h w (uint (uy c)) (uint (ux c))"
proof -
  have "unat v mod k = nat (uint v mod int k)" for v :: "31 word" and k
    by (simp only: uint_nat nat_int flip: zmod_int)
  then show ?thesis by (simp add: cutout_yx_def cutout_at_def cutout_int_def)
qed

lemma steps_periodic:
  "in_steps cutout h w n (i mod int h) (j mod int w) = in_steps cutout h w n i j"
  "out_steps cutout h w n (i mod int h) (j mod int w) = out_steps cutout h w n i j"
  by (simp_all add: in_steps_def out_steps_def cutout_int_def mod_add_left_eq)

lemma cutout_degrees_bound:
  assumes "cutout_degrees_ok cutout h w n mi mo" and "0 < h" and "0 < w"
  shows "length (in_steps cutout h w n i j) \<le> mi" and "length (out_steps cutout h w n i j) \<le> mo"
proof -
  have "i mod int h \<in> set [0..int h - 1]" "j mod int w \<in> set [0..int w - 1]"
    using assms(2,3) pos_mod_bound [of "int h" i] pos_mod_bound [of "int w" j] by simp_all
  with assms(1) show "length (in_steps cutout h w n i j) \<le> mi" "length (out_steps cutout h w n i j) \<le> mo"
    unfolding cutout_degrees_ok_def list_all_iff using steps_periodic [of cutout h w n i j] by metis+
qed

lemma cartesian_degrees:
  assumes en: "lyt_enumerable l" and c: "lyt_in_grid l c" and t: "lyt_topology l = Cartesian"
    and reg: "cs_regular (cl_clocking l)" and fn: "cs_fn (cl_clocking l) = cutout_yx cutout h w"
    and ok: "cutout_degrees_ok cutout h w (unat (cs_num_clocks (cl_clocking l))) mi mo" "0 < h" "0 < w"
  shows "unat (in_degree l c) \<le> mi" and "unat (out_degree l c) \<le> mo"
proof -
  let ?n = "unat (cs_num_clocks (cl_clocking l))" and ?i = "uint (uy c)" and ?j = "uint (ux c)"
  have num: "get_clock_number l x = cutout_int cutout h w (uint (uy x)) (uint (ux x))" for x
    using reg by (simp add: get_clock_number_def scheme_clock_def fn cutout_yx_int)
  have inc: "clock_succ ?n (get_clock_number l d) = get_clock_number l c" if "is_incoming_clocked l c d" for d
    using that by (simp add: is_incoming_clocked_def next_clock_def num_clocks_def clock_succ_def split: if_splits)
  have out: "clock_succ ?n (get_clock_number l c) = get_clock_number l d" if "is_outgoing_clocked l c d" for d
    using that by (simp add: is_outgoing_clocked_def next_clock_def num_clocks_def clock_succ_def split: if_splits)
  have nb: "step_of c d \<in> set cart_steps" if "d \<in> set (lyt_adjacent_tiles l c)" for d
    using that cart_step [OF t] by (simp add: lyt_adjacent_tiles_set [OF en c])
  have "length (filter (is_incoming_clocked l c) (lyt_adjacent_tiles l c)) \<le>
      card (set (in_steps cutout h w ?n ?i ?j))"
    by (rule length_filter_steps [OF en c])
      (use nb inc in \<open>simp_all add: in_steps_def step_of_def num\<close>)
  also have "\<dots> \<le> mi" using card_length cutout_degrees_bound(1) [OF ok] order_trans by blast
  finally show "unat (in_degree l c) \<le> mi" by (simp only: unat_degrees)
  have "length (filter (is_outgoing_clocked l c) (lyt_adjacent_tiles l c)) \<le>
      card (set (out_steps cutout h w ?n ?i ?j))"
    by (rule length_filter_steps [OF en c])
      (use nb out in \<open>simp_all add: out_steps_def step_of_def num\<close>)
  also have "\<dots> \<le> mo" using card_length cutout_degrees_bound(2) [OF ok] order_trans by blast
  finally show "unat (out_degree l c) \<le> mo" by (simp only: unat_degrees)
qed

lemma regular_cartesian_degrees:
  assumes "lyt_enumerable l" and "lyt_in_grid l c" and "lyt_topology l = Cartesian"
    and "get_clocking_scheme Cartesian name = Some (cl_clocking l)" and "is_regularly_clocked l"
  shows "unat (in_degree l c) \<le> unat (cs_max_in_degree (cl_clocking l)) \<and>
    unat (out_degree l c) \<le> unat (cs_max_out_degree (cl_clocking l))"
proof -
  have reg: "cs_regular (cl_clocking l)" using assms(5) by (simp add: is_regularly_clocked_def is_regular_def)
  note bound = cartesian_degrees [OF assms(1-3) reg]
  obtain k where "(k, cl_clocking l) \<in> set (scheme_lookup Cartesian)"
    using get_clocking_scheme_mem [OF assms(4)] by blast
  then have "cl_clocking l \<in> set (map snd (scheme_lookup Cartesian))" by (auto intro: rev_image_eqI)
  then show ?thesis
    using reg bound cutout_degrees unfolding scheme_lookup_def list.map snd_conv list.set
    by (elim insertE emptyE) (simp_all add: scheme_defs max_fanin_size_def)
qed

text \<open>On a hexagonal layout the two steps to a later position of hexagonal 2DDWave are the cube
  directions that lower the y-coordinate.\<close>

definition cube_step :: "hex_arrangement \<Rightarrow> ucoord_t \<Rightarrow> ucoord_t \<Rightarrow> int \<times> int" where
  "cube_step arr c d =
     (cube_x (to_cube_coordinate arr d) - cube_x (to_cube_coordinate arr c),
      cube_z (to_cube_coordinate arr d) - cube_z (to_cube_coordinate arr c))"

lemma cube_step_inject: "cube_step arr c a = cube_step arr c b \<Longrightarrow> ux a = ux b \<and> uy a = uy b"
proof -
  assume "cube_step arr c a = cube_step arr c b"
  then have "cube_x (to_cube_coordinate arr a) = cube_x (to_cube_coordinate arr b)"
    "cube_z (to_cube_coordinate arr a) = cube_z (to_cube_coordinate arr b)"
    by (simp_all add: cube_step_def)
  then have "hex_col arr (to_cube_coordinate arr a) = hex_col arr (to_cube_coordinate arr b)"
    "hex_row arr (to_cube_coordinate arr a) = hex_row arr (to_cube_coordinate arr b)"
    by (cases "hex_orientation_of arr"; simp add: hex_col_def hex_row_def)+
  then show ?thesis by (simp add: word_uint_eq_iff)
qed

lemma hex_wave_degrees:
  assumes en: "lyt_enumerable l" and c: "lyt_in_grid l c" and t: "lyt_topology l = Hexagonal arr"
    and s: "get_clocking_scheme (lyt_topology l) name = Some (cl_clocking l)"
    and nm: "cs_name (cl_clocking l) = ''2DDWAVEHEX''"
  shows "unat (in_degree l c) \<le> 2" and "unat (out_degree l c) \<le> 2"
proof -
  have lin: "is_linear_scheme (cl_clocking l)" "linear_on (lyt_topology l) (cl_clocking l)"
    by (simp_all add: is_linear_scheme_def scheme_eq_name_def linear_on_def nm t)
  have pos: "int (linear_position (lyt_topology l) (cl_clocking l) x) = - cube_y (to_cube_coordinate arr x)" for x
    by (simp add: linear_position_def nm t hex_line_cube)
  have out: "is_outgoing_clocked l a b \<longleftrightarrow>
      cube_y (to_cube_coordinate arr b) = cube_y (to_cube_coordinate arr a) - 1" if "lyt_neighbour l a b" for a b
    using outgoing_advances [OF s lin that] pos [of a] pos [of b] by linarith
  have six: "cube_step arr c d \<in> {(1, 0), (1, -1), (0, -1), (-1, 0), (-1, 1), (0, 1)}"
    if "lyt_neighbour l c d" for d
    using that t by (simp add: lyt_neighbour_def hex_cube_adjacent_iff hex_adjacent_cube_cases cube_step_def)
  have nb: "lyt_neighbour l c d" if "d \<in> set (lyt_adjacent_tiles l c)" for d
    using that by (simp add: lyt_adjacent_tiles_set [OF en c])
  have "cube_step arr c d \<in> {(-1, 0), (0, -1)}"
    if "d \<in> set (lyt_adjacent_tiles l c)" and "is_incoming_clocked l c d" for d
    using six [OF nb [OF that(1)]] out [OF lyt_neighbour_sym [OF nb [OF that(1)]]] that(2)
    by (auto simp: is_incoming_outgoing cube_step_def to_cube_simps(3))
  then have "length (filter (is_incoming_clocked l c) (lyt_adjacent_tiles l c)) \<le> card ({(-1, 0), (0, -1)} :: (int \<times> int) set)"
    by (rule length_filter_image [where f = "cube_step arr c", OF en c _ _ cube_step_inject, rotated]) simp_all
  then show "unat (in_degree l c) \<le> 2" by (simp add: unat_degrees)
  have "cube_step arr c d \<in> {(1, 0), (0, 1)}"
    if "d \<in> set (lyt_adjacent_tiles l c)" and "is_outgoing_clocked l c d" for d
    using six [OF nb [OF that(1)]] out [OF nb [OF that(1)]] that(2)
    by (auto simp: cube_step_def to_cube_simps(3))
  then have "length (filter (is_outgoing_clocked l c) (lyt_adjacent_tiles l c)) \<le> card ({(1, 0), (0, 1)} :: (int \<times> int) set)"
    by (rule length_filter_image [where f = "cube_step arr c", OF en c _ _ cube_step_inject, rotated]) simp_all
  then show "unat (out_degree l c) \<le> 2" by (simp add: unat_degrees)
qed

section \<open>Properties\<close>

text \<open>C24. Information flow is a handshake: over a whole layout, the incoming degrees of all zones add
  up to the outgoing degrees. This holds for every topology and every clocking, also with overridden
  clock numbers.\<close>

theorem degrees_handshake:
  assumes "lyt_enumerable l"
  shows "(\<Sum>c | lyt_in_grid l c. unat (in_degree l c)) = (\<Sum>c | lyt_in_grid l c. unat (out_degree l c))"
  using lyt.handshake [OF assms, of "is_outgoing_clocked l"]
  by (simp add: unat_degrees is_incoming_outgoing [abs_def])

lemma degrees_handshake_witness:
  "(\<Sum>c | lyt_in_grid (open_clocked_layout Cartesian (ucoord3 3 2 1)) c.
      unat (in_degree (open_clocked_layout Cartesian (ucoord3 3 2 1)) c)) =
   (\<Sum>c | lyt_in_grid (open_clocked_layout Cartesian (ucoord3 3 2 1)) c.
      unat (out_degree (open_clocked_layout Cartesian (ucoord3 3 2 1)) c))"
  by (rule degrees_handshake)
    (simp add: lyt_enumerable_def enumerable_def open_clocked_layout_def make_clocked_layout_def ucoord3_def)

text \<open>The incoming zones of a zone are the neighbours in the layout that are clocked one earlier,
  the outgoing zones those that are clocked one later, in the order of the set; each is an incoming
  zone of the other's outgoing zones.\<close>

theorem zones_dual:
  assumes "lyt_enumerable l" and "lyt_in_grid l c" and "lyt_in_grid l d"
  shows "(d \<in> set (outgoing_zones l c) \<longleftrightarrow> lyt_neighbour l c d \<and> is_outgoing_clocked l c d) \<and>
    (d \<in> set (outgoing_zones l c) \<longleftrightarrow> c \<in> set (incoming_zones l d)) \<and>
    sorted_wrt ucoord_less (outgoing_zones l c)"
  using assms lyt_neighbour_sym
  by (auto simp: incoming_zones_set is_incoming_outgoing zones_sorted)

lemma zones_dual_witness:
  "(ucoord3 2 1 0 \<in> set (outgoing_zones (make_clocked_layout Cartesian (ucoord3 3 2 1) (use_clocking Cartesian)) (ucoord3 1 1 0)) \<longleftrightarrow>
     lyt_neighbour (make_clocked_layout Cartesian (ucoord3 3 2 1) (use_clocking Cartesian)) (ucoord3 1 1 0) (ucoord3 2 1 0) \<and>
     is_outgoing_clocked (make_clocked_layout Cartesian (ucoord3 3 2 1) (use_clocking Cartesian)) (ucoord3 1 1 0) (ucoord3 2 1 0)) \<and>
   (ucoord3 2 1 0 \<in> set (outgoing_zones (make_clocked_layout Cartesian (ucoord3 3 2 1) (use_clocking Cartesian)) (ucoord3 1 1 0)) \<longleftrightarrow>
     ucoord3 1 1 0 \<in> set (incoming_zones (make_clocked_layout Cartesian (ucoord3 3 2 1) (use_clocking Cartesian)) (ucoord3 2 1 0))) \<and>
   sorted_wrt ucoord_less (outgoing_zones (make_clocked_layout Cartesian (ucoord3 3 2 1) (use_clocking Cartesian)) (ucoord3 1 1 0))"
  by (rule zones_dual)
    (simp_all add: lyt_enumerable_def enumerable_def lyt_in_grid_def in_grid_def make_clocked_layout_def ucoord3_def)

text \<open>C19. On a Cartesian layout, no zone exceeds the maximum in- and out-degree that its regular
  pre-defined clocking scheme states.\<close>

theorem cartesian_degrees_bounded:
  assumes "lyt_enumerable l" and "lyt_in_grid l c" and "lyt_topology l = Cartesian"
    and "get_clocking_scheme Cartesian name = Some (cl_clocking l)" and "is_regularly_clocked l"
  shows "in_degree l c \<le> cs_max_in_degree (cl_clocking l) \<and> out_degree l c \<le> cs_max_out_degree (cl_clocking l)"
  using regular_cartesian_degrees [OF assms] by (simp add: word_le_nat_alt)

lemma cartesian_degrees_bounded_witness:
  "in_degree (make_clocked_layout Cartesian (ucoord3 30 20 0) (use_clocking Cartesian)) (ucoord3 17 9 0) \<le> 2 \<and>
   out_degree (make_clocked_layout Cartesian (ucoord3 30 20 0) (use_clocking Cartesian)) (ucoord3 17 9 0) \<le> 2"
proof -
  let ?l = "make_clocked_layout Cartesian (ucoord3 30 20 0) (use_clocking Cartesian)"
  have "in_degree ?l (ucoord3 17 9 0) \<le> cs_max_in_degree (cl_clocking ?l) \<and>
      out_degree ?l (ucoord3 17 9 0) \<le> cs_max_out_degree (cl_clocking ?l)"
    by (rule cartesian_degrees_bounded [where name = "''use''"])
      (simp_all add: lyt_enumerable_def enumerable_def lyt_in_grid_def in_grid_def make_clocked_layout_def
        ucoord3_def lookup_use is_regularly_clocked_def is_regular_def use_clocking_def)
  then show ?thesis by (simp add: make_clocked_layout_def use_clocking_def max_fanin_size_def)
qed

text \<open>On a hexagonal layout under hexagonal 2DDWave, with three or four clocks, every zone has at
  most two incoming and two outgoing zones.\<close>

theorem hexagonal_wave_degrees:
  assumes "lyt_enumerable l" and "lyt_in_grid l c" and "lyt_topology l = Hexagonal arr"
    and "cl_clocking l = twoddwave_hex_clocking (Hexagonal arr) n"
  shows "in_degree l c \<le> 2 \<and> out_degree l c \<le> 2"
proof -
  have "\<exists>name. get_clocking_scheme (lyt_topology l) name = Some (cl_clocking l)"
    using lookup_wave_hex [of "Hexagonal arr"] lookup_wave_hex3 [of "Hexagonal arr"] assms(3,4)
    by (cases n) auto
  moreover have "cs_name (cl_clocking l) = ''2DDWAVEHEX''"
    using assms(4) by (cases n) (simp_all add: twoddwave_hex_clocking_def)
  ultimately show ?thesis using hex_wave_degrees [OF assms(1-3)] by (auto simp: word_le_nat_alt)
qed

lemma hexagonal_wave_degrees_witness:
  "in_degree (make_clocked_layout (Hexagonal even_row_hex) (ucoord3 30 20 0)
      (twoddwave_hex_clocking (Hexagonal even_row_hex) THREE)) (ucoord3 17 9 0) \<le> 2 \<and>
   out_degree (make_clocked_layout (Hexagonal even_row_hex) (ucoord3 30 20 0)
      (twoddwave_hex_clocking (Hexagonal even_row_hex) THREE)) (ucoord3 17 9 0) \<le> 2"
  by (rule hexagonal_wave_degrees)
    (simp_all add: lyt_enumerable_def enumerable_def lyt_in_grid_def in_grid_def make_clocked_layout_def ucoord3_def)

text \<open>C8. Under the linear schemes the clock lets no information flow in a cycle: the relation from a
  zone to its outgoing zones is acyclic, on Cartesian layouts for COLUMNAR, ROW and 2DDWAVE, on
  shifted layouts for COLUMNAR and ROW, on hexagonal layouts for COLUMNAR, ROW and 2DDWAVEHEX.\<close>

theorem linear_schemes_cycle_free:
  assumes "lyt_enumerable l"
    and "get_clocking_scheme (lyt_topology l) name = Some (cl_clocking l)"
    and "is_linear_scheme (cl_clocking l)" and "linear_on (lyt_topology l) (cl_clocking l)"
  shows "acyclic {(c, d). lyt_in_grid l c \<and> d \<in> set (outgoing_zones l c)}"
  using linear_flow_acyclic [OF assms] by (simp add: clock_flow_def)

lemma linear_schemes_cycle_free_witness:
  "acyclic {(c, d). lyt_in_grid (make_clocked_layout Cartesian (ucoord3 9 9 0) (twoddwave_clocking Cartesian FOUR)) c \<and>
     d \<in> set (outgoing_zones (make_clocked_layout Cartesian (ucoord3 9 9 0) (twoddwave_clocking Cartesian FOUR)) c)}"
  by (rule linear_schemes_cycle_free [where name = "''2DDWave''"])
    (simp_all add: lyt_enumerable_def enumerable_def make_clocked_layout_def ucoord3_def lookup_wave
      is_linear_scheme_def scheme_eq_name_def linear_on_def, simp add: twoddwave_clocking_def)

text \<open>Assigning a synchronization element is a map update: reading it back gives the value for the
  zone and leaves all others, and assigning 0 turns the zone back into a normal one. The count of
  elements is the number of zones that are synchronization elements.\<close>

theorem synchronization_elements:
  assumes "se_wf l"
  shows "se_wf (assign_synchronization_element cz se l) \<and>
    get_synchronization_element (assign_synchronization_element cz se l) cz' =
      (if cz' = cz then se else get_synchronization_element l cz') \<and>
    num_se l = of_nat (card {c. is_synchronization_element l c})"
  by (simp add: assign_se_wf [OF assms] get_assign_se num_se_card [OF assms])

lemma synchronization_elements_witness:
  "se_wf (assign_synchronization_element (ucoord3 1 0 0) 3
     \<lparr>lyt_topology = Cartesian, lyt_dimension = ucoord3 3 3 0, cl_clocking = use_clocking Cartesian, se_map = []\<rparr>) \<and>
   get_synchronization_element (assign_synchronization_element (ucoord3 1 0 0) 3
     \<lparr>lyt_topology = Cartesian, lyt_dimension = ucoord3 3 3 0, cl_clocking = use_clocking Cartesian, se_map = []\<rparr>)
     (ucoord3 1 0 0) = (if ucoord3 1 0 0 = ucoord3 1 0 0 then 3 else get_synchronization_element
     \<lparr>lyt_topology = Cartesian, lyt_dimension = ucoord3 3 3 0, cl_clocking = use_clocking Cartesian, se_map = []\<rparr>
     (ucoord3 1 0 0)) \<and>
   num_se \<lparr>lyt_topology = Cartesian, lyt_dimension = ucoord3 3 3 0, cl_clocking = use_clocking Cartesian, se_map = []\<rparr> =
     of_nat (card {c. is_synchronization_element
     \<lparr>lyt_topology = Cartesian, lyt_dimension = ucoord3 3 3 0, cl_clocking = use_clocking Cartesian, se_map = []\<rparr> c})"
  by (rule synchronization_elements) (simp add: se_wf_def)

text \<open>On a hexagonal layout the COLUMNAR scheme, which states a maximum out-degree of two, has a
  zone with three outgoing zones, and the three-phase 2DDWave scheme, which \<open>is_linear_scheme\<close> lists
  as free of cycles, lets information flow in a circle.\<close>

theorem cartesian_schemes_on_hexagons:
  "unat (out_degree (make_clocked_layout (Hexagonal odd_row_hex) (ucoord3 3 3 0)
      (columnar_clocking (Hexagonal odd_row_hex) FOUR)) (ucoord3 1 1 0)) = 3 \<and>
   cs_max_out_degree (columnar_clocking (Hexagonal odd_row_hex) FOUR) = 2 \<and>
   is_linear_scheme (twoddwave_clocking (Hexagonal odd_row_hex) THREE) \<and>
   \<not> acyclic {(c, d). lyt_in_grid (make_clocked_layout (Hexagonal odd_row_hex) (ucoord3 3 3 0)
        (twoddwave_clocking (Hexagonal odd_row_hex) THREE)) c \<and>
      d \<in> set (outgoing_zones (make_clocked_layout (Hexagonal odd_row_hex) (ucoord3 3 3 0)
        (twoddwave_clocking (Hexagonal odd_row_hex) THREE)) c)}"
proof (intro conjI)
  let ?l = "make_clocked_layout (Hexagonal odd_row_hex) (ucoord3 3 3 0)
      (columnar_clocking (Hexagonal odd_row_hex) FOUR)"
  show "unat (out_degree ?l (ucoord3 1 1 0)) = 3" by code_simp
  show "cs_max_out_degree (columnar_clocking (Hexagonal odd_row_hex) FOUR) = 2"
    by (simp add: columnar_clocking_def)
  show "is_linear_scheme (twoddwave_clocking (Hexagonal odd_row_hex) THREE)"
    by (simp add: is_linear_scheme_def scheme_eq_name_def twoddwave_clocking_def)
  let ?w = "make_clocked_layout (Hexagonal odd_row_hex) (ucoord3 3 3 0)
      (twoddwave_clocking (Hexagonal odd_row_hex) THREE)"
  let ?R = "{(c, d). lyt_in_grid ?w c \<and> d \<in> set (outgoing_zones ?w c)}"
  have "(ucoord3 1 2 0, ucoord3 0 1 0) \<in> ?R" "(ucoord3 0 1 0, ucoord3 1 1 0) \<in> ?R"
    "(ucoord3 1 1 0, ucoord3 1 2 0) \<in> ?R"
    unfolding mem_Collect_eq case_prod_conv by code_simp+
  then have "(ucoord3 1 2 0, ucoord3 1 2 0) \<in> ?R\<^sup>+"
    by (meson trancl.r_into_trancl trancl_trans)
  then show "\<not> acyclic ?R" by (auto simp: acyclic_def)
qed

end
