(* ===== verification/Gate_Level_Layout.thy ===== *)
theory Gate_Level_Layout
  imports Clocked_Layout
begin

text \<open>
  Model of \<open>layouts/gate_level_layout.hpp\<close>. The record extends that of the clocked layout by the
  storage of the class (\<open>strg\<close>, \<open>sequential_inf\<close> and the events). A node of the storage is the
  record \<open>gl_node\<close>; \<open>data[0].h1\<close>, \<open>data[0].h2\<close>, \<open>data[1].h1\<close> and \<open>data[1].h2\<close> are its fields \<open>gn_fanout\<close>
  (with the dead flag in bit 31), \<open>gn_value\<close>, \<open>gn_function\<close> and \<open>gn_visited\<close>. A signal is the 64-bit
  word of a tile, as in the code.

  The truth tables and their cache belong to libraries. Their operations are the record \<open>'tt kitty\<close>,
  an argument of the definitions that call them; the layout keeps the list of the tables inserted
  into its cache. The callbacks of \<open>events\<close> are client code; \<open>gl_on_add\<close> lists the nodes announced to
  them. Reading \<open>nodes\<close> or \<open>outputs\<close> out of range is undefined in C++, and no lemma says
  anything about it: the index is bounded by the invariant or by a hypothesis.
\<close>

section \<open>Storage\<close>

type_synonym node = u32
type_synonym signal = u64

record gl_node =
  gn_children :: "signal list"
  gn_fanout :: u32
  gn_value :: u32
  gn_function :: u32
  gn_visited :: u32

record 'tt kitty =
  tt_insert :: "'tt list \<Rightarrow> 'tt \<Rightarrow> u32"
  tt_lookup :: "'tt list \<Rightarrow> u32 \<Rightarrow> 'tt"
  tt_zero :: "u32 \<Rightarrow> 'tt"
  tt_from_words :: "u32 \<Rightarrow> u64 \<Rightarrow> 'tt"
  tt_is_const0 :: "'tt \<Rightarrow> bool"
  tt_num_bits :: "'tt \<Rightarrow> nat"
  tt_construct :: "'tt \<Rightarrow> 'tt"
  tt_get_bit :: "'tt \<Rightarrow> nat \<Rightarrow> bool"
  tt_set_bit :: "'tt \<Rightarrow> nat \<Rightarrow> 'tt"

record 'tt gate_level_layout = clocked_layout +
  gl_nodes :: "gl_node list"
  gl_inputs :: "node list"
  gl_outputs :: "signal list"
  gl_fn_cache :: "'tt list"
  gl_tile_node_map :: "signal \<rightharpoonup> node"
  gl_node_tile_map :: "node \<rightharpoonup> signal"
  gl_num_gates :: u32
  gl_num_wires :: u32
  gl_trav_id :: u32
  gl_layout_name :: string
  gl_node_names :: "node \<rightharpoonup> string"
  gl_num_pis :: u32
  gl_num_pos :: u32
  gl_num_registers :: nat
  gl_on_add :: "node list"

definition empty_node :: gl_node where
  "empty_node = \<lparr>gn_children = [], gn_fanout = 0, gn_value = 0, gn_function = 0, gn_visited = 0\<rparr>"

definition const0 :: signal where
  "const0 = 0x8000000000000000"

definition const1 :: signal where
  "const1 = 0xc000000000000000"

text \<open>The storage has one node from the start, the constant 0.\<close>

definition initialize_truth_table_cache :: "'tt kitty \<Rightarrow> 'tt gate_level_layout \<Rightarrow> 'tt gate_level_layout" where
  "initialize_truth_table_cache k l =
     (let nodes = gl_nodes l @ [empty_node];
          nodes0 = nodes[0 := (nodes ! 0)\<lparr>gn_function := 0\<rparr>];
          nodes1 = nodes0[1 := (nodes0 ! 1)\<lparr>gn_function := 1\<rparr>]
      in l\<lparr>gl_nodes := nodes1,
           gl_fn_cache := gl_fn_cache l @
             [tt_zero k 0, tt_from_words k 1 0x1, tt_from_words k 2 0x8,
              tt_from_words k 2 0xe, tt_from_words k 2 0x6, tt_from_words k 3 0xe8]\<rparr>)"

definition make_gate_level_layout ::
    "'tt kitty \<Rightarrow> topology \<Rightarrow> ucoord_t \<Rightarrow> clocking_scheme \<Rightarrow> string \<Rightarrow> 'tt gate_level_layout" where
  "make_gate_level_layout k t ar scheme name =
     (let l = initialize_truth_table_cache k
       \<lparr>lyt_topology = t, lyt_dimension = ar, cl_clocking = scheme,
        gl_nodes = [empty_node], gl_inputs = [], gl_outputs = [], gl_fn_cache = [],
        gl_tile_node_map = [const0 \<mapsto> 0, const1 \<mapsto> 1], gl_node_tile_map = [0 \<mapsto> const0, 1 \<mapsto> const1],
        gl_num_gates = 0, gl_num_wires = 0, gl_trav_id = 0, gl_layout_name = [],
        gl_node_names = Map.empty, gl_num_pis = 0, gl_num_pos = 0, gl_num_registers = 0, gl_on_add = []\<rparr>
      in l\<lparr>gl_layout_name := name\<rparr>)"

definition open_gate_level_layout :: "'tt kitty \<Rightarrow> topology \<Rightarrow> ucoord_t \<Rightarrow> string \<Rightarrow> 'tt gate_level_layout" where
  "open_gate_level_layout k t ar name = make_gate_level_layout k t ar (open_clocking t FOUR) name"

section \<open>Nodes and signals\<close>

definition node_at :: "'tt gate_level_layout \<Rightarrow> node \<Rightarrow> gl_node" where
  "node_at l n = gl_nodes l ! unat n"

definition update_node :: "node \<Rightarrow> (gl_node \<Rightarrow> gl_node) \<Rightarrow> 'tt gate_level_layout \<Rightarrow> 'tt gate_level_layout" where
  "update_node n f l = l\<lparr>gl_nodes := (gl_nodes l)[unat n := f (node_at l n)]\<rparr>"

definition get_constant :: "bool \<Rightarrow> signal" where
  "get_constant value = (if value then const1 else const0)"

definition is_constant :: "node \<Rightarrow> bool" where
  "is_constant n = (n \<le> 1)"

definition constant_value :: "node \<Rightarrow> bool" where
  "constant_value n = (n = 1)"

definition get_node :: "'tt gate_level_layout \<Rightarrow> signal \<Rightarrow> node" where
  "get_node l s = (case gl_tile_node_map l s of Some n \<Rightarrow> n | None \<Rightarrow> 0)"

definition get_node_of_tile :: "'tt gate_level_layout \<Rightarrow> ucoord_t \<Rightarrow> node" where
  "get_node_of_tile l t = get_node l (u64_of_ucoord t)"

definition get_tile :: "'tt gate_level_layout \<Rightarrow> node \<Rightarrow> ucoord_t" where
  "get_tile l n = (case gl_node_tile_map l n of Some s \<Rightarrow> ucoord_of_u64 s | None \<Rightarrow> ucoord_default)"

definition node_is_dead :: "'tt gate_level_layout \<Rightarrow> node \<Rightarrow> bool" where
  "node_is_dead l n = (drop_bit 31 (gn_fanout (node_at l n)) AND 1 \<noteq> 0)"

definition make_signal :: "'tt gate_level_layout \<Rightarrow> node \<Rightarrow> signal" where
  "make_signal l n = u64_of_ucoord (get_tile l n)"

definition is_child :: "'tt gate_level_layout \<Rightarrow> node \<Rightarrow> signal \<Rightarrow> bool" where
  "is_child l n s = (s \<in> set (gn_children (node_at l n)))"

definition num_pis :: "'tt gate_level_layout \<Rightarrow> u32" where "num_pis l = gl_num_pis l"
definition num_pos :: "'tt gate_level_layout \<Rightarrow> u32" where "num_pos l = gl_num_pos l"
definition num_cis :: "'tt gate_level_layout \<Rightarrow> nat" where "num_cis l = length (gl_inputs l)"
definition num_cos :: "'tt gate_level_layout \<Rightarrow> nat" where "num_cos l = length (gl_outputs l)"
definition num_ros :: "'tt gate_level_layout \<Rightarrow> nat" where "num_ros l = gl_num_registers l"
definition num_ris :: "'tt gate_level_layout \<Rightarrow> nat" where "num_ris l = gl_num_registers l"

definition num_registers :: "'tt gate_level_layout \<Rightarrow> u32" where
  "num_registers l = of_nat (gl_num_registers l)"

definition gl_size :: "'tt gate_level_layout \<Rightarrow> u32" where
  "gl_size l = of_nat (length (gl_nodes l))"

definition num_gates :: "'tt gate_level_layout \<Rightarrow> u32" where "num_gates l = gl_num_gates l"
definition num_wires :: "'tt gate_level_layout \<Rightarrow> u32" where "num_wires l = gl_num_wires l"

definition is_empty :: "'tt gate_level_layout \<Rightarrow> bool" where
  "is_empty l = (num_gates l + num_wires l = 0)"

definition is_pi :: "'tt gate_level_layout \<Rightarrow> node \<Rightarrow> bool" where
  "is_pi l n = (n \<in> set (take (unat (num_pis l)) (gl_inputs l)))"

definition is_ro :: "'tt gate_level_layout \<Rightarrow> node \<Rightarrow> bool" where
  "is_ro l n = (n \<in> set (take (num_ros l) (drop (unat (num_pis l)) (gl_inputs l))))"

definition is_ci :: "'tt gate_level_layout \<Rightarrow> node \<Rightarrow> bool" where
  "is_ci l n = (n \<in> set (gl_inputs l))"

definition is_po :: "'tt gate_level_layout \<Rightarrow> node \<Rightarrow> bool" where
  "is_po l n = list_ex (\<lambda>p. get_node l p = n) (take (unat (num_pos l)) (gl_outputs l))"

definition is_ri :: "'tt gate_level_layout \<Rightarrow> node \<Rightarrow> bool" where
  "is_ri l n = list_ex (\<lambda>p. get_node l p = n) (take (num_ris l) (drop (unat (num_pos l)) (gl_outputs l)))"

definition is_co :: "'tt gate_level_layout \<Rightarrow> node \<Rightarrow> bool" where
  "is_co l n = list_ex (\<lambda>p. get_node l p = n) (gl_outputs l)"

definition is_pi_tile :: "'tt gate_level_layout \<Rightarrow> ucoord_t \<Rightarrow> bool" where
  "is_pi_tile l t = is_pi l (get_node_of_tile l t)"

definition is_ro_tile :: "'tt gate_level_layout \<Rightarrow> ucoord_t \<Rightarrow> bool" where
  "is_ro_tile l t = is_ro l (get_node_of_tile l t)"

definition is_po_tile :: "'tt gate_level_layout \<Rightarrow> ucoord_t \<Rightarrow> bool" where
  "is_po_tile l t = is_po l (get_node_of_tile l t)"

definition is_ri_tile :: "'tt gate_level_layout \<Rightarrow> ucoord_t \<Rightarrow> bool" where
  "is_ri_tile l t = is_ri l (get_node_of_tile l t)"

definition pi_at :: "'tt gate_level_layout \<Rightarrow> u32 \<Rightarrow> node" where
  "pi_at l index = gl_inputs l ! unat index"

definition po_at :: "'tt gate_level_layout \<Rightarrow> u32 \<Rightarrow> signal" where
  "po_at l index = gl_outputs l ! unat index"

section \<open>Kinds of nodes\<close>

definition is_gate :: "'tt gate_level_layout \<Rightarrow> node \<Rightarrow> bool" where
  "is_gate l n = (gn_function (node_at l n) \<ge> 2 \<and> \<not> is_pi l n)"

definition is_buf :: "'tt gate_level_layout \<Rightarrow> node \<Rightarrow> bool" where
  "is_buf l n = (gn_function (node_at l n) = 2)"

definition is_wire :: "'tt gate_level_layout \<Rightarrow> node \<Rightarrow> bool" where
  "is_wire l n = is_buf l n"

definition is_inv :: "'tt gate_level_layout \<Rightarrow> node \<Rightarrow> bool" where
  "is_inv l n = (gn_function (node_at l n) = 3)"

definition is_and :: "'tt gate_level_layout \<Rightarrow> node \<Rightarrow> bool" where
  "is_and l n = (gn_function (node_at l n) = 4)"

definition is_nand :: "'tt gate_level_layout \<Rightarrow> node \<Rightarrow> bool" where
  "is_nand l n = (gn_function (node_at l n) = 5)"

definition is_or :: "'tt gate_level_layout \<Rightarrow> node \<Rightarrow> bool" where
  "is_or l n = (gn_function (node_at l n) = 6)"

definition is_nor :: "'tt gate_level_layout \<Rightarrow> node \<Rightarrow> bool" where
  "is_nor l n = (gn_function (node_at l n) = 7)"

definition is_xor :: "'tt gate_level_layout \<Rightarrow> node \<Rightarrow> bool" where
  "is_xor l n = (gn_function (node_at l n) = 8)"

definition is_xnor :: "'tt gate_level_layout \<Rightarrow> node \<Rightarrow> bool" where
  "is_xnor l n = (gn_function (node_at l n) = 9)"

definition is_maj :: "'tt gate_level_layout \<Rightarrow> node \<Rightarrow> bool" where
  "is_maj l n = (gn_function (node_at l n) = 10)"

definition is_function :: "node \<Rightarrow> bool" where
  "is_function n = (n > 1)"

definition is_gate_tile :: "'tt gate_level_layout \<Rightarrow> ucoord_t \<Rightarrow> bool" where
  "is_gate_tile l t = is_gate l (get_node l (u64_of_ucoord t))"

definition is_wire_tile :: "'tt gate_level_layout \<Rightarrow> ucoord_t \<Rightarrow> bool" where
  "is_wire_tile l t = is_wire l (get_node l (u64_of_ucoord t))"

definition is_empty_tile :: "'tt gate_level_layout \<Rightarrow> ucoord_t \<Rightarrow> bool" where
  "is_empty_tile l t = (get_node l (u64_of_ucoord t) = 0)"

section \<open>Placing and removing nodes\<close>

definition kill_node :: "node \<Rightarrow> 'tt gate_level_layout \<Rightarrow> 'tt gate_level_layout" where
  "kill_node n l =
     (if \<not> is_constant n then update_node n (\<lambda>d. d\<lparr>gn_fanout := gn_fanout d OR 0x80000000\<rparr>) l else l)"

definition revive_node :: "node \<Rightarrow> 'tt gate_level_layout \<Rightarrow> 'tt gate_level_layout" where
  "revive_node n l =
     (if \<not> is_constant n then update_node n (\<lambda>d. d\<lparr>gn_fanout := gn_fanout d AND NOT 0x80000000\<rparr>) l else l)"

definition clear_tile :: "ucoord_t \<Rightarrow> 'tt gate_level_layout \<Rightarrow> 'tt gate_level_layout" where
  "clear_tile t l = (case gl_tile_node_map l (u64_of_ucoord t) of
     None \<Rightarrow> l
   | Some n \<Rightarrow>
       (let l1 = (if \<not> is_dead t then
                    (if is_wire l n then l\<lparr>gl_num_wires := gl_num_wires l - 1\<rparr>
                     else l\<lparr>gl_num_gates := gl_num_gates l - 1\<rparr>)
                  else l);
            l2 = kill_node n l1
        in l2\<lparr>gl_node_tile_map := (gl_node_tile_map l2)(n := None),
              gl_tile_node_map := (gl_tile_node_map l2)(u64_of_ucoord t := None)\<rparr>))"

definition assign_node :: "ucoord_t \<Rightarrow> node \<Rightarrow> 'tt gate_level_layout \<Rightarrow> 'tt gate_level_layout" where
  "assign_node t n l =
     (if \<not> is_dead t then
        (let l1 = clear_tile t l;
             l2 = l1\<lparr>gl_tile_node_map := (gl_tile_node_map l1)(u64_of_ucoord t \<mapsto> n)\<rparr>;
             l3 = l2\<lparr>gl_node_tile_map := (gl_node_tile_map l2)(n \<mapsto> u64_of_ucoord t)\<rparr>
         in if is_wire l3 n then l3\<lparr>gl_num_wires := gl_num_wires l3 + 1\<rparr>
            else l3\<lparr>gl_num_gates := gl_num_gates l3 + 1\<rparr>)
      else l)"

text \<open>One more, or one fewer, reference to the node that a signal denotes.\<close>

definition incr_fanout :: "signal \<Rightarrow> 'tt gate_level_layout \<Rightarrow> 'tt gate_level_layout" where
  "incr_fanout s l = update_node (get_node l s) (\<lambda>d. d\<lparr>gn_fanout := gn_fanout d + 1\<rparr>) l"

definition decr_fanout :: "signal \<Rightarrow> 'tt gate_level_layout \<Rightarrow> 'tt gate_level_layout" where
  "decr_fanout s l = update_node (get_node l s) (\<lambda>d. d\<lparr>gn_fanout := gn_fanout d - 1\<rparr>) l"

definition move_node ::
    "node \<Rightarrow> ucoord_t \<Rightarrow> signal list \<Rightarrow> 'tt gate_level_layout \<Rightarrow> signal \<times> 'tt gate_level_layout" where
  "move_node n t new_children l =
     (let old_t = get_tile l n;
          l1 = fold decr_fanout (gn_children (node_at l n)) l;
          l2 = update_node n (\<lambda>d. d\<lparr>gn_children := []\<rparr>) l1;
          l3 = (if t \<noteq> old_t then revive_node n (assign_node t n (clear_tile old_t l2)) else l2);
          l4 = update_node n (\<lambda>d. d\<lparr>gn_children := gn_children d @ new_children\<rparr>) l3;
          l5 = fold incr_fanout new_children l4;
          l6 = (if is_dead t then
                  l5\<lparr>gl_outputs := filter (\<lambda>p. p \<noteq> u64_of_ucoord old_t) (gl_outputs l5)\<rparr>
                else if t \<noteq> old_t then
                  l5\<lparr>gl_outputs := map (\<lambda>p. if p = u64_of_ucoord old_t then u64_of_ucoord t else p) (gl_outputs l5)\<rparr>
                else l5)
      in (u64_of_ucoord t, l6))"

section \<open>Primary inputs and outputs, registers\<close>

fun decimal :: "nat \<Rightarrow> string" where
  "decimal n = (if n < 10 then [char_of (48 + n)] else decimal (n div 10) @ [char_of (48 + n mod 10)])"

definition io_name :: "string \<Rightarrow> string \<Rightarrow> u32 \<Rightarrow> string" where
  "io_name prefix name k = (if name = [] then prefix @ decimal (unat k) else name)"

definition new_node :: "'tt gate_level_layout \<Rightarrow> node" where
  "new_node l = of_nat (length (gl_nodes l))"

definition create_pi :: "string \<Rightarrow> ucoord_t \<Rightarrow> 'tt gate_level_layout \<Rightarrow> signal \<times> 'tt gate_level_layout" where
  "create_pi name t l =
     (let n = new_node l;
          l1 = l\<lparr>gl_nodes := gl_nodes l @ [empty_node\<lparr>gn_function := 2\<rparr>]\<rparr>;
          l2 = l1\<lparr>gl_inputs := gl_inputs l1 @ [n]\<rparr>;
          l3 = l2\<lparr>gl_node_names := (gl_node_names l2)(n \<mapsto> io_name ''pi'' name (num_pis l2))\<rparr>;
          l4 = assign_node t n l3
      in (u64_of_ucoord t, l4\<lparr>gl_num_pis := gl_num_pis l4 + 1\<rparr>))"

definition create_ro :: "string \<Rightarrow> ucoord_t \<Rightarrow> 'tt gate_level_layout \<Rightarrow> signal \<times> 'tt gate_level_layout" where
  "create_ro name t l =
     (let n = new_node l;
          l1 = l\<lparr>gl_nodes := gl_nodes l @ [empty_node\<lparr>gn_function := 2\<rparr>]\<rparr>;
          l2 = l1\<lparr>gl_inputs := gl_inputs l1 @ [n], gl_num_registers := gl_num_registers l1 + 1\<rparr>;
          l3 = l2\<lparr>gl_node_names := (gl_node_names l2)(n \<mapsto> io_name ''ro'' name (num_pis l2))\<rparr>
      in (u64_of_ucoord t, assign_node t n l3))"

definition create_po :: "signal \<Rightarrow> string \<Rightarrow> ucoord_t \<Rightarrow> 'tt gate_level_layout \<Rightarrow> signal \<times> 'tt gate_level_layout" where
  "create_po s name t l =
     (let n = new_node l;
          l1 = l\<lparr>gl_nodes := gl_nodes l @ [empty_node\<lparr>gn_function := 2\<rparr>]\<rparr>;
          l2 = l1\<lparr>gl_outputs := take (unat (num_pos l1)) (gl_outputs l1) @ [u64_of_ucoord t] @
                               drop (unat (num_pos l1)) (gl_outputs l1)\<rparr>;
          l3 = l2\<lparr>gl_node_names := (gl_node_names l2)(n \<mapsto> io_name ''po'' name (num_pos l2))\<rparr>;
          l4 = assign_node t n l3;
          l5 = l4\<lparr>gl_num_pos := gl_num_pos l4 + 1\<rparr>;
          l6 = incr_fanout s l5
      in (u64_of_ucoord t, update_node n (\<lambda>d. d\<lparr>gn_children := gn_children d @ [s]\<rparr>) l6))"

definition create_ri :: "signal \<Rightarrow> string \<Rightarrow> ucoord_t \<Rightarrow> 'tt gate_level_layout \<Rightarrow> signal \<times> 'tt gate_level_layout" where
  "create_ri s name t l =
     (let n = new_node l;
          l1 = l\<lparr>gl_nodes := gl_nodes l @ [empty_node\<lparr>gn_function := 2\<rparr>]\<rparr>;
          l2 = l1\<lparr>gl_outputs := gl_outputs l1 @ [u64_of_ucoord t]\<rparr>;
          l3 = l2\<lparr>gl_node_names := (gl_node_names l2)(n \<mapsto> io_name ''ri'' name (num_pos l2))\<rparr>;
          l4 = assign_node t n l3;
          l5 = incr_fanout s l4
      in (u64_of_ucoord t, update_node n (\<lambda>d. d\<lparr>gn_children := gn_children d @ [s]\<rparr>) l5))"

section \<open>Function tiles\<close>

definition set_value :: "node \<Rightarrow> u32 \<Rightarrow> 'tt gate_level_layout \<Rightarrow> 'tt gate_level_layout" where
  "set_value n v l = update_node n (\<lambda>d. d\<lparr>gn_value := v\<rparr>) l"

definition create_node_from_literal ::
    "signal list \<Rightarrow> u32 \<Rightarrow> ucoord_t \<Rightarrow> 'tt gate_level_layout \<Rightarrow> signal \<times> 'tt gate_level_layout" where
  "create_node_from_literal children literal t l =
     (let n = new_node l;
          l1 = l\<lparr>gl_nodes := gl_nodes l @ [empty_node\<lparr>gn_children := children, gn_function := literal\<rparr>]\<rparr>;
          l2 = fold incr_fanout children l1;
          l3 = set_value n 0 l2;
          l4 = assign_node t n l3
      in (u64_of_ucoord t, l4\<lparr>gl_on_add := gl_on_add l4 @ [n]\<rparr>))"

definition create_buf where "create_buf a t = create_node_from_literal [a] 2 t"
definition create_not where "create_not a t = create_node_from_literal [a] 3 t"
definition create_and where "create_and a b t = create_node_from_literal [a, b] 4 t"
definition create_nand where "create_nand a b t = create_node_from_literal [a, b] 5 t"
definition create_or where "create_or a b t = create_node_from_literal [a, b] 6 t"
definition create_nor where "create_nor a b t = create_node_from_literal [a, b] 7 t"
definition create_xor where "create_xor a b t = create_node_from_literal [a, b] 8 t"
definition create_xnor where "create_xnor a b t = create_node_from_literal [a, b] 9 t"
definition create_maj where "create_maj a b c t = create_node_from_literal [a, b, c] 10 t"

definition create_node ::
    "'tt kitty \<Rightarrow> signal list \<Rightarrow> 'tt \<Rightarrow> ucoord_t \<Rightarrow> 'tt gate_level_layout \<Rightarrow> signal \<times> 'tt gate_level_layout" where
  "create_node k children function t l =
     (if children = [] then (get_constant (\<not> tt_is_const0 k function), l)
      else create_node_from_literal children (tt_insert k (gl_fn_cache l) function) t
             (l\<lparr>gl_fn_cache := gl_fn_cache l @ [function]\<rparr>))"

definition node_function :: "'tt kitty \<Rightarrow> 'tt gate_level_layout \<Rightarrow> node \<Rightarrow> 'tt" where
  "node_function k l n = tt_lookup k (gl_fn_cache l) (gn_function (node_at l n))"

section \<open>Names\<close>

definition set_layout_name :: "string \<Rightarrow> 'tt gate_level_layout \<Rightarrow> 'tt gate_level_layout" where
  "set_layout_name name l = l\<lparr>gl_layout_name := name\<rparr>"

definition get_layout_name :: "'tt gate_level_layout \<Rightarrow> string" where
  "get_layout_name l = gl_layout_name l"

definition set_name :: "node \<Rightarrow> string \<Rightarrow> 'tt gate_level_layout \<Rightarrow> 'tt gate_level_layout" where
  "set_name n name l = l\<lparr>gl_node_names := (gl_node_names l)(n \<mapsto> name)\<rparr>"

definition set_signal_name :: "signal \<Rightarrow> string \<Rightarrow> 'tt gate_level_layout \<Rightarrow> 'tt gate_level_layout" where
  "set_signal_name s name l = set_name (get_node l s) name l"

definition get_name :: "'tt gate_level_layout \<Rightarrow> node \<Rightarrow> string" where
  "get_name l n = (case gl_node_names l n of Some name \<Rightarrow> name | None \<Rightarrow> [])"

definition get_signal_name :: "'tt gate_level_layout \<Rightarrow> signal \<Rightarrow> string" where
  "get_signal_name l s = get_name l (get_node l s)"

definition has_name :: "'tt gate_level_layout \<Rightarrow> node \<Rightarrow> bool" where
  "has_name l n = (get_name l n \<noteq> [])"

definition has_signal_name :: "'tt gate_level_layout \<Rightarrow> signal \<Rightarrow> bool" where
  "has_signal_name l s = (get_signal_name l s \<noteq> [])"

definition set_input_name :: "u32 \<Rightarrow> string \<Rightarrow> 'tt gate_level_layout \<Rightarrow> 'tt gate_level_layout" where
  "set_input_name index name l =
     (if index < num_pis l
      then l\<lparr>gl_node_names := (gl_node_names l)(gl_inputs l ! unat index \<mapsto> name)\<rparr> else l)"

definition get_input_name :: "'tt gate_level_layout \<Rightarrow> u32 \<Rightarrow> string" where
  "get_input_name l index = (if index < num_pis l then get_name l (gl_inputs l ! unat index) else [])"

definition has_input_name :: "'tt gate_level_layout \<Rightarrow> u32 \<Rightarrow> bool" where
  "has_input_name l index = (get_input_name l index \<noteq> [])"

definition set_output_name :: "u32 \<Rightarrow> string \<Rightarrow> 'tt gate_level_layout \<Rightarrow> 'tt gate_level_layout" where
  "set_output_name index name l =
     (if index < num_pos l
      then l\<lparr>gl_node_names := (gl_node_names l)(get_node l (gl_outputs l ! unat index) \<mapsto> name)\<rparr> else l)"

definition get_output_name :: "'tt gate_level_layout \<Rightarrow> u32 \<Rightarrow> string" where
  "get_output_name l index = (if index < num_pos l then get_name l (get_node l (gl_outputs l ! unat index)) else [])"

definition has_output_name :: "'tt gate_level_layout \<Rightarrow> u32 \<Rightarrow> bool" where
  "has_output_name l index = (get_output_name l index \<noteq> [])"

section \<open>Iteration\<close>

text \<open>Each \<open>foreach\<close> is the list of what it hands to its functor.\<close>

definition foreach_pi :: "'tt gate_level_layout \<Rightarrow> node list" where
  "foreach_pi l = take (unat (num_pis l)) (gl_inputs l)"

definition foreach_ro :: "'tt gate_level_layout \<Rightarrow> node list" where
  "foreach_ro l = drop (unat (num_pis l)) (gl_inputs l)"

definition foreach_po :: "'tt gate_level_layout \<Rightarrow> signal list" where
  "foreach_po l = take (unat (num_pos l)) (gl_outputs l)"

definition foreach_ri :: "'tt gate_level_layout \<Rightarrow> signal list" where
  "foreach_ri l = drop (unat (num_pos l)) (gl_outputs l)"

definition foreach_ci :: "'tt gate_level_layout \<Rightarrow> node list" where
  "foreach_ci l = foreach_pi l"

definition foreach_co :: "'tt gate_level_layout \<Rightarrow> signal list" where
  "foreach_co l = foreach_po l"

definition foreach_node :: "'tt gate_level_layout \<Rightarrow> node list" where
  "foreach_node l = filter (\<lambda>n. \<not> node_is_dead l n) (map of_nat [0..<length (gl_nodes l)])"

definition foreach_gate :: "'tt gate_level_layout \<Rightarrow> node list" where
  "foreach_gate l = filter (\<lambda>n. is_gate l n \<and> \<not> node_is_dead l n) (map of_nat [2..<length (gl_nodes l)])"

definition foreach_wire :: "'tt gate_level_layout \<Rightarrow> node list" where
  "foreach_wire l = filter (\<lambda>n. is_wire l n \<and> \<not> node_is_dead l n) (map of_nat [2..<length (gl_nodes l)])"

text \<open>The set of a zone and the zones above and below it.\<close>

definition above_below :: "'tt gate_level_layout \<Rightarrow> ucoord_t \<Rightarrow> ucoord_t list" where
  "above_below l c = fold (set_insert ucoord_less) [c, lyt_above l c, lyt_below l c] []"

definition incoming_data_flow ::
    "(ucoord_t \<Rightarrow> ucoord_t list \<Rightarrow> ucoord_t list) \<Rightarrow> 'tt gate_level_layout \<Rightarrow> ucoord_t \<Rightarrow> ucoord_t list" where
  "incoming_data_flow ins l t =
     fold (\<lambda>inc data_flow.
       copy_if ins (\<lambda>dt. is_child l (get_node_of_tile l t) (u64_of_ucoord dt)) (above_below l inc) data_flow)
       (incoming_clocked_zones ins l t) []"

definition outgoing_data_flow ::
    "(ucoord_t \<Rightarrow> ucoord_t list \<Rightarrow> ucoord_t list) \<Rightarrow> 'tt gate_level_layout \<Rightarrow> ucoord_t \<Rightarrow> ucoord_t list" where
  "outgoing_data_flow ins l t =
     fold (\<lambda>out data_flow.
       copy_if ins (\<lambda>dt. is_child l (get_node_of_tile l dt) (u64_of_ucoord t)) (above_below l out) data_flow)
       (outgoing_clocked_zones ins l t) []"

text \<open>The data flow in a \<open>std::set\<close>, the container that all members of the class use.\<close>

definition incoming_set :: "'tt gate_level_layout \<Rightarrow> ucoord_t \<Rightarrow> ucoord_t list" where
  "incoming_set l t = incoming_data_flow (set_insert ucoord_less) l t"

definition outgoing_set :: "'tt gate_level_layout \<Rightarrow> ucoord_t \<Rightarrow> ucoord_t list" where
  "outgoing_set l t = outgoing_data_flow (set_insert ucoord_less) l t"

definition fanin_size :: "'tt gate_level_layout \<Rightarrow> node \<Rightarrow> u32" where
  "fanin_size l n = of_nat (length (incoming_set l (get_tile l n)))"

definition fanout_size :: "'tt gate_level_layout \<Rightarrow> node \<Rightarrow> u32" where
  "fanout_size l n = of_nat (length (outgoing_set l (get_tile l n)))"

definition is_fanout :: "'tt gate_level_layout \<Rightarrow> node \<Rightarrow> bool" where
  "is_fanout l n = (is_wire l n \<and> fanout_size l n > 1)"

definition foreach_fanin :: "'tt gate_level_layout \<Rightarrow> node \<Rightarrow> signal list" where
  "foreach_fanin l n = (if n \<le> 1 then [] else map u64_of_ucoord (incoming_set l (get_tile l n)))"

definition foreach_fanout :: "'tt gate_level_layout \<Rightarrow> node \<Rightarrow> node list" where
  "foreach_fanout l n = (if n \<le> 1 then [] else map (get_node_of_tile l) (outgoing_set l (get_tile l n)))"

section \<open>Simulation\<close>

text \<open>\<open>compute\<close> on truth tables. The input pattern of bit \<open>i\<close> has bit \<open>j\<close> of the table of fanin \<open>j\<close>.\<close>

definition compute_pattern :: "'tt kitty \<Rightarrow> 'tt list \<Rightarrow> u32 \<Rightarrow> nat \<Rightarrow> u32" where
  "compute_pattern k tts num_fanin i =
     fold (\<lambda>j pattern. pattern OR push_bit j (of_bool (tt_get_bit k (tts ! j) i)))
       [0..<unat num_fanin] 0"

definition compute :: "'tt kitty \<Rightarrow> 'tt gate_level_layout \<Rightarrow> node \<Rightarrow> 'tt list \<Rightarrow> 'tt" where
  "compute k l n tts =
     (let num_fanin = fanin_size l n;
          result = tt_construct k (hd tts);
          gate_tt = tt_lookup k (gl_fn_cache l) (gn_function (node_at l n))
      in fold (\<lambda>i res. if tt_get_bit k gate_tt (unat (compute_pattern k tts num_fanin i))
                       then tt_set_bit k res i else res)
           [0..<tt_num_bits k result] result)"

section \<open>Cardinal operations\<close>

definition is_incoming_signal :: "'tt gate_level_layout \<Rightarrow> ucoord_t \<Rightarrow> signal \<Rightarrow> bool" where
  "is_incoming_signal l t s =
     list_ex (\<lambda>i. ucoord_eq_u64 i s \<or> ucoord_eq_u64 (lyt_above l i) s \<or> ucoord_eq_u64 (lyt_below l i) s)
       (incoming_set l t)"

definition is_outgoing_signal :: "'tt gate_level_layout \<Rightarrow> ucoord_t \<Rightarrow> signal \<Rightarrow> bool" where
  "is_outgoing_signal l t s =
     list_ex (\<lambda>o'. ucoord_eq_u64 o' s \<or> ucoord_eq_u64 (lyt_above l o') s \<or> ucoord_eq_u64 (lyt_below l o') s)
       (outgoing_set l t)"

definition has_northern_incoming_signal :: "'tt gate_level_layout \<Rightarrow> ucoord_t \<Rightarrow> bool" where
  "has_northern_incoming_signal l t = is_incoming_signal l t (u64_of_ucoord (lyt_north l t))"

definition has_north_eastern_incoming_signal :: "'tt gate_level_layout \<Rightarrow> ucoord_t \<Rightarrow> bool" where
  "has_north_eastern_incoming_signal l t = is_incoming_signal l t (u64_of_ucoord (lyt_north_east l t))"

definition has_eastern_incoming_signal :: "'tt gate_level_layout \<Rightarrow> ucoord_t \<Rightarrow> bool" where
  "has_eastern_incoming_signal l t = is_incoming_signal l t (u64_of_ucoord (lyt_east l t))"

definition has_south_eastern_incoming_signal :: "'tt gate_level_layout \<Rightarrow> ucoord_t \<Rightarrow> bool" where
  "has_south_eastern_incoming_signal l t = is_incoming_signal l t (u64_of_ucoord (lyt_south_east l t))"

definition has_southern_incoming_signal :: "'tt gate_level_layout \<Rightarrow> ucoord_t \<Rightarrow> bool" where
  "has_southern_incoming_signal l t = is_incoming_signal l t (u64_of_ucoord (lyt_south l t))"

definition has_south_western_incoming_signal :: "'tt gate_level_layout \<Rightarrow> ucoord_t \<Rightarrow> bool" where
  "has_south_western_incoming_signal l t = is_incoming_signal l t (u64_of_ucoord (lyt_south_west l t))"

definition has_western_incoming_signal :: "'tt gate_level_layout \<Rightarrow> ucoord_t \<Rightarrow> bool" where
  "has_western_incoming_signal l t = is_incoming_signal l t (u64_of_ucoord (lyt_west l t))"

definition has_north_western_incoming_signal :: "'tt gate_level_layout \<Rightarrow> ucoord_t \<Rightarrow> bool" where
  "has_north_western_incoming_signal l t = is_incoming_signal l t (u64_of_ucoord (lyt_north_west l t))"

definition has_no_incoming_signal :: "'tt gate_level_layout \<Rightarrow> ucoord_t \<Rightarrow> bool" where
  "has_no_incoming_signal l t = (incoming_set l t = [])"

definition has_northern_outgoing_signal :: "'tt gate_level_layout \<Rightarrow> ucoord_t \<Rightarrow> bool" where
  "has_northern_outgoing_signal l t = is_outgoing_signal l t (u64_of_ucoord (lyt_north l t))"

definition has_north_eastern_outgoing_signal :: "'tt gate_level_layout \<Rightarrow> ucoord_t \<Rightarrow> bool" where
  "has_north_eastern_outgoing_signal l t = is_outgoing_signal l t (u64_of_ucoord (lyt_north_east l t))"

definition has_eastern_outgoing_signal :: "'tt gate_level_layout \<Rightarrow> ucoord_t \<Rightarrow> bool" where
  "has_eastern_outgoing_signal l t = is_outgoing_signal l t (u64_of_ucoord (lyt_east l t))"

definition has_south_eastern_outgoing_signal :: "'tt gate_level_layout \<Rightarrow> ucoord_t \<Rightarrow> bool" where
  "has_south_eastern_outgoing_signal l t = is_outgoing_signal l t (u64_of_ucoord (lyt_south_east l t))"

definition has_southern_outgoing_signal :: "'tt gate_level_layout \<Rightarrow> ucoord_t \<Rightarrow> bool" where
  "has_southern_outgoing_signal l t = is_outgoing_signal l t (u64_of_ucoord (lyt_south l t))"

definition has_south_western_outgoing_signal :: "'tt gate_level_layout \<Rightarrow> ucoord_t \<Rightarrow> bool" where
  "has_south_western_outgoing_signal l t = is_outgoing_signal l t (u64_of_ucoord (lyt_south_west l t))"

definition has_western_outgoing_signal :: "'tt gate_level_layout \<Rightarrow> ucoord_t \<Rightarrow> bool" where
  "has_western_outgoing_signal l t = is_outgoing_signal l t (u64_of_ucoord (lyt_west l t))"

definition has_north_western_outgoing_signal :: "'tt gate_level_layout \<Rightarrow> ucoord_t \<Rightarrow> bool" where
  "has_north_western_outgoing_signal l t = is_outgoing_signal l t (u64_of_ucoord (lyt_north_west l t))"

definition has_no_outgoing_signal :: "'tt gate_level_layout \<Rightarrow> ucoord_t \<Rightarrow> bool" where
  "has_no_outgoing_signal l t = (outgoing_set l t = [])"

definition has_opposite_incoming_and_outgoing_signals :: "'tt gate_level_layout \<Rightarrow> ucoord_t \<Rightarrow> bool" where
  "has_opposite_incoming_and_outgoing_signals l t =
     list_ex (\<lambda>sp. let s1 = u64_of_ucoord (fst sp); s2 = u64_of_ucoord (snd sp) in
         (is_incoming_signal l t s1 \<and> is_outgoing_signal l t s2) \<or>
         (is_incoming_signal l t s2 \<and> is_outgoing_signal l t s1))
       (lyt_adjacent_opposite_tiles l t)"

section \<open>Custom values and visited flags\<close>

definition clear_values :: "'tt gate_level_layout \<Rightarrow> 'tt gate_level_layout" where
  "clear_values l = l\<lparr>gl_nodes := map (\<lambda>d. d\<lparr>gn_value := 0\<rparr>) (gl_nodes l)\<rparr>"

definition node_value :: "'tt gate_level_layout \<Rightarrow> node \<Rightarrow> u32" where
  "node_value l n = gn_value (node_at l n)"

definition incr_value :: "node \<Rightarrow> 'tt gate_level_layout \<Rightarrow> u32 \<times> 'tt gate_level_layout" where
  "incr_value n l = (gn_value (node_at l n), update_node n (\<lambda>d. d\<lparr>gn_value := gn_value d + 1\<rparr>) l)"

definition decr_value :: "node \<Rightarrow> 'tt gate_level_layout \<Rightarrow> u32 \<times> 'tt gate_level_layout" where
  "decr_value n l = (gn_value (node_at l n) - 1, update_node n (\<lambda>d. d\<lparr>gn_value := gn_value d - 1\<rparr>) l)"

definition clear_visited :: "'tt gate_level_layout \<Rightarrow> 'tt gate_level_layout" where
  "clear_visited l = l\<lparr>gl_nodes := map (\<lambda>d. d\<lparr>gn_visited := 0\<rparr>) (gl_nodes l)\<rparr>"

definition visited :: "'tt gate_level_layout \<Rightarrow> node \<Rightarrow> u32" where
  "visited l n = gn_visited (node_at l n)"

definition set_visited :: "node \<Rightarrow> u32 \<Rightarrow> 'tt gate_level_layout \<Rightarrow> 'tt gate_level_layout" where
  "set_visited n v l = update_node n (\<lambda>d. d\<lparr>gn_visited := v\<rparr>) l"

definition trav_id :: "'tt gate_level_layout \<Rightarrow> u32" where
  "trav_id l = gl_trav_id l"

definition incr_trav_id :: "'tt gate_level_layout \<Rightarrow> 'tt gate_level_layout" where
  "incr_trav_id l = l\<lparr>gl_trav_id := gl_trav_id l + 1\<rparr>"

section \<open>Truth tables for examples\<close>

text \<open>A concrete choice of the operations on truth tables, for the examples and witnesses: a table is a
  natural number whose bits are its entries.\<close>

definition sample_kitty :: "nat kitty" where
  "sample_kitty =
     \<lparr>tt_insert = (\<lambda>c f. of_nat (length c)), tt_lookup = (\<lambda>c i. c ! unat i), tt_zero = (\<lambda>n. 0),
      tt_from_words = (\<lambda>n w. unat w), tt_is_const0 = (\<lambda>f. f = 0), tt_num_bits = (\<lambda>f. 8),
      tt_construct = (\<lambda>f. 0), tt_get_bit = bit, tt_set_bit = (\<lambda>f i. set_bit i f)\<rparr>"

end
