(* ===== verification/Gate_Level_Invariant.thy ===== *)
theory Gate_Level_Invariant
  imports Gate_Level_Layout
begin

text \<open>
  The invariant of the gate-level layout and the operations that keep it. The part of the storage
  that placement is about is the function literals of the nodes, the two maps and the two counters;
  \<open>placed_wf\<close> states that the maps are inverse to each other, that only the constants sit on dead
  tiles, and that the counters count the wires and gates on the tiles. The operations that only
  change reference counts, children, values or names do not touch it.

  \<open>placement\<close> is the abstract view of a layout, the partial map from its tiles to the nodes on them;
  creating and moving nodes refine \<open>place\<close> and \<open>unplace\<close> on it.
\<close>

section \<open>The invariant on the placement data\<close>

definition alive :: "signal \<Rightarrow> bool" where
  "alive s = (\<not> ud (ucoord_of_u64 s))"

definition wires_of :: "u32 list \<Rightarrow> (signal \<rightharpoonup> node) \<Rightarrow> signal set" where
  "wires_of F T = {s. \<exists>n. T s = Some n \<and> alive s \<and> F ! unat n = 2}"

definition gates_of :: "u32 list \<Rightarrow> (signal \<rightharpoonup> node) \<Rightarrow> signal set" where
  "gates_of F T = {s. \<exists>n. T s = Some n \<and> alive s \<and> F ! unat n \<noteq> 2}"

definition maps_inverse :: "(signal \<rightharpoonup> node) \<Rightarrow> (node \<rightharpoonup> signal) \<Rightarrow> bool" where
  "maps_inverse T N \<longleftrightarrow> (\<forall>s n. T s = Some n \<longleftrightarrow> N n = Some s)"

definition placed_wf ::
    "u32 list \<Rightarrow> (signal \<rightharpoonup> node) \<Rightarrow> (node \<rightharpoonup> signal) \<Rightarrow> u32 \<Rightarrow> u32 \<Rightarrow> bool" where
  "placed_wf F T N g w \<longleftrightarrow>
     2 \<le> length F \<and> maps_inverse T N \<and> T const1 = Some 1 \<and>
     (\<forall>s n. T s = Some n \<longrightarrow> unat n < length F \<and> (alive s \<longleftrightarrow> 1 < n)) \<and>
     g = of_nat (card (gates_of F T)) \<and> w = of_nat (card (wires_of F T))"

lemma finite_signals: "finite (S :: signal set)"
  by simp

lemma gates_of_clear: "gates_of F (T(s := None)) = gates_of F T - {s}"
  by (auto simp: gates_of_def)

lemma wires_of_clear: "wires_of F (T(s := None)) = wires_of F T - {s}"
  by (auto simp: wires_of_def)

lemma of_nat_card_remove:
  "of_nat (card (S - {s})) = (if s \<in> S then of_nat (card S) - 1 else of_nat (card S) :: u32)"
  if "finite S" for S :: "signal set"
proof (cases "s \<in> S")
  case True
  have "Suc (card (S - {s})) = card S" by (rule card_Suc_Diff1 [OF that True])
  then have "(of_nat (card S) :: u32) = of_nat (Suc (card (S - {s})))" by (simp only:)
  with True show ?thesis by (simp only: of_nat_Suc if_True add_diff_cancel_left')
qed simp

lemma maps_inverse_iff: "maps_inverse T N \<Longrightarrow> T s = Some n \<longleftrightarrow> N n = Some s"
  by (simp add: maps_inverse_def)

lemma maps_inverse_clear:
  assumes inv: "maps_inverse T N" and s: "T s = Some n"
  shows "maps_inverse (T(s := None)) (N(n := None))"
  unfolding maps_inverse_def
proof (intro allI)
  fix r m
  show "(T(s := None)) r = Some m \<longleftrightarrow> (N(n := None)) m = Some r"
    using maps_inverse_iff [OF inv, of r m] maps_inverse_iff [OF inv, of s m] maps_inverse_iff [OF inv, of r n] s
    by (cases "r = s"; cases "m = n") simp_all
qed

lemma maps_inverse_assign:
  assumes inv: "maps_inverse T N" and s: "T s = None" and n: "N n = None"
  shows "maps_inverse (T(s \<mapsto> n)) (N(n \<mapsto> s))"
  unfolding maps_inverse_def
proof (intro allI)
  fix r m
  show "(T(s \<mapsto> n)) r = Some m \<longleftrightarrow> (N(n \<mapsto> s)) m = Some r"
    using maps_inverse_iff [OF inv, of r m] maps_inverse_iff [OF inv, of s m] maps_inverse_iff [OF inv, of r n] s n
    by (cases "r = s"; cases "m = n") auto
qed

lemma placed_wf_clear:
  assumes wf: "placed_wf F T N g w" and s: "T s = Some n" and c1: "s \<noteq> const1"
  shows "placed_wf F (T(s := None)) (N(n := None))
    (if alive s \<and> F ! unat n \<noteq> 2 then g - 1 else g) (if alive s \<and> F ! unat n = 2 then w - 1 else w)"
  unfolding placed_wf_def
proof (intro conjI)
  have "maps_inverse T N" using wf by (simp add: placed_wf_def)
  then show "maps_inverse (T(s := None)) (N(n := None))" using s by (rule maps_inverse_clear)
  have m: "(s \<in> gates_of F T) = (alive s \<and> F ! unat n \<noteq> 2)" "(s \<in> wires_of F T) = (alive s \<and> F ! unat n = 2)"
    using s by (simp_all add: gates_of_def wires_of_def)
  have gw: "g = of_nat (card (gates_of F T))" "w = of_nat (card (wires_of F T))"
    using wf by (simp_all only: placed_wf_def)
  show "(if alive s \<and> F ! unat n \<noteq> 2 then g - 1 else g) = of_nat (card (gates_of F (T(s := None))))"
    unfolding gates_of_clear of_nat_card_remove [OF finite_signals] m gw ..
  show "(if alive s \<and> F ! unat n = 2 then w - 1 else w) = of_nat (card (wires_of F (T(s := None))))"
    unfolding wires_of_clear of_nat_card_remove [OF finite_signals] m gw ..
qed (use wf c1 in \<open>auto simp: placed_wf_def\<close>)

lemma of_nat_card_insert:
  "s \<notin> S \<Longrightarrow> of_nat (card (insert s S)) = (of_nat (card S) + 1 :: u32)" for S :: "signal set"
  by (subst card_insert_disjoint) (simp_all add: add.commute)

lemma placed_wf_assign:
  assumes wf: "placed_wf F T N g w" and s: "T s = None" and n: "N n = None"
    and al: "alive s" and "1 < n" and "unat n < length F"
  shows "placed_wf F (T(s \<mapsto> n)) (N(n \<mapsto> s))
    (if F ! unat n = 2 then g else g + 1) (if F ! unat n = 2 then w + 1 else w)"
  unfolding placed_wf_def
proof (intro conjI)
  have "maps_inverse T N" using wf by (simp add: placed_wf_def)
  then show "maps_inverse (T(s \<mapsto> n)) (N(n \<mapsto> s))" using s n by (rule maps_inverse_assign)
  have m: "s \<notin> gates_of F T" "s \<notin> wires_of F T" using s by (simp_all add: gates_of_def wires_of_def)
  have gw: "g = of_nat (card (gates_of F T))" "w = of_nat (card (wires_of F T))"
    using wf by (simp_all only: placed_wf_def)
  have e: "gates_of F (T(s \<mapsto> n)) = (if F ! unat n = 2 then gates_of F T else insert s (gates_of F T))"
    "wires_of F (T(s \<mapsto> n)) = (if F ! unat n = 2 then insert s (wires_of F T) else wires_of F T)"
    using s al by (auto simp: gates_of_def wires_of_def)
  show "(if F ! unat n = 2 then g else g + 1) = of_nat (card (gates_of F (T(s \<mapsto> n))))"
    unfolding e gw by (simp only: of_nat_card_insert [OF m(1)] split: if_split) blast
  show "(if F ! unat n = 2 then w + 1 else w) = of_nat (card (wires_of F (T(s \<mapsto> n))))"
    unfolding e gw by (simp only: of_nat_card_insert [OF m(2)] split: if_split) blast
qed (use assms in \<open>auto simp: placed_wf_def\<close>)

lemma placed_wf_extend:
  assumes wf: "placed_wf F T N g w"
  shows "placed_wf (F @ [f]) T N g w"
proof -
  have "\<And>s n. T s = Some n \<Longrightarrow> unat n < length F" using wf by (simp add: placed_wf_def)
  then have "gates_of (F @ [f]) T = gates_of F T" "wires_of (F @ [f]) T = wires_of F T"
    by (auto simp: gates_of_def wires_of_def nth_append)
  with wf show ?thesis unfolding placed_wf_def by fastforce
qed

lemma placed_wf_fresh:
  assumes "placed_wf F T N g w" and "length F < 2 ^ 32"
  shows "N (of_nat (length F)) = None"
proof (rule ccontr)
  assume "N (of_nat (length F)) \<noteq> None"
  then obtain s where "T s = Some (of_nat (length F))"
    using assms(1) by (auto simp: placed_wf_def maps_inverse_def)
  then have "unat (of_nat (length F) :: u32) < length F" using assms(1) by (simp add: placed_wf_def)
  with assms(2) show False by (simp add: unat_of_nat)
qed

section \<open>The invariant of the layout\<close>

definition node_fns :: "'tt gate_level_layout \<Rightarrow> u32 list" where
  "node_fns l = map gn_function (gl_nodes l)"

definition gl_wf :: "'tt gate_level_layout \<Rightarrow> bool" where
  "gl_wf l = placed_wf (node_fns l) (gl_tile_node_map l) (gl_node_tile_map l) (gl_num_gates l) (gl_num_wires l)"

text \<open>What an operation that does not place nodes leaves alone.\<close>

definition same_placed :: "'tt gate_level_layout \<Rightarrow> 'tt gate_level_layout \<Rightarrow> bool" where
  "same_placed l l' \<longleftrightarrow> node_fns l' = node_fns l \<and> gl_tile_node_map l' = gl_tile_node_map l \<and>
     gl_node_tile_map l' = gl_node_tile_map l \<and> gl_num_gates l' = gl_num_gates l \<and> gl_num_wires l' = gl_num_wires l"

lemma same_placed_refl [simp]: "same_placed l l"
  by (simp add: same_placed_def)

lemma same_placed_trans: "same_placed a b \<Longrightarrow> same_placed b c \<Longrightarrow> same_placed a c"
  by (simp add: same_placed_def)

lemma same_placed_wf: "same_placed l l' \<Longrightarrow> gl_wf l' = gl_wf l"
  by (simp add: same_placed_def gl_wf_def)

lemma length_node_fns [simp]: "length (node_fns l) = length (gl_nodes l)"
  by (simp add: node_fns_def)

lemma same_placed_length: "same_placed l l' \<Longrightarrow> length (gl_nodes l') = length (gl_nodes l)"
  by (metis length_node_fns same_placed_def)

lemma update_node_functions:
  assumes "\<And>d. gn_function (f d) = gn_function d"
  shows "node_fns (update_node n f l) = node_fns l"
proof (cases "unat n < length (gl_nodes l)")
  case True
  then have "(map gn_function (gl_nodes l))[unat n := gn_function (gl_nodes l ! unat n)] = map gn_function (gl_nodes l)"
    by (metis list_update_id nth_map)
  with assms show ?thesis by (simp add: node_fns_def update_node_def node_at_def map_update)
qed (simp add: node_fns_def update_node_def list_update_beyond)

lemma update_node_same:
  "(\<And>d. gn_function (f d) = gn_function d) \<Longrightarrow> same_placed l (update_node n f l)"
  unfolding same_placed_def by (simp add: update_node_functions) (simp add: update_node_def)

lemma incr_fanout_same [simp]: "same_placed l (incr_fanout s l)"
  by (simp add: incr_fanout_def update_node_same)

lemma decr_fanout_same [simp]: "same_placed l (decr_fanout s l)"
  by (simp add: decr_fanout_def update_node_same)

lemma fold_same_placed: "(\<And>x l. same_placed l (f x l)) \<Longrightarrow> same_placed l (fold f xs l)"
proof (induction xs arbitrary: l)
  case (Cons x xs)
  have "same_placed (f x l) (fold f xs (f x l))" by (rule Cons.IH) (rule Cons.prems)
  with Cons.prems [of l x] show ?case by (auto intro: same_placed_trans)
qed simp

lemma fold_fanout_same [simp]: "same_placed l (fold incr_fanout ss l)" "same_placed l (fold decr_fanout ss l)"
  by (rule fold_same_placed, simp)+

lemma kill_revive_same [simp]: "same_placed l (kill_node n l)" "same_placed l (revive_node n l)"
  by (simp_all add: kill_node_def revive_node_def update_node_same)

lemma set_value_same [simp]: "same_placed l (set_value n v l)"
  by (simp add: set_value_def update_node_same)

section \<open>Placing and clearing\<close>

lemma alive_u64 [simp]: "alive (u64_of_ucoord t) \<longleftrightarrow> \<not> is_dead t"
  by (simp add: alive_def is_dead_def)

lemma clear_tile_data:
  "node_fns (clear_tile t l) = node_fns l \<and>
   (case gl_tile_node_map l (u64_of_ucoord t) of
      None \<Rightarrow> clear_tile t l = l
    | Some n \<Rightarrow>
        gl_tile_node_map (clear_tile t l) = (gl_tile_node_map l)(u64_of_ucoord t := None) \<and>
        gl_node_tile_map (clear_tile t l) = (gl_node_tile_map l)(n := None) \<and>
        gl_num_wires (clear_tile t l) = (if \<not> is_dead t \<and> is_wire l n then gl_num_wires l - 1 else gl_num_wires l) \<and>
        gl_num_gates (clear_tile t l) = (if \<not> is_dead t \<and> \<not> is_wire l n then gl_num_gates l - 1 else gl_num_gates l))"
proof (cases "gl_tile_node_map l (u64_of_ucoord t)")
  case None
  then show ?thesis by (simp add: clear_tile_def)
next
  case (Some n)
  show ?thesis
    using kill_revive_same(1) [of "l\<lparr>gl_num_wires := gl_num_wires l - 1\<rparr>" n]
      kill_revive_same(1) [of "l\<lparr>gl_num_gates := gl_num_gates l - 1\<rparr>" n] kill_revive_same(1) [of l n]
    by (auto simp: Some clear_tile_def Let_def same_placed_def node_fns_def)
qed

lemma is_wire_functions: "unat n < length (gl_nodes l) \<Longrightarrow> is_wire l n \<longleftrightarrow> node_fns l ! unat n = 2"
  by (simp add: is_wire_def is_buf_def node_at_def node_fns_def)

lemma clear_tile_wf:
  assumes "gl_wf l" and "u64_of_ucoord t \<noteq> const1"
  shows "gl_wf (clear_tile t l)"
proof (cases "gl_tile_node_map l (u64_of_ucoord t)")
  case None
  then show ?thesis using assms clear_tile_data [of t l] by simp
next
  case (Some n)
  have "unat n < length (gl_nodes l)" using assms(1) Some by (auto simp: gl_wf_def placed_wf_def)
  with placed_wf_clear [OF assms(1) [unfolded gl_wf_def] Some assms(2)] clear_tile_data [of t l] Some
  show ?thesis unfolding gl_wf_def by (simp add: is_wire_functions)
qed

lemma clear_tile_length [simp]: "length (gl_nodes (clear_tile t l)) = length (gl_nodes l)"
  using clear_tile_data [of t l] by (metis length_node_fns)

lemma clear_tile_maps:
  assumes "gl_wf l"
  shows "gl_tile_node_map (clear_tile t l) = (gl_tile_node_map l)(u64_of_ucoord t := None)"
    and "gl_node_tile_map (clear_tile t l) n =
      (if gl_node_tile_map l n = Some (u64_of_ucoord t) then None else gl_node_tile_map l n)"
proof -
  have inv: "\<And>s n. gl_tile_node_map l s = Some n \<longleftrightarrow> gl_node_tile_map l n = Some s"
    using assms by (simp add: gl_wf_def placed_wf_def maps_inverse_def)
  show "gl_tile_node_map (clear_tile t l) = (gl_tile_node_map l)(u64_of_ucoord t := None)"
    using clear_tile_data [of t l] by (auto split: option.splits)
  show "gl_node_tile_map (clear_tile t l) n =
      (if gl_node_tile_map l n = Some (u64_of_ucoord t) then None else gl_node_tile_map l n)"
    using clear_tile_data [of t l] inv [of "u64_of_ucoord t" n] by (auto split: option.splits)
qed

lemma const1_dead: "\<not> is_dead t \<Longrightarrow> u64_of_ucoord t \<noteq> const1"
proof
  assume "\<not> is_dead t" and "u64_of_ucoord t = const1"
  then have "alive const1" by (metis alive_u64)
  then show False by (simp add: alive_def const1_def ucoord_of_u64_def)
qed

lemma assign_node_data:
  assumes "\<not> is_dead t" and "unat n < length (gl_nodes l)"
  shows "node_fns (assign_node t n l) = node_fns l"
    and "gl_tile_node_map (assign_node t n l) = (gl_tile_node_map (clear_tile t l))(u64_of_ucoord t \<mapsto> n)"
    and "gl_node_tile_map (assign_node t n l) = (gl_node_tile_map (clear_tile t l))(n \<mapsto> u64_of_ucoord t)"
    and "gl_num_wires (assign_node t n l) =
      (if is_wire l n then gl_num_wires (clear_tile t l) + 1 else gl_num_wires (clear_tile t l))"
    and "gl_num_gates (assign_node t n l) =
      (if is_wire l n then gl_num_gates (clear_tile t l) else gl_num_gates (clear_tile t l) + 1)"
proof -
  have "is_wire (clear_tile t l) n = is_wire l n"
    using clear_tile_data [of t l] assms(2) by (simp add: is_wire_functions)
  then have w: "is_wire ((clear_tile t l)\<lparr>gl_tile_node_map := A, gl_node_tile_map := B\<rparr>) n = is_wire l n" for A B
    by (simp add: is_wire_def is_buf_def node_at_def)
  show "node_fns (assign_node t n l) = node_fns l"
    and "gl_tile_node_map (assign_node t n l) = (gl_tile_node_map (clear_tile t l))(u64_of_ucoord t \<mapsto> n)"
    and "gl_node_tile_map (assign_node t n l) = (gl_node_tile_map (clear_tile t l))(n \<mapsto> u64_of_ucoord t)"
    and "gl_num_wires (assign_node t n l) =
      (if is_wire l n then gl_num_wires (clear_tile t l) + 1 else gl_num_wires (clear_tile t l))"
    and "gl_num_gates (assign_node t n l) =
      (if is_wire l n then gl_num_gates (clear_tile t l) else gl_num_gates (clear_tile t l) + 1)"
    using assms(1) clear_tile_data [of t l] by (simp_all add: assign_node_def Let_def w node_fns_def)
qed

lemma assign_node_length [simp]: "length (gl_nodes (assign_node t n l)) = length (gl_nodes l)"
  by (simp add: assign_node_def Let_def)

lemma assign_node_wf:
  assumes wf: "gl_wf l" and n: "gl_node_tile_map l n = None" "1 < n" "unat n < length (gl_nodes l)"
  shows "gl_wf (assign_node t n l)"
proof (cases "is_dead t")
  case True
  then show ?thesis using wf by (simp add: assign_node_def)
next
  case False
  let ?l = "clear_tile t l"
  have wf': "gl_wf ?l" by (rule clear_tile_wf [OF wf const1_dead [OF False]])
  have eq: "node_fns ?l = node_fns l" using clear_tile_data [of t l] by blast
  have "gl_tile_node_map ?l (u64_of_ucoord t) = None" "gl_node_tile_map ?l n = None"
    using clear_tile_maps [OF wf] n(1) by simp_all
  from placed_wf_assign [OF wf' [unfolded gl_wf_def] this] False n(2,3)
  show ?thesis
    unfolding gl_wf_def assign_node_data [OF False n(3)]
    by (simp add: eq is_wire_functions [OF n(3)])
qed

text \<open>A new node without a tile.\<close>

definition append_node :: "gl_node \<Rightarrow> 'tt gate_level_layout \<Rightarrow> 'tt gate_level_layout" where
  "append_node d l = l\<lparr>gl_nodes := gl_nodes l @ [d]\<rparr>"

lemma append_node_wf: "gl_wf l \<Longrightarrow> gl_wf (append_node d l)"
  using placed_wf_extend by (simp add: gl_wf_def append_node_def node_fns_def)

lemma append_node_simps [simp]:
  "gl_tile_node_map (append_node d l) = gl_tile_node_map l"
  "gl_node_tile_map (append_node d l) = gl_node_tile_map l"
  "length (gl_nodes (append_node d l)) = Suc (length (gl_nodes l))"
  by (simp_all add: append_node_def)

definition room :: "'tt gate_level_layout \<Rightarrow> bool" where
  "room l \<longleftrightarrow> length (gl_nodes l) < 2 ^ 32"

lemma new_node_props:
  assumes "gl_wf l" and "room l"
  shows "unat (new_node l) = length (gl_nodes l)" and "1 < new_node l" and "gl_node_tile_map l (new_node l) = None"
proof -
  show u: "unat (new_node l) = length (gl_nodes l)"
    using assms(2) by (simp add: new_node_def room_def unat_of_nat)
  have "2 \<le> length (gl_nodes l)" using assms(1) by (simp add: gl_wf_def placed_wf_def)
  then show "1 < new_node l" by (simp add: word_less_nat_alt u)
  show "gl_node_tile_map l (new_node l) = None"
    using placed_wf_fresh assms unfolding gl_wf_def room_def new_node_def by fastforce
qed

text \<open>Appending a node, working on the layout without placing, assigning the node to its tile.\<close>

lemma place_new_wf:
  assumes "gl_wf l" and "room l" and "same_placed (append_node d l) l'"
  shows "gl_wf (assign_node t (new_node l) l')"
proof (rule assign_node_wf)
  show "gl_wf l'" using append_node_wf [OF assms(1)] same_placed_wf [OF assms(3)] by blast
  show "gl_node_tile_map l' (new_node l) = None"
    using assms(3) new_node_props(3) [OF assms(1,2)] by (simp add: same_placed_def)
  show "unat (new_node l) < length (gl_nodes l')"
    using same_placed_length [OF assms(3)] new_node_props(1) [OF assms(1,2)] by simp
qed (rule new_node_props(2) [OF assms(1,2)])

text \<open>The creating operations have this form.\<close>

definition creates :: "gl_node \<Rightarrow> ucoord_t \<Rightarrow> 'tt gate_level_layout \<Rightarrow> 'tt gate_level_layout \<Rightarrow> bool" where
  "creates d t l l'' \<longleftrightarrow>
     (\<exists>l'. same_placed (append_node d l) l' \<and> same_placed (assign_node t (new_node l) l') l'')"

lemma createsI:
  "same_placed (assign_node t (new_node l) l') l'' \<Longrightarrow> same_placed (append_node d l) l' \<Longrightarrow> creates d t l l''"
  by (auto simp: creates_def)

lemma creates_wf: "gl_wf l \<Longrightarrow> room l \<Longrightarrow> creates d t l l'' \<Longrightarrow> gl_wf l''"
  unfolding creates_def using place_new_wf same_placed_wf by blast

lemma same_placed_counts [simp]:
  "same_placed a (a\<lparr>gl_num_pos := p\<rparr>)" "same_placed a (a\<lparr>gl_num_pis := p\<rparr>)" "same_placed a (a\<lparr>gl_on_add := e\<rparr>)"
  by (simp_all add: same_placed_def node_fns_def)

lemma add_child_same:
  assumes "same_placed a b"
  shows "same_placed a (update_node n (\<lambda>d. d\<lparr>gn_children := gn_children d @ [s]\<rparr>) (incr_fanout s b))"
  by (rule same_placed_trans [OF same_placed_trans [OF assms incr_fanout_same] update_node_same]) simp

abbreviation buf_node :: gl_node where
  "buf_node \<equiv> empty_node\<lparr>gn_function := 2\<rparr>"

lemma create_pi_creates: "creates buf_node t l (snd (create_pi name t l))"
  unfolding create_pi_def Let_def snd_conv
  by (rule createsI, rule same_placed_counts) (simp add: same_placed_def append_node_def node_fns_def)

lemma create_ro_creates: "creates buf_node t l (snd (create_ro name t l))"
  unfolding create_ro_def Let_def snd_conv
  by (rule createsI, rule same_placed_refl) (simp add: same_placed_def append_node_def node_fns_def)

lemma create_po_creates: "creates buf_node t l (snd (create_po s name t l))"
  unfolding create_po_def Let_def snd_conv
  by (rule createsI, rule add_child_same, rule same_placed_counts)
    (simp add: same_placed_def append_node_def node_fns_def)

lemma create_ri_creates: "creates buf_node t l (snd (create_ri s name t l))"
  unfolding create_ri_def Let_def snd_conv
  by (rule createsI, rule add_child_same, rule same_placed_refl)
    (simp add: same_placed_def append_node_def node_fns_def)

lemma create_literal_creates:
  "creates (empty_node\<lparr>gn_children := cs, gn_function := lit\<rparr>) t l (snd (create_node_from_literal cs lit t l))"
proof -
  have "same_placed a (set_value n 0 (fold incr_fanout cs a))" for n and a :: "'a gate_level_layout"
    by (rule same_placed_trans [OF fold_fanout_same(1) set_value_same])
  then show ?thesis
    unfolding create_node_from_literal_def Let_def snd_conv append_node_def [symmetric]
    by (intro createsI [OF same_placed_counts(3)])
qed

lemmas create_creates = create_pi_creates create_ro_creates create_po_creates create_ri_creates
  create_literal_creates

lemma create_wf:
  assumes "gl_wf l" and "room l"
  shows "gl_wf (snd (create_pi name t l))" and "gl_wf (snd (create_ro name t l))"
    and "gl_wf (snd (create_po s name t l))" and "gl_wf (snd (create_ri s name t l))"
    and "gl_wf (snd (create_node_from_literal cs lit t l))"
  by (rule creates_wf [OF assms], rule create_creates)+

lemma create_node_wf: "gl_wf l \<Longrightarrow> room l \<Longrightarrow> gl_wf (snd (create_node k cs f t l))"
  using create_wf(5) [of "l\<lparr>gl_fn_cache := gl_fn_cache l @ [f]\<rparr>"]
  by (simp add: create_node_def gl_wf_def room_def node_fns_def)

lemma make_wf: "gl_wf (make_gate_level_layout k t ar scheme name)"
proof -
  have "alive const0 = False" "alive const1 = False" by (simp_all add: alive_def const0_def const1_def ucoord_of_u64_def)
  then have "gates_of F [const0 \<mapsto> 0, const1 \<mapsto> 1] = {}" "wires_of F [const0 \<mapsto> 0, const1 \<mapsto> 1] = {}" for F
    by (auto simp: gates_of_def wires_of_def split: if_splits)
  moreover have "maps_inverse [const0 \<mapsto> 0, const1 \<mapsto> 1] [0 \<mapsto> const0, 1 \<mapsto> const1]"
    by (auto simp: maps_inverse_def const0_def const1_def)
  ultimately show ?thesis
    by (auto simp: gl_wf_def placed_wf_def make_gate_level_layout_def initialize_truth_table_cache_def
        node_fns_def Let_def \<open>alive const0 = False\<close> \<open>alive const1 = False\<close>)
qed

section \<open>Moving nodes\<close>

lemma gl_wf_maps: "gl_wf l \<Longrightarrow> gl_tile_node_map l s = Some n \<longleftrightarrow> gl_node_tile_map l n = Some s"
  by (simp add: gl_wf_def placed_wf_def maps_inverse_def)

lemma get_tile_key:
  assumes "gl_wf l" and "1 < n"
  shows "u64_of_ucoord (get_tile l n) \<noteq> const1"
    and "gl_node_tile_map l n = Some s \<Longrightarrow> s = u64_of_ucoord (get_tile l n)"
    and "gl_node_tile_map l n = None \<Longrightarrow> u64_of_ucoord (get_tile l n) = const0"
proof -
  show "gl_node_tile_map l n = Some s \<Longrightarrow> s = u64_of_ucoord (get_tile l n)"
    by (simp add: get_tile_def)
  show d: "gl_node_tile_map l n = None \<Longrightarrow> u64_of_ucoord (get_tile l n) = const0"
    by (simp add: get_tile_def const0_def u64_of_ucoord_def ucoord_default_def)
  show "u64_of_ucoord (get_tile l n) \<noteq> const1"
  proof (cases "gl_node_tile_map l n")
    case None
    then show ?thesis using d by (simp add: const0_def const1_def)
  next
    case (Some s)
    have "gl_tile_node_map l const1 = Some 1" using assms(1) by (simp add: gl_wf_def placed_wf_def)
    with Some gl_wf_maps [OF assms(1), of const1 n] assms(2) show ?thesis
      by (auto simp: get_tile_def)
  qed
qed

text \<open>The four stages of \<open>move_node\<close> that matter to placement.\<close>

lemma move_node_form:
  "\<exists>l' l''. same_placed l l' \<and> length (gl_nodes l') = length (gl_nodes l) \<and>
     same_placed (if t \<noteq> get_tile l n then assign_node t n (clear_tile (get_tile l n) l') else l') l'' \<and>
     move_node n t cs l = (u64_of_ucoord t, l'')"
proof -
  let ?l1 = "fold decr_fanout (gn_children (node_at l n)) l"
  let ?l2 = "update_node n (\<lambda>d. d\<lparr>gn_children := []\<rparr>) ?l1"
  let ?l3 = "if t \<noteq> get_tile l n then revive_node n (assign_node t n (clear_tile (get_tile l n) ?l2)) else ?l2"
  let ?l4 = "update_node n (\<lambda>d. d\<lparr>gn_children := gn_children d @ cs\<rparr>) ?l3"
  let ?l5 = "fold incr_fanout cs ?l4"
  have 2: "same_placed l ?l2"
    by (rule same_placed_trans [OF fold_fanout_same(2) update_node_same]) simp
  have 3: "same_placed (if t \<noteq> get_tile l n then assign_node t n (clear_tile (get_tile l n) ?l2) else ?l2) ?l3"
    by simp
  have "same_placed ?l3 ?l4" by (rule update_node_same) simp
  then have 5: "same_placed ?l3 ?l5" by (rule same_placed_trans) simp
  have 6: "same_placed ?l5 (snd (move_node n t cs l))"
    by (simp add: move_node_def Let_def same_placed_def node_fns_def)
  show ?thesis
    using 2 same_placed_length [OF 2] same_placed_trans [OF same_placed_trans [OF 3 5] 6]
    by (intro exI [of _ ?l2] exI [of _ "snd (move_node n t cs l)"]) (auto simp: move_node_def Let_def)
qed

lemma move_node_wf:
  assumes wf: "gl_wf l" and n: "1 < n" "unat n < length (gl_nodes l)"
  shows "gl_wf (snd (move_node n t cs l))"
proof -
  obtain l' l'' where 1: "same_placed l l'" "length (gl_nodes l') = length (gl_nodes l)"
    and 2: "same_placed (if t \<noteq> get_tile l n then assign_node t n (clear_tile (get_tile l n) l') else l') l''"
    and 3: "move_node n t cs l = (u64_of_ucoord t, l'')"
    using move_node_form [of l t n cs] by blast
  let ?o = "get_tile l n"
  have wf': "gl_wf l'" using wf same_placed_wf [OF 1(1)] by simp
  have wfc: "gl_wf (clear_tile ?o l')" by (rule clear_tile_wf [OF wf' get_tile_key(1) [OF wf n(1)]])
  have none: "gl_node_tile_map (clear_tile ?o l') n = None"
  proof (cases "gl_node_tile_map l n")
    case None
    then show ?thesis using 1(1) by (simp add: clear_tile_maps(2) [OF wf'] same_placed_def)
  next
    case (Some s)
    then show ?thesis using 1(1) get_tile_key(2) [OF wf n(1)]
      by (simp add: clear_tile_maps(2) [OF wf'] same_placed_def)
  qed
  have "gl_wf (assign_node t n (clear_tile ?o l'))"
    by (rule assign_node_wf [OF wfc none n(1)]) (use n(2) 1(2) in simp)
  with wf' 2 have "gl_wf l''" using same_placed_wf [OF 2] by (simp split: if_splits)
  then show ?thesis by (simp add: 3)
qed

section \<open>The abstract view: which node lies on which tile\<close>

definition placement :: "'tt gate_level_layout \<Rightarrow> ucoord_t \<rightharpoonup> node" where
  "placement l t = (if is_dead t then None else gl_tile_node_map l (u64_of_ucoord t))"

definition place :: "ucoord_t \<Rightarrow> node \<Rightarrow> (ucoord_t \<rightharpoonup> node) \<Rightarrow> (ucoord_t \<rightharpoonup> node)" where
  "place t n p = (if is_dead t then p else p(t \<mapsto> n))"

definition unplace :: "node \<Rightarrow> (ucoord_t \<rightharpoonup> node) \<Rightarrow> (ucoord_t \<rightharpoonup> node)" where
  "unplace n p t = (if p t = Some n then None else p t)"

lemma same_placed_placement: "same_placed l l' \<Longrightarrow> placement l' = placement l"
  by (rule ext) (simp add: placement_def same_placed_def)

lemma placement_clear: "gl_wf l \<Longrightarrow> placement (clear_tile t l) = (placement l)(t := None)"
  by (rule ext) (simp add: placement_def clear_tile_maps)

lemma placement_assign:
  assumes "gl_wf l" and "unat n < length (gl_nodes l)"
  shows "placement (assign_node t n l) = place t n (placement l)"
proof (cases "is_dead t")
  case True
  then show ?thesis by (simp add: assign_node_def place_def)
next
  case False
  then show ?thesis
    using assign_node_data(2) [OF False assms(2)] assms(1)
    by (intro ext) (simp add: placement_def place_def clear_tile_maps)
qed

lemma creates_placement:
  assumes "gl_wf l" and "room l" and "creates d t l l''"
  shows "placement l'' = place t (new_node l) (placement l)"
proof -
  obtain l' where l': "same_placed (append_node d l) l'" "same_placed (assign_node t (new_node l) l') l''"
    using assms(3) by (auto simp: creates_def)
  have "gl_wf l'" using append_node_wf [OF assms(1)] same_placed_wf [OF l'(1)] by blast
  moreover have "unat (new_node l) < length (gl_nodes l')"
    using same_placed_length [OF l'(1)] new_node_props(1) [OF assms(1,2)] by simp
  ultimately have "placement l'' = place t (new_node l) (placement l')"
    using placement_assign same_placed_placement [OF l'(2)] by metis
  also have "placement l' = placement l"
    using l'(1) by (intro ext) (simp add: same_placed_def placement_def)
  finally show ?thesis .
qed

lemma placement_get_tile:
  assumes "gl_wf l" and "1 < n"
  shows "placement l t = Some n \<longleftrightarrow> \<not> is_dead t \<and> t = get_tile l n"
proof
  assume h: "placement l t = Some n"
  then have "gl_node_tile_map l n = Some (u64_of_ucoord t)" "\<not> is_dead t"
    using gl_wf_maps [OF assms(1)] by (simp_all add: placement_def split: if_splits)
  then show "\<not> is_dead t \<and> t = get_tile l n" by (simp add: get_tile_def)
next
  assume h: "\<not> is_dead t \<and> t = get_tile l n"
  show "placement l t = Some n"
  proof (cases "gl_node_tile_map l n")
    case None
    with h show ?thesis by (auto simp: get_tile_def is_dead_def ucoord_default_def)
  next
    case (Some s)
    with h show ?thesis using gl_wf_maps [OF assms(1), of s n]
      by (auto simp: placement_def get_tile_def)
  qed
qed

lemma move_node_placement:
  assumes wf: "gl_wf l" and n: "1 < n" "unat n < length (gl_nodes l)"
  shows "placement (snd (move_node n t cs l)) = place t n (unplace n (placement l))"
proof -
  obtain l' l'' where 1: "same_placed l l'" "length (gl_nodes l') = length (gl_nodes l)"
    and 2: "same_placed (if t \<noteq> get_tile l n then assign_node t n (clear_tile (get_tile l n) l') else l') l''"
    and 3: "move_node n t cs l = (u64_of_ucoord t, l'')"
    using move_node_form [of l t n cs] by blast
  let ?o = "get_tile l n"
  have un: "unplace n (placement l) = (placement l)(?o := None)"
    using placement_get_tile [OF wf n(1)] by (intro ext) (auto simp: unplace_def placement_def)
  have wf': "gl_wf l'" using wf same_placed_wf [OF 1(1)] by simp
  have wfc: "gl_wf (clear_tile ?o l')" by (rule clear_tile_wf [OF wf' get_tile_key(1) [OF wf n(1)]])
  show ?thesis
  proof (cases "t = ?o")
    case True
    have "place t n ((placement l)(?o := None)) = placement l"
      using True placement_get_tile [OF wf n(1), of t] by (intro ext) (auto simp: place_def placement_def)
    then show ?thesis
      using 2 1(1) True 3 by (auto simp: un dest!: same_placed_placement)
  next
    case False
    have "placement l'' = place t n (placement (clear_tile ?o l'))"
      using False same_placed_placement [OF 2] placement_assign [OF wfc, of n t] n(2) 1(2) by simp
    then show ?thesis
      by (simp add: 3 un placement_clear [OF wf'] same_placed_placement [OF 1(1)])
  qed
qed

section \<open>Children\<close>

definition node_children :: "'tt gate_level_layout \<Rightarrow> signal list list" where
  "node_children l = map gn_children (gl_nodes l)"

lemma update_node_children:
  "node_children (update_node n f l) =
     (if unat n < length (gl_nodes l) then (node_children l)[unat n := gn_children (f (node_at l n))] else node_children l)"
  by (simp add: node_children_def update_node_def map_update list_update_beyond)

lemma update_node_children_same:
  "(\<And>d. gn_children (f d) = gn_children d) \<Longrightarrow> node_children (update_node n f l) = node_children l"
  unfolding update_node_children by (simp add: node_children_def node_at_def) (metis list_update_id map_update)

lemma length_update_node [simp]: "length (gl_nodes (update_node n f l)) = length (gl_nodes l)"
  by (simp add: update_node_def)

lemma fanout_children [simp]:
  "node_children (incr_fanout s l) = node_children l" "node_children (decr_fanout s l) = node_children l"
  "node_children (kill_node n l) = node_children l" "node_children (revive_node n l) = node_children l"
  by (simp_all add: incr_fanout_def decr_fanout_def kill_node_def revive_node_def update_node_children_same)

lemma fold_fanout_children [simp]:
  "node_children (fold incr_fanout ss l) = node_children l"
  "node_children (fold decr_fanout ss l) = node_children l"
  by (induction ss arbitrary: l) simp_all

lemma node_children_upd [simp]:
  "node_children (l\<lparr>gl_num_wires := w\<rparr>) = node_children l"
  "node_children (l\<lparr>gl_num_gates := w\<rparr>) = node_children l"
  "node_children (l\<lparr>gl_tile_node_map := T\<rparr>) = node_children l"
  "node_children (l\<lparr>gl_node_tile_map := N\<rparr>) = node_children l"
  "node_children (l\<lparr>gl_outputs := out\<rparr>) = node_children l"
  by (simp_all add: node_children_def)

lemma clear_assign_children [simp]:
  "node_children (clear_tile t l) = node_children l" "node_children (assign_node t n l) = node_children l"
  by (simp_all add: clear_tile_def assign_node_def Let_def split: option.split)

lemma length_nodes_children: "length (gl_nodes l) = length (node_children l)"
  by (simp add: node_children_def)

lemma children_at: "unat m < length (gl_nodes l) \<Longrightarrow> gn_children (node_at l m) = node_children l ! unat m"
  by (simp add: node_children_def node_at_def)

lemma move_node_children:
  assumes "unat n < length (gl_nodes l)"
  shows "node_children (snd (move_node n t cs l)) = (node_children l)[unat n := cs]"
proof -
  let ?l1 = "fold decr_fanout (gn_children (node_at l n)) l"
  let ?l2 = "update_node n (\<lambda>d. d\<lparr>gn_children := []\<rparr>) ?l1"
  let ?l3 = "if t \<noteq> get_tile l n then revive_node n (assign_node t n (clear_tile (get_tile l n) ?l2)) else ?l2"
  let ?l4 = "update_node n (\<lambda>d. d\<lparr>gn_children := gn_children d @ cs\<rparr>) ?l3"
  have len: "length (gl_nodes ?l1) = length (gl_nodes l)" by (simp add: length_nodes_children)
  have 2: "node_children ?l2 = (node_children l)[unat n := []]"
    using assms by (simp add: update_node_children len)
  have 3: "node_children ?l3 = (node_children l)[unat n := []]"
    using 2 by simp
  then have r: "unat n < length (gl_nodes ?l3)" using assms by (simp only: length_nodes_children length_list_update)
  then have "gn_children (node_at ?l3 n) = []" using assms 3 by (simp add: children_at length_nodes_children)
  then have "node_children ?l4 = (node_children l)[unat n := cs]"
    using r 3 by (simp add: update_node_children)
  moreover have "node_children (snd (move_node n t cs l)) = node_children ?l4"
    by (simp add: move_node_def Let_def)
  ultimately show ?thesis by simp
qed

section \<open>Properties\<close>

text \<open>A new layout keeps the invariant: the maps between tiles and nodes are inverse to each
  other, only the constants lie on dead tiles, and the counters of gates and wires count them.\<close>

theorem new_layout_wf: "gl_wf (make_gate_level_layout k t ar scheme name)"
  by (rule make_wf)

text \<open>C2. Every operation that creates a node keeps the invariant, whatever was on the tile before and
  whether the tile is in the layout, outside it or dead.\<close>

theorem create_keeps_wf:
  assumes "gl_wf l" and "length (gl_nodes l) < 2 ^ 32"
  shows "gl_wf (snd (create_pi name t l)) \<and> gl_wf (snd (create_po s name t l)) \<and>
    gl_wf (snd (create_ro name t l)) \<and> gl_wf (snd (create_ri s name t l)) \<and>
    gl_wf (snd (create_node_from_literal cs lit t l)) \<and> gl_wf (snd (create_node k fs f t l))"
  using create_wf [OF assms(1)] create_node_wf [OF assms(1)] assms(2) by (simp add: room_def)

text \<open>A layout for the witnesses: an input, a wire and an output in a row.\<close>

definition sample_layout :: "'tt kitty \<Rightarrow> 'tt gate_level_layout" where
  "sample_layout k =
     snd (create_po (u64_of_ucoord (ucoord3 1 0 0)) ''f'' (ucoord3 2 0 0)
       (snd (create_buf (u64_of_ucoord (ucoord3 0 0 0)) (ucoord3 1 0 0)
         (snd (create_pi ''a'' (ucoord3 0 0 0)
           (make_gate_level_layout k Cartesian (ucoord3 3 3 1) (twoddwave_clocking Cartesian FOUR) []))))))"

lemma make_length: "length (gl_nodes (make_gate_level_layout k t ar scheme name)) = 2"
  by (simp add: make_gate_level_layout_def initialize_truth_table_cache_def Let_def)

lemma creates_length: "creates d t l l'' \<Longrightarrow> length (gl_nodes l'') = Suc (length (gl_nodes l))"
  by (auto simp: creates_def dest!: same_placed_length)

lemma sample_layout_wf: "gl_wf (sample_layout k)" "length (gl_nodes (sample_layout k)) = 5"
proof -
  let ?l0 = "make_gate_level_layout k Cartesian (ucoord3 3 3 1) (twoddwave_clocking Cartesian FOUR) []"
  let ?l1 = "snd (create_pi ''a'' (ucoord3 0 0 0) ?l0)"
  let ?l2 = "snd (create_buf (u64_of_ucoord (ucoord3 0 0 0)) (ucoord3 1 0 0) ?l1)"
  have n1: "length (gl_nodes ?l1) = 3" by (simp add: creates_length [OF create_pi_creates] make_length)
  have n2: "length (gl_nodes ?l2) = 4"
    unfolding create_buf_def by (simp add: creates_length [OF create_literal_creates] n1)
  have "gl_wf ?l1" by (rule create_wf(1) [OF make_wf]) (simp add: room_def make_length)
  then have "gl_wf ?l2" unfolding create_buf_def by (rule create_wf(5)) (simp add: room_def n1)
  then show "gl_wf (sample_layout k)" unfolding sample_layout_def by (rule create_wf(3)) (simp add: room_def n2)
  show "length (gl_nodes (sample_layout k)) = 5"
    unfolding sample_layout_def by (simp add: creates_length [OF create_po_creates] n2)
qed

lemma create_keeps_wf_witness:
  "\<forall>k f. gl_wf (snd (create_pi ''b'' (ucoord3 1 0 0) (sample_layout k))) \<and>
    gl_wf (snd (create_po 7 ''b'' (ucoord3 1 0 0) (sample_layout k))) \<and>
    gl_wf (snd (create_ro ''b'' (ucoord3 1 0 0) (sample_layout k))) \<and>
    gl_wf (snd (create_ri 7 ''b'' (ucoord3 1 0 0) (sample_layout k))) \<and>
    gl_wf (snd (create_node_from_literal [1, 2] 4 (ucoord3 1 0 0) (sample_layout k))) \<and>
    gl_wf (snd (create_node k [1, 2] f (ucoord3 1 0 0) (sample_layout k)))"
  by (intro allI, rule create_keeps_wf) (simp_all add: sample_layout_wf)

text \<open>C4. Creating a node puts exactly that node on the tile, in the abstract view: on a live tile the
  new node replaces what was there, nothing else moves, and on a dead tile nothing is placed.\<close>

theorem create_refines_place:
  assumes "gl_wf l" and "length (gl_nodes l) < 2 ^ 32"
  shows "placement (snd (create_node_from_literal cs lit t l)) = place t (new_node l) (placement l) \<and>
    placement (snd (create_pi name t l)) = place t (new_node l) (placement l) \<and>
    placement (snd (create_po s name t l)) = place t (new_node l) (placement l) \<and>
    placement (snd (create_ro name t l)) = place t (new_node l) (placement l) \<and>
    placement (snd (create_ri s name t l)) = place t (new_node l) (placement l)"
proof -
  have "room l" using assms(2) by (simp add: room_def)
  then show ?thesis by (intro conjI) (rule creates_placement [OF assms(1)], assumption, rule create_creates)+
qed

lemma create_refines_place_witness:
  "\<forall>k. placement (snd (create_node_from_literal [1] 3 (ucoord3 1 0 0) (sample_layout k))) =
      place (ucoord3 1 0 0) (new_node (sample_layout k)) (placement (sample_layout k)) \<and>
    placement (snd (create_pi [] (ucoord3 1 0 0) (sample_layout k))) =
      place (ucoord3 1 0 0) (new_node (sample_layout k)) (placement (sample_layout k)) \<and>
    placement (snd (create_po 1 [] (ucoord3 1 0 0) (sample_layout k))) =
      place (ucoord3 1 0 0) (new_node (sample_layout k)) (placement (sample_layout k)) \<and>
    placement (snd (create_ro [] (ucoord3 1 0 0) (sample_layout k))) =
      place (ucoord3 1 0 0) (new_node (sample_layout k)) (placement (sample_layout k)) \<and>
    placement (snd (create_ri 1 [] (ucoord3 1 0 0) (sample_layout k))) =
      place (ucoord3 1 0 0) (new_node (sample_layout k)) (placement (sample_layout k))"
  by (intro allI, rule create_refines_place) (simp_all add: sample_layout_wf)

text \<open>C1. Moving a node keeps the invariant, puts the node on the new tile and nowhere else, removes
  what was on that tile, leaves all other tiles as they were, and replaces the node's children by the
  given ones and those of no other node. This covers updating the children in place, moving off the
  layout to a dead tile and placing a node that had no tile.\<close>

theorem move_node_correct:
  assumes "gl_wf l" and "1 < n" and "unat n < length (gl_nodes l)"
  shows "gl_wf (snd (move_node n t cs l)) \<and>
    placement (snd (move_node n t cs l)) = place t n (unplace n (placement l)) \<and>
    node_children (snd (move_node n t cs l)) = (node_children l)[unat n := cs]"
  by (simp add: move_node_wf [OF assms] move_node_placement [OF assms] move_node_children [OF assms(3)])

lemma move_node_correct_witness:
  "\<forall>k. gl_wf (snd (move_node 3 (ucoord3 2 1 0) [1] (sample_layout k))) \<and>
    placement (snd (move_node 3 (ucoord3 2 1 0) [1] (sample_layout k))) =
      place (ucoord3 2 1 0) 3 (unplace 3 (placement (sample_layout k))) \<and>
    node_children (snd (move_node 3 (ucoord3 2 1 0) [1] (sample_layout k))) =
      (node_children (sample_layout k))[unat (3 :: u32) := [1]]"
  by (intro allI, rule move_node_correct) (simp_all add: sample_layout_wf)

end
