(* ===== verification/Gate_Level_Flow.thy ===== *)
theory Gate_Level_Flow
  imports Gate_Level_Invariant
begin

text \<open>
  The data flow of a gate-level layout. The z-dimension has one bit, so a zone with the zones above
  and below it is the whole column of the layout: an incoming tile is any tile of the layout whose
  column is an incoming neighbour and that is a child of the node. If the clock numbers do not
  depend on the layer, incoming and outgoing data flow are converse to each other, and under a
  linear clocking scheme the data flow has no cycle.
\<close>

section \<open>Columns\<close>

definition same_column :: "ucoord_t \<Rightarrow> ucoord_t \<Rightarrow> bool" where
  "same_column c d \<longleftrightarrow> ux d = ux c \<and> uy d = uy c"

lemma lyt_above_below:
  "lyt_above l c = cart_above (lyt_dimension l) c" "lyt_below l c = cart_below c"
  by (simp_all add: lyt_above_def lyt_below_def hex_below_def split: option.split)

lemma above_below_grid:
  assumes "lyt_in_grid l c"
  shows "{c, lyt_above l c, lyt_below l c} = {d. lyt_in_grid l d \<and> same_column c d}"
proof -
  have in_col: "lyt_in_grid l d \<and> same_column c d \<longleftrightarrow>
      \<not> ud d \<and> uz d \<le> uz (lyt_dimension l) \<and> ux d = ux c \<and> uy d = uy c" for d
    using assms by (auto simp: lyt_in_grid_def in_grid_def same_column_def)
  have c: "\<not> ud c" "uz c \<le> uz (lyt_dimension l)" using assms by (simp_all add: lyt_in_grid_def in_grid_def)
  have "{c, cart_above (lyt_dimension l) c, cart_below c} =
      {d. \<not> ud d \<and> uz d \<le> uz (lyt_dimension l) \<and> ux d = ux c \<and> uy d = uy c}"
  proof (cases "uz c = 0")
    case True
    consider "uz (lyt_dimension l) = 0" | "uz (lyt_dimension l) = 1" using word1_cases by blast
    then show ?thesis
      using c True word1_cases
      by cases (auto simp: cart_above_def cart_below_def ucoord_upd_iff(3,5) set_eq_iff)
  next
    case False
    then have z: "uz c = 1" using word1_cases [of "uz c"] by simp
    with c have "uz (lyt_dimension l) = 1" using word1_cases [of "uz (lyt_dimension l)"] by auto
    with z show ?thesis
      using c word1_cases by (auto simp: cart_above_def cart_below_def ucoord_upd_iff(3,5) set_eq_iff)
  qed
  then show ?thesis by (simp add: lyt_above_below in_col)
qed

lemma above_below_set:
  assumes "lyt_in_grid l c"
  shows "set (above_below l c) = {d. lyt_in_grid l d \<and> same_column c d}"
proof -
  have "set (fold (set_insert ucoord_less) [c, lyt_above l c, lyt_below l c] []) =
      set [c, lyt_above l c, lyt_below l c] \<union> set []"
  proof (rule ucoord_order.fold_set_insert_mem)
    fix a b
    assume "a \<in> set [c, lyt_above l c, lyt_below l c] \<union> set []"
      and "b \<in> set [c, lyt_above l c, lyt_below l c] \<union> set []" and "a \<noteq> b"
    then have "\<not> ud a" "\<not> ud b"
      using above_below_grid [OF assms] by (auto simp: lyt_in_grid_def in_grid_def)
    then show "ucoord_less a b \<or> ucoord_less b a" using ucoord_less_total \<open>a \<noteq> b\<close> by blast
  qed simp
  then show ?thesis using above_below_grid [OF assms] by (simp add: above_below_def)
qed

text \<open>Collecting from several columns into one set.\<close>

lemma fold_copy_sorted:
  "sorted_wrt ucoord_less acc \<Longrightarrow>
   sorted_wrt ucoord_less (fold (\<lambda>c. copy_if (set_insert ucoord_less) P (f c)) cs acc)"
  by (induction cs arbitrary: acc) (simp_all add: copy_if_def ucoord_order.sorted_fold_set_insert)

lemma fold_copy_set:
  assumes "sorted_wrt ucoord_less acc" and "\<forall>a \<in> set acc \<union> (\<Union>c\<in>set cs. set (f c)). \<not> ud a"
  shows "set (fold (\<lambda>c. copy_if (set_insert ucoord_less) P (f c)) cs acc) =
    set acc \<union> {a. \<exists>c \<in> set cs. a \<in> set (f c) \<and> P a}"
  using assms
proof (induction cs arbitrary: acc)
  case (Cons c cs)
  let ?acc = "copy_if (set_insert ucoord_less) P (f c) acc"
  have "set (fold (set_insert ucoord_less) (filter P (f c)) acc) = set (filter P (f c)) \<union> set acc"
    by (rule ucoord_order.fold_set_insert_mem)
      (use Cons.prems in \<open>auto dest: ucoord_less_total [rotated]\<close>)
  then have set: "set ?acc = set acc \<union> {a \<in> set (f c). P a}" by (auto simp: copy_if_def)
  have "set (fold (\<lambda>c. copy_if (set_insert ucoord_less) P (f c)) cs ?acc) =
      set ?acc \<union> {a. \<exists>c \<in> set cs. a \<in> set (f c) \<and> P a}"
    by (rule Cons.IH)
      (use Cons.prems set in \<open>auto simp: copy_if_def ucoord_order.sorted_fold_set_insert\<close>)
  then show ?case by (auto simp: set)
qed simp

section \<open>Incoming and outgoing tiles\<close>

definition in_column :: "ucoord_t \<Rightarrow> ucoord_t \<Rightarrow> ucoord_t" where
  "in_column d c = d\<lparr>uz := uz c\<rparr>"

lemma in_grid_column: "lyt_in_grid l c \<Longrightarrow> lyt_in_grid l d \<Longrightarrow> lyt_in_grid l (in_column d c)"
  by (simp add: lyt_in_grid_def in_grid_def in_column_def)

lemma column_inc:
  assumes "lyt_in_grid l i" and "lyt_in_grid l d" and "uz i = uz c"
  shows "same_column i d \<longleftrightarrow> i = in_column d c"
  using assms by (auto simp: same_column_def in_column_def lyt_in_grid_def in_grid_def ucoord_upd_iff(3,5))

lemma flow_sorted:
  "sorted_wrt ucoord_less (incoming_set l t)" "sorted_wrt ucoord_less (outgoing_set l t)"
  by (simp_all add: incoming_set_def outgoing_set_def incoming_data_flow_def outgoing_data_flow_def
      fold_copy_sorted)

lemma flow_set:
  assumes en: "lyt_enumerable l" and t: "lyt_in_grid l t"
  shows "set (incoming_set l t) = {d. lyt_in_grid l d \<and> lyt_neighbour l t (in_column d t) \<and>
      is_incoming_clocked l t (in_column d t) \<and> is_child l (get_node_of_tile l t) (u64_of_ucoord d)}"
    and "set (outgoing_set l t) = {d. lyt_in_grid l d \<and> lyt_neighbour l t (in_column d t) \<and>
      is_outgoing_clocked l t (in_column d t) \<and> is_child l (get_node_of_tile l d) (u64_of_ucoord t)}"
proof -
  have main: "set (fold (\<lambda>c. copy_if (set_insert ucoord_less) P (above_below l c)) zs []) =
      {d. lyt_in_grid l d \<and> lyt_neighbour l t (in_column d t) \<and> R (in_column d t) \<and> P d}"
    if zs: "set zs = {d. lyt_in_grid l d \<and> lyt_neighbour l t d \<and> R d}" for zs P R
  proof -
    have ab: "set (above_below l c) = {d. lyt_in_grid l d \<and> same_column c d}" if "c \<in> set zs" for c
      using above_below_set [of l c] that zs by simp
    have "set (fold (\<lambda>c. copy_if (set_insert ucoord_less) P (above_below l c)) zs []) =
        {a. \<exists>c \<in> set zs. a \<in> set (above_below l c) \<and> P a}"
      by (subst fold_copy_set) (auto simp: ab lyt_in_grid_def in_grid_def)
    also have "\<dots> = {d. lyt_in_grid l d \<and> lyt_neighbour l t (in_column d t) \<and> R (in_column d t) \<and> P d}"
    proof (intro set_eqI iffI)
      fix d
      assume "d \<in> {a. \<exists>c \<in> set zs. a \<in> set (above_below l c) \<and> P a}"
      then obtain c where c: "c \<in> set zs" and d: "lyt_in_grid l d" "same_column c d" "P d" using ab by auto
      have "uz c = uz t" "lyt_in_grid l c" using c zs by (auto simp: lyt_neighbour_def)
      then have "c = in_column d t" using column_inc d by blast
      with c d zs show "d \<in> {d. lyt_in_grid l d \<and> lyt_neighbour l t (in_column d t) \<and> R (in_column d t) \<and> P d}"
        by simp
    next
      fix d
      assume d: "d \<in> {d. lyt_in_grid l d \<and> lyt_neighbour l t (in_column d t) \<and> R (in_column d t) \<and> P d}"
      then have "in_column d t \<in> set zs" using zs in_grid_column [OF t] by simp
      moreover have "d \<in> set (above_below l (in_column d t))"
        using d ab [OF \<open>in_column d t \<in> set zs\<close>] by (simp add: same_column_def in_column_def)
      ultimately show "d \<in> {a. \<exists>c \<in> set zs. a \<in> set (above_below l c) \<and> P a}" using d by blast
    qed
    finally show ?thesis .
  qed
  show "set (incoming_set l t) = {d. lyt_in_grid l d \<and> lyt_neighbour l t (in_column d t) \<and>
      is_incoming_clocked l t (in_column d t) \<and> is_child l (get_node_of_tile l t) (u64_of_ucoord d)}"
    using main [OF incoming_zones_set(1) [OF en t]]
    by (simp add: incoming_set_def incoming_data_flow_def incoming_zones_def)
  show "set (outgoing_set l t) = {d. lyt_in_grid l d \<and> lyt_neighbour l t (in_column d t) \<and>
      is_outgoing_clocked l t (in_column d t) \<and> is_child l (get_node_of_tile l d) (u64_of_ucoord t)}"
    using main [OF incoming_zones_set(2) [OF en t]]
    by (simp add: outgoing_set_def outgoing_data_flow_def outgoing_zones_def)
qed

section \<open>Layer-independent clocking\<close>

definition layer_uniform :: "'a clocked_layout_scheme \<Rightarrow> bool" where
  "layer_uniform l \<longleftrightarrow> (\<forall>c z. get_clock_number l (c\<lparr>uz := z\<rparr>) = get_clock_number l c)"

lemma lookup_fn_uniform:
  assumes "get_clocking_scheme t name = Some s"
  shows "cs_fn s (c\<lparr>uz := z\<rparr>) = cs_fn s c"
proof -
  have hexf: "twoddwave_hex_function arr n (c\<lparr>uz := z\<rparr>) = twoddwave_hex_function arr n c" for arr n
    by (cases arr; cases n; simp add: twoddwave_hex_function_def cutout_yx_def cutout_xy_def)
  obtain k where "(k, s) \<in> set (scheme_lookup t)" using get_clocking_scheme_mem [OF assms] by blast
  then show ?thesis
    unfolding scheme_lookup_def by (auto simp: scheme_defs cutout_yx_def hexf split: topology.splits)
qed

lemma lookup_no_override:
  assumes "get_clocking_scheme t name = Some s"
  shows "cs_override s = Map.empty"
proof -
  obtain k where "(k, s) \<in> set (scheme_lookup t)" using get_clocking_scheme_mem [OF assms] by blast
  then show ?thesis
    unfolding scheme_lookup_def by (auto simp: scheme_defs split: topology.splits)
qed

lemma lookup_layer_uniform:
  assumes "get_clocking_scheme (lyt_topology l) name = Some (cl_clocking l)"
  shows "layer_uniform l"
  using lookup_no_override [OF assms] lookup_fn_uniform [OF assms]
  by (simp add: layer_uniform_def get_clock_number_def scheme_clock_def)

lemma neighbour_column:
  "lyt_neighbour l c (in_column d c) \<longleftrightarrow> lyt_neighbour l d (in_column c d)"
proof -
  have m: "manhattan c (in_column d c) = manhattan d (in_column c d)"
    by (simp add: manhattan_def in_column_def abs_minus_commute)
  have q: "to_cube_coordinate arr (in_column x y) = to_cube_coordinate arr x" for arr x y
    by (cases "hex_orientation_of arr") (simp_all add: to_cube_coordinate_def in_column_def)
  have h: "hex_cube_adjacent arr c (in_column d c) \<longleftrightarrow> hex_cube_adjacent arr d (in_column c d)" for arr
    using hex_cube_adjacent_sym by (auto simp: hex_cube_adjacent_def q cube_distance_def abs_minus_commute)
  show ?thesis
    unfolding lyt_neighbour_def m h by (simp add: in_column_def split: option.split)
qed

lemma outgoing_column:
  assumes "layer_uniform l" and "lyt_neighbour l c (in_column d c)"
  shows "is_outgoing_clocked l c (in_column d c) \<longleftrightarrow> is_outgoing_clocked l (in_column c d) d"
proof -
  have "c \<noteq> in_column d c" using assms(2) lyt_neighbour_irrefl by metis
  moreover have "in_column c d \<noteq> d" using assms(2) neighbour_column lyt_neighbour_irrefl by metis
  ultimately show ?thesis
    using assms(1) by (simp add: is_outgoing_clocked_def layer_uniform_def in_column_def)
qed

lemma flow_dual:
  assumes "lyt_enumerable l" and "layer_uniform l" and "lyt_in_grid l c" and "lyt_in_grid l d"
  shows "d \<in> set (outgoing_set l c) \<longleftrightarrow> c \<in> set (incoming_set l d)"
  using assms outgoing_column [OF assms(2), of c d] neighbour_column [of l c d]
  by (auto simp: flow_set is_incoming_outgoing)

section \<open>No cycles under a linear scheme\<close>

definition data_flow :: "'tt gate_level_layout \<Rightarrow> (ucoord_t \<times> ucoord_t) set" where
  "data_flow l = {(c, d). lyt_in_grid l c \<and> d \<in> set (outgoing_set l c)}"

lemma linear_position_column: "linear_position t s (in_column d c) = linear_position t s d"
  by (simp add: linear_position_def in_column_def split: topology.split)

lemma data_flow_acyclic:
  assumes "lyt_enumerable l"
    and "get_clocking_scheme (lyt_topology l) name = Some (cl_clocking l)"
    and "is_linear_scheme (cl_clocking l)" and "linear_on (lyt_topology l) (cl_clocking l)"
  shows "acyclic (data_flow l)"
proof -
  have "data_flow l \<subseteq> measure (linear_position (lyt_topology l) (cl_clocking l))"
  proof (rule subrelI)
    fix c d
    assume "(c, d) \<in> data_flow l"
    then have "lyt_neighbour l c (in_column d c)" and "is_outgoing_clocked l c (in_column d c)"
      by (auto simp: data_flow_def flow_set [OF assms(1)])
    then show "(c, d) \<in> measure (linear_position (lyt_topology l) (cl_clocking l))"
      using outgoing_advances [OF assms(2-4)] by (simp add: linear_position_column)
  qed
  then show ?thesis by (meson acyclic_subset wf_acyclic wf_measure)
qed

section \<open>Counters, inputs and outputs\<close>

lemma placement_range:
  assumes "gl_wf l" and "placement l t = Some n"
  shows "unat n < length (gl_nodes l) \<and> 1 < n"
proof -
  have "gl_tile_node_map l (u64_of_ucoord t) = Some n" "alive (u64_of_ucoord t)"
    using assms(2) by (simp_all add: placement_def split: if_splits)
  with assms(1) show ?thesis unfolding gl_wf_def placed_wf_def length_node_fns by blast
qed

lemma card_placed:
  assumes "gl_wf l"
  shows "card {s. \<exists>n. gl_tile_node_map l s = Some n \<and> alive s \<and> Q (node_fns l ! unat n)} =
    card {t. \<exists>n. placement l t = Some n \<and> Q (gn_function (node_at l n))}" (is "card ?S = card ?T")
proof -
  have fn: "node_fns l ! unat n = gn_function (node_at l n)" if "placement l t = Some n" for t n
    using placement_range [OF assms that] by (simp add: node_fns_def node_at_def)
  have pl: "placement l (ucoord_of_u64 s) = Some n" if "gl_tile_node_map l s = Some n" "alive s" for s n
    using that by (simp add: placement_def alive_def is_dead_def)
  have "?S = u64_of_ucoord ` ?T"
  proof (intro set_eqI iffI)
    fix s
    assume "s \<in> ?S"
    then obtain n where n: "gl_tile_node_map l s = Some n" "alive s" "Q (node_fns l ! unat n)" by blast
    have "Q (gn_function (node_at l n))" using n(3) fn [OF pl [OF n(1,2)]] by simp
    with pl [OF n(1,2)] have "ucoord_of_u64 s \<in> ?T" by blast
    then show "s \<in> u64_of_ucoord ` ?T" by (rule image_eqI [rotated]) simp
  next
    fix s
    assume "s \<in> u64_of_ucoord ` ?T"
    then obtain t n where s: "s = u64_of_ucoord t" and n: "placement l t = Some n" "Q (gn_function (node_at l n))"
      by blast
    from n(1) have "gl_tile_node_map l s = Some n" "alive s" by (simp_all add: s placement_def split: if_splits)
    then show "s \<in> ?S" using fn [OF n(1)] n(2) by auto
  qed
  moreover have "inj_on u64_of_ucoord ?T" by (simp add: inj_on_def)
  ultimately show ?thesis by (simp add: card_image)
qed

lemma counters_placement:
  assumes "gl_wf l"
  shows "num_wires l = of_nat (card {t. \<exists>n. placement l t = Some n \<and> is_wire l n})"
    and "num_gates l = of_nat (card {t. \<exists>n. placement l t = Some n \<and> \<not> is_wire l n})"
proof -
  have "gl_num_wires l = of_nat (card (wires_of (node_fns l) (gl_tile_node_map l)))"
    "gl_num_gates l = of_nat (card (gates_of (node_fns l) (gl_tile_node_map l)))"
    using assms by (simp_all only: gl_wf_def placed_wf_def)
  then show "num_wires l = of_nat (card {t. \<exists>n. placement l t = Some n \<and> is_wire l n})"
    "num_gates l = of_nat (card {t. \<exists>n. placement l t = Some n \<and> \<not> is_wire l n})"
    using card_placed [OF assms, of "\<lambda>f. f = 2"] card_placed [OF assms, of "\<lambda>f. f \<noteq> 2"]
    by (simp_all only: num_wires_def num_gates_def wires_of_def gates_of_def is_wire_def is_buf_def)
qed

lemma get_node_placement: "\<not> is_dead t \<Longrightarrow> get_node_of_tile l t = (case placement l t of Some n \<Rightarrow> n | None \<Rightarrow> 0)"
  by (simp add: get_node_of_tile_def get_node_def placement_def)

lemma incoming_length:
  assumes "lyt_enumerable l" and "lyt_in_grid l t"
  shows "length (incoming_set l t) \<le> length (gn_children (node_at l (get_node_of_tile l t)))"
proof -
  let ?cs = "gn_children (node_at l (get_node_of_tile l t))"
  have "distinct (incoming_set l t)" by (rule ucoord_order.sorted_distinct [OF flow_sorted(1)])
  moreover have "inj_on u64_of_ucoord (set (incoming_set l t))" by (simp add: inj_on_def)
  ultimately have "length (incoming_set l t) = card (u64_of_ucoord ` set (incoming_set l t))"
    by (simp add: distinct_card card_image)
  also have "\<dots> \<le> card (set ?cs)"
    by (intro card_mono) (auto simp: flow_set [OF assms] is_child_def)
  also have "\<dots> \<le> length ?cs" by (rule card_length)
  finally show ?thesis .
qed

lemma sequential_upd [simp]:
  "gl_inputs (clear_tile t l) = gl_inputs l" "gl_outputs (clear_tile t l) = gl_outputs l"
  "gl_num_pis (clear_tile t l) = gl_num_pis l" "gl_num_pos (clear_tile t l) = gl_num_pos l"
  "gl_num_registers (clear_tile t l) = gl_num_registers l"
  "gl_inputs (assign_node t n l) = gl_inputs l" "gl_outputs (assign_node t n l) = gl_outputs l"
  "gl_num_pis (assign_node t n l) = gl_num_pis l" "gl_num_pos (assign_node t n l) = gl_num_pos l"
  "gl_num_registers (assign_node t n l) = gl_num_registers l"
  by (simp_all add: clear_tile_def assign_node_def kill_node_def update_node_def Let_def split: option.split)

lemma outputs_upd [simp]:
  "gl_outputs (update_node n f l) = gl_outputs l" "gl_num_pos (update_node n f l) = gl_num_pos l"
  "gl_outputs (revive_node n l) = gl_outputs l" "gl_num_pos (revive_node n l) = gl_num_pos l"
  "gl_outputs (incr_fanout s l) = gl_outputs l" "gl_num_pos (incr_fanout s l) = gl_num_pos l"
  "gl_outputs (decr_fanout s l) = gl_outputs l" "gl_num_pos (decr_fanout s l) = gl_num_pos l"
  by (simp_all add: update_node_def revive_node_def incr_fanout_def decr_fanout_def)

lemma fold_outputs [simp]:
  "gl_outputs (fold incr_fanout ss l) = gl_outputs l" "gl_num_pos (fold incr_fanout ss l) = gl_num_pos l"
  "gl_outputs (fold decr_fanout ss l) = gl_outputs l" "gl_num_pos (fold decr_fanout ss l) = gl_num_pos l"
  by (induction ss arbitrary: l) simp_all

lemma move_node_outputs:
  "gl_num_pos (snd (move_node n t cs l)) = gl_num_pos l"
  "gl_outputs (snd (move_node n t cs l)) =
     (if is_dead t then filter (\<lambda>p. p \<noteq> u64_of_ucoord (get_tile l n)) (gl_outputs l)
      else map (\<lambda>p. if p = u64_of_ucoord (get_tile l n) then u64_of_ucoord t else p) (gl_outputs l))"
  by (auto simp: move_node_def Let_def intro!: map_idI [symmetric])

section \<open>Properties\<close>

text \<open>The layout below the gate-level layer.\<close>

definition base_layout :: "'tt gate_level_layout \<Rightarrow> topology \<times> ucoord_t \<times> clocking_scheme" where
  "base_layout l = (lyt_topology l, lyt_dimension l, cl_clocking l)"

lemma base_upd [simp]:
  "base_layout (update_node n f l) = base_layout l" "base_layout (clear_tile t l) = base_layout l"
  "base_layout (assign_node t n l) = base_layout l" "base_layout (incr_fanout s l) = base_layout l"
  "base_layout (set_value n v l) = base_layout l"
  by (simp_all add: base_layout_def update_node_def clear_tile_def assign_node_def kill_node_def
      incr_fanout_def set_value_def Let_def split: option.split)

lemma base_fields [simp]:
  "base_layout (l\<lparr>gl_nodes := ns\<rparr>) = base_layout l" "base_layout (l\<lparr>gl_inputs := is\<rparr>) = base_layout l"
  "base_layout (l\<lparr>gl_outputs := ps\<rparr>) = base_layout l" "base_layout (l\<lparr>gl_node_names := nm\<rparr>) = base_layout l"
  "base_layout (l\<lparr>gl_num_pis := p\<rparr>) = base_layout l" "base_layout (l\<lparr>gl_num_pos := p\<rparr>) = base_layout l"
  "base_layout (l\<lparr>gl_on_add := e\<rparr>) = base_layout l"
  by (simp_all add: base_layout_def)

lemma fold_base [simp]: "base_layout (fold incr_fanout ss l) = base_layout l"
  by (induction ss arbitrary: l) simp_all

lemma create_base [simp]:
  "base_layout (snd (create_pi name t l)) = base_layout l"
  "base_layout (snd (create_po s name t l)) = base_layout l"
  "base_layout (snd (create_node_from_literal cs lit t l)) = base_layout l"
  by (simp_all add: create_pi_def create_po_def create_node_from_literal_def Let_def)

lemma sample_base: "base_layout (sample_layout k) = (Cartesian, ucoord3 3 3 1, twoddwave_clocking Cartesian FOUR)"
  by (simp add: sample_layout_def create_buf_def)
    (simp add: base_layout_def make_gate_level_layout_def initialize_truth_table_cache_def Let_def)

lemma sample_layout_shape [simp]:
  "lyt_topology (sample_layout k) = Cartesian" "lyt_dimension (sample_layout k) = ucoord3 3 3 1"
  "cl_clocking (sample_layout k) = twoddwave_clocking Cartesian FOUR"
  using sample_base [of k] by (simp_all add: base_layout_def)

lemma sample_layout_grid:
  "lyt_enumerable (sample_layout k)" "lyt_in_grid (sample_layout k) (ucoord3 1 0 0)"
  "lyt_in_grid (sample_layout k) (ucoord3 2 0 0)"
  by (simp_all add: lyt_enumerable_def enumerable_def lyt_in_grid_def in_grid_def ucoord3_def)

text \<open>C3. Fanins and fanouts agree: if the clock numbers do not depend on the layer, as under every
  pre-defined scheme without overrides, a tile is in the outgoing data flow of another exactly if the
  other is in its incoming data flow, crossing layers included; and a tile never has more incoming
  tiles than its node has children.\<close>

theorem data_flow_dual:
  assumes "lyt_enumerable l" and "get_clocking_scheme (lyt_topology l) name = Some (cl_clocking l)"
    and "lyt_in_grid l c" and "lyt_in_grid l d"
  shows "(d \<in> set (outgoing_set l c) \<longleftrightarrow> c \<in> set (incoming_set l d)) \<and>
    length (incoming_set l d) \<le> length (gn_children (node_at l (get_node_of_tile l d)))"
  using flow_dual [OF assms(1) lookup_layer_uniform [OF assms(2)] assms(3,4)] incoming_length [OF assms(1,4)]
  by blast

lemma data_flow_dual_witness:
  "\<forall>k. (ucoord3 2 0 0 \<in> set (outgoing_set (sample_layout k) (ucoord3 1 0 0)) \<longleftrightarrow>
      ucoord3 1 0 0 \<in> set (incoming_set (sample_layout k) (ucoord3 2 0 0))) \<and>
    length (incoming_set (sample_layout k) (ucoord3 2 0 0)) \<le>
      length (gn_children (node_at (sample_layout k) (get_node_of_tile (sample_layout k) (ucoord3 2 0 0))))"
  by (intro allI, rule data_flow_dual [where name = "''2DDWave''"])
    (simp_all add: sample_layout_grid lookup_wave)

text \<open>C7. Under the linear schemes, on the topologies that they are meant for, the data flow of a layout has no
  cycle, whatever the children of its nodes are: on Cartesian layouts for COLUMNAR, ROW and 2DDWAVE, on
  shifted layouts for COLUMNAR and ROW, on hexagonal layouts for COLUMNAR, ROW and 2DDWAVEHEX. The scheme
  is one of the pre-defined ones, without clock numbers assigned by hand.\<close>

theorem linear_data_flow_acyclic:
  assumes "lyt_enumerable l"
    and "get_clocking_scheme (lyt_topology l) name = Some (cl_clocking l)"
    and "is_linear_scheme (cl_clocking l)" and "linear_on (lyt_topology l) (cl_clocking l)"
  shows "acyclic {(c, d). lyt_in_grid l c \<and> d \<in> set (outgoing_set l c)}"
  using data_flow_acyclic [OF assms] by (simp add: data_flow_def)

lemma linear_data_flow_acyclic_witness:
  "\<forall>k. acyclic {(c, d). lyt_in_grid (sample_layout k) c \<and> d \<in> set (outgoing_set (sample_layout k) c)}"
  by (intro allI, rule linear_data_flow_acyclic [where name = "''2DDWave''"])
    (simp_all add: sample_layout_grid lookup_wave is_linear_scheme_def scheme_eq_name_def linear_on_def,
     simp add: twoddwave_clocking_def)

text \<open>Moving a node to a dead tile takes its tile out of the list of outputs but leaves the number
  of primary outputs; after that \<open>is_po\<close> and \<open>foreach_po\<close> read past the end of the list.\<close>

theorem move_off_layout_keeps_num_pos:
  assumes "is_dead t" and "u64_of_ucoord (get_tile l n) \<in> set (gl_outputs l)"
  shows "num_pos (snd (move_node n t cs l)) = num_pos l \<and>
    length (gl_outputs (snd (move_node n t cs l))) < length (gl_outputs l)"
  using assms length_filter_less [of "u64_of_ucoord (get_tile l n)" "gl_outputs l" "\<lambda>p. p \<noteq> u64_of_ucoord (get_tile l n)"]
  by (simp add: num_pos_def move_node_outputs)

lemma sample_output:
  "get_tile (sample_layout k) 4 = ucoord3 2 0 0" "u64_of_ucoord (ucoord3 2 0 0) \<in> set (gl_outputs (sample_layout k))"
proof -
  let ?l0 = "make_gate_level_layout k Cartesian (ucoord3 3 3 1) (twoddwave_clocking Cartesian FOUR) []"
  let ?l1 = "snd (create_pi ''a'' (ucoord3 0 0 0) ?l0)"
  let ?l2 = "snd (create_buf (u64_of_ucoord (ucoord3 0 0 0)) (ucoord3 1 0 0) ?l1)"
  have s: "sample_layout k = snd (create_po (u64_of_ucoord (ucoord3 1 0 0)) ''f'' (ucoord3 2 0 0) ?l2)"
    by (simp add: sample_layout_def)
  have n1: "length (gl_nodes ?l1) = 3" by (simp add: creates_length [OF create_pi_creates] make_length)
  have n2: "length (gl_nodes ?l2) = 4"
    unfolding create_buf_def by (simp add: creates_length [OF create_literal_creates] n1)
  have "gl_wf ?l1" by (rule create_wf(1) [OF make_wf]) (simp add: room_def make_length)
  then have "gl_wf ?l2" unfolding create_buf_def by (rule create_wf(5)) (simp add: room_def n1)
  then have "placement (sample_layout k) = place (ucoord3 2 0 0) (new_node ?l2) (placement ?l2)"
    unfolding s by (rule creates_placement [OF _ _ create_po_creates]) (simp add: room_def n2)
  moreover have "new_node ?l2 = 4" by (simp add: new_node_def n2)
  ultimately have "placement (sample_layout k) (ucoord3 2 0 0) = Some 4"
    by (simp add: place_def is_dead_def ucoord3_def)
  then show "get_tile (sample_layout k) 4 = ucoord3 2 0 0"
    using placement_get_tile [OF sample_layout_wf(1) [of k], where n = 4 and t = "ucoord3 2 0 0"] by simp
  show "u64_of_ucoord (ucoord3 2 0 0) \<in> set (gl_outputs (sample_layout k))"
    unfolding s by (simp add: create_po_def Let_def)
qed

lemma move_off_layout_keeps_num_pos_witness:
  "\<forall>k. num_pos (snd (move_node 4 ucoord_default [] (sample_layout k))) = num_pos (sample_layout k) \<and>
    length (gl_outputs (snd (move_node 4 ucoord_default [] (sample_layout k)))) < length (gl_outputs (sample_layout k))"
  by (intro allI, rule move_off_layout_keeps_num_pos)
    (simp_all add: sample_output is_dead_def ucoord_default_def)

text \<open>An input created after a register output is appended behind it, so the partition of the
  inputs by their number classifies the register output as an input and the input as neither.\<close>

theorem input_after_register_misclassified:
  "is_pi (snd (create_pi b t2 (snd (create_ro a t1 (make_gate_level_layout k t ar s nm))))) 2 \<and>
   \<not> is_pi (snd (create_pi b t2 (snd (create_ro a t1 (make_gate_level_layout k t ar s nm))))) 3"
  by (simp add: is_pi_def num_pis_def create_pi_def create_ro_def Let_def new_node_def make_gate_level_layout_def
      initialize_truth_table_cache_def)

end
