(* ===== verification/Cell_Technologies.thy ===== *)
theory Cell_Technologies
  imports Fiction_Prelude
begin

text \<open>
  Model of \<open>technology/cell_technologies.hpp\<close>: the three technologies QCA, iNML and SiDB. A cell type
  is an enumeration over \<open>uint8_t\<close> whose constants are characters, and the gate libraries obtain
  their values by casting characters; the model's \<open>cell_type\<close> is the character. The type parameter
  \<open>Technology\<close> of the layouts and libraries is the record \<open>'m technology\<close> of its static members, with
  \<open>'m\<close> its type of cell modes; \<open>qca_technology\<close>, \<open>inml_technology\<close> and \<open>sidb_technology\<close> are its values.

  The locale \<open>cell_technology\<close> is the contract that the cell-level layouts rely on. It is interpreted
  on the three technologies.
\<close>

type_synonym cell_type = char

record 'm technology =
  tech_EMPTY :: cell_type
  tech_is_empty_cell :: "cell_type \<Rightarrow> bool"
  tech_is_normal_cell :: "cell_type \<Rightarrow> bool"
  tech_is_input_cell :: "cell_type \<Rightarrow> bool"
  tech_is_output_cell :: "cell_type \<Rightarrow> bool"
  tech_default_mode :: 'm
  tech_is_normal_cell_mode :: "'m \<Rightarrow> bool"

text \<open>The marks that may be applied to a cell; they have the values of the cell types.\<close>

datatype cell_mark = MARK_EMPTY | MARK_INPUT | MARK_OUTPUT

section \<open>Quantum-dot cellular automata\<close>

definition QCA_EMPTY :: cell_type where "QCA_EMPTY = CHR '' ''"
definition QCA_NORMAL :: cell_type where "QCA_NORMAL = CHR ''x''"
definition QCA_INPUT :: cell_type where "QCA_INPUT = CHR ''i''"
definition QCA_OUTPUT :: cell_type where "QCA_OUTPUT = CHR ''o''"
definition QCA_CONST_0 :: cell_type where "QCA_CONST_0 = CHR ''0''"
definition QCA_CONST_1 :: cell_type where "QCA_CONST_1 = CHR ''1''"

datatype qca_cell_mode = MODE_NORMAL | MODE_ROTATED | MODE_VERTICAL | MODE_CROSSOVER

fun qca_mark :: "cell_mark \<Rightarrow> cell_type" where
  "qca_mark MARK_EMPTY = QCA_EMPTY"
| "qca_mark MARK_INPUT = QCA_INPUT"
| "qca_mark MARK_OUTPUT = QCA_OUTPUT"

definition qca_is_empty_cell :: "cell_type \<Rightarrow> bool" where
  "qca_is_empty_cell c = (c = QCA_EMPTY)"

definition qca_is_normal_cell :: "cell_type \<Rightarrow> bool" where
  "qca_is_normal_cell c = (c = QCA_NORMAL)"

definition qca_is_input_cell :: "cell_type \<Rightarrow> bool" where
  "qca_is_input_cell c = (c = QCA_INPUT)"

definition qca_is_output_cell :: "cell_type \<Rightarrow> bool" where
  "qca_is_output_cell c = (c = QCA_OUTPUT)"

definition qca_is_const_0_cell :: "cell_type \<Rightarrow> bool" where
  "qca_is_const_0_cell c = (c = QCA_CONST_0)"

definition qca_is_const_1_cell :: "cell_type \<Rightarrow> bool" where
  "qca_is_const_1_cell c = (c = QCA_CONST_1)"

definition qca_is_constant_cell :: "cell_type \<Rightarrow> bool" where
  "qca_is_constant_cell c = (qca_is_const_0_cell c \<or> qca_is_const_1_cell c)"

definition qca_is_normal_cell_mode :: "qca_cell_mode \<Rightarrow> bool" where
  "qca_is_normal_cell_mode m = (m = MODE_NORMAL)"

definition qca_is_rotated_cell_mode :: "qca_cell_mode \<Rightarrow> bool" where
  "qca_is_rotated_cell_mode m = (m = MODE_ROTATED)"

definition qca_is_vertical_cell_mode :: "qca_cell_mode \<Rightarrow> bool" where
  "qca_is_vertical_cell_mode m = (m = MODE_VERTICAL)"

definition qca_is_crossover_cell_mode :: "qca_cell_mode \<Rightarrow> bool" where
  "qca_is_crossover_cell_mode m = (m = MODE_CROSSOVER)"

definition qca_technology :: "qca_cell_mode technology" where
  "qca_technology =
     \<lparr>tech_EMPTY = QCA_EMPTY, tech_is_empty_cell = qca_is_empty_cell,
      tech_is_normal_cell = qca_is_normal_cell, tech_is_input_cell = qca_is_input_cell,
      tech_is_output_cell = qca_is_output_cell, tech_default_mode = MODE_NORMAL,
      tech_is_normal_cell_mode = qca_is_normal_cell_mode\<rparr>"

section \<open>In-plane nanomagnet logic\<close>

definition INML_EMPTY :: cell_type where "INML_EMPTY = CHR '' ''"
definition INML_NORMAL :: cell_type where "INML_NORMAL = CHR ''x''"
definition INML_INPUT :: cell_type where "INML_INPUT = CHR ''i''"
definition INML_OUTPUT :: cell_type where "INML_OUTPUT = CHR ''o''"
definition SLANTED_EDGE_UP_MAGNET :: cell_type where "SLANTED_EDGE_UP_MAGNET = CHR ''u''"
definition SLANTED_EDGE_DOWN_MAGNET :: cell_type where "SLANTED_EDGE_DOWN_MAGNET = CHR ''d''"
definition INVERTER_MAGNET :: cell_type where "INVERTER_MAGNET = CHR ''n''"
definition CROSSWIRE_MAGNET :: cell_type where "CROSSWIRE_MAGNET = CHR ''c''"
definition FANOUT_COUPLER_MAGNET :: cell_type where "FANOUT_COUPLER_MAGNET = CHR ''f''"

fun inml_mark :: "cell_mark \<Rightarrow> cell_type" where
  "inml_mark MARK_EMPTY = INML_EMPTY"
| "inml_mark MARK_INPUT = INML_INPUT"
| "inml_mark MARK_OUTPUT = INML_OUTPUT"

definition inml_is_empty_cell :: "cell_type \<Rightarrow> bool" where
  "inml_is_empty_cell c = (c = INML_EMPTY)"

definition inml_is_normal_cell :: "cell_type \<Rightarrow> bool" where
  "inml_is_normal_cell c = (c = INML_NORMAL)"

definition inml_is_input_cell :: "cell_type \<Rightarrow> bool" where
  "inml_is_input_cell c = (c = INML_INPUT)"

definition inml_is_output_cell :: "cell_type \<Rightarrow> bool" where
  "inml_is_output_cell c = (c = INML_OUTPUT)"

definition is_slanted_edge_up_magnet :: "cell_type \<Rightarrow> bool" where
  "is_slanted_edge_up_magnet c = (c = SLANTED_EDGE_UP_MAGNET)"

definition is_slanted_edge_down_magnet :: "cell_type \<Rightarrow> bool" where
  "is_slanted_edge_down_magnet c = (c = SLANTED_EDGE_DOWN_MAGNET)"

definition is_slanted_edge_magnet :: "cell_type \<Rightarrow> bool" where
  "is_slanted_edge_magnet c = (is_slanted_edge_up_magnet c \<or> is_slanted_edge_down_magnet c)"

definition is_inverter_magnet :: "cell_type \<Rightarrow> bool" where
  "is_inverter_magnet c = (c = INVERTER_MAGNET)"

definition is_crosswire_magnet :: "cell_type \<Rightarrow> bool" where
  "is_crosswire_magnet c = (c = CROSSWIRE_MAGNET)"

definition is_fanout_coupler_magnet :: "cell_type \<Rightarrow> bool" where
  "is_fanout_coupler_magnet c = (c = FANOUT_COUPLER_MAGNET)"

text \<open>iNML and SiDB cells have no modes: \<open>cell_mode\<close> is an empty struct.\<close>

definition inml_is_normal_cell_mode :: "unit \<Rightarrow> bool" where
  "inml_is_normal_cell_mode m = True"

definition inml_technology :: "unit technology" where
  "inml_technology =
     \<lparr>tech_EMPTY = INML_EMPTY, tech_is_empty_cell = inml_is_empty_cell,
      tech_is_normal_cell = inml_is_normal_cell, tech_is_input_cell = inml_is_input_cell,
      tech_is_output_cell = inml_is_output_cell, tech_default_mode = (),
      tech_is_normal_cell_mode = inml_is_normal_cell_mode\<rparr>"

section \<open>Silicon dangling bonds\<close>

definition SIDB_EMPTY :: cell_type where "SIDB_EMPTY = CHR '' ''"
definition SIDB_NORMAL :: cell_type where "SIDB_NORMAL = CHR ''x''"
definition SIDB_INPUT :: cell_type where "SIDB_INPUT = CHR ''i''"
definition SIDB_OUTPUT :: cell_type where "SIDB_OUTPUT = CHR ''o''"

fun sidb_mark :: "cell_mark \<Rightarrow> cell_type" where
  "sidb_mark MARK_EMPTY = SIDB_EMPTY"
| "sidb_mark MARK_INPUT = SIDB_INPUT"
| "sidb_mark MARK_OUTPUT = SIDB_OUTPUT"

definition sidb_is_empty_cell :: "cell_type \<Rightarrow> bool" where
  "sidb_is_empty_cell c = (c = SIDB_EMPTY)"

definition sidb_is_normal_cell :: "cell_type \<Rightarrow> bool" where
  "sidb_is_normal_cell c = (c = SIDB_NORMAL)"

definition sidb_is_input_cell :: "cell_type \<Rightarrow> bool" where
  "sidb_is_input_cell c = (c = SIDB_INPUT)"

definition sidb_is_output_cell :: "cell_type \<Rightarrow> bool" where
  "sidb_is_output_cell c = (c = SIDB_OUTPUT)"

definition sidb_is_normal_cell_mode :: "unit \<Rightarrow> bool" where
  "sidb_is_normal_cell_mode m = True"

definition sidb_technology :: "unit technology" where
  "sidb_technology =
     \<lparr>tech_EMPTY = SIDB_EMPTY, tech_is_empty_cell = sidb_is_empty_cell,
      tech_is_normal_cell = sidb_is_normal_cell, tech_is_input_cell = sidb_is_input_cell,
      tech_is_output_cell = sidb_is_output_cell, tech_default_mode = (),
      tech_is_normal_cell_mode = sidb_is_normal_cell_mode\<rparr>"

text \<open>The cell dimensions: width, height, horizontal and vertical spacing. Those of QCA and iNML
  are integers in nanometers; those of SiDB are \<open>double\<close> constants, of which only the value 0 is
  an integer and which are left out.\<close>

definition qca_cell_dimensions :: "u64 \<times> u64 \<times> u64 \<times> u64" where
  "qca_cell_dimensions = (18, 18, 2, 2)"

definition inml_cell_dimensions :: "u64 \<times> u64 \<times> u64 \<times> u64" where
  "inml_cell_dimensions = (50, 100, 10, 25)"

section \<open>The contract of a technology\<close>

locale cell_technology =
  fixes T :: "'m technology"
  assumes empty_cell: "tech_is_empty_cell T c \<longleftrightarrow> c = tech_EMPTY T"
    and input_not_output: "tech_is_input_cell T c \<Longrightarrow> \<not> tech_is_output_cell T c"
    and input_not_empty: "tech_is_input_cell T c \<Longrightarrow> c \<noteq> tech_EMPTY T"
    and output_not_empty: "tech_is_output_cell T c \<Longrightarrow> c \<noteq> tech_EMPTY T"
    and normal_mode: "tech_is_normal_cell_mode T m \<longleftrightarrow> m = tech_default_mode T"

lemmas qca_cell_defs =
  QCA_EMPTY_def QCA_NORMAL_def QCA_INPUT_def QCA_OUTPUT_def QCA_CONST_0_def QCA_CONST_1_def
  qca_is_empty_cell_def qca_is_normal_cell_def qca_is_input_cell_def qca_is_output_cell_def
  qca_is_normal_cell_mode_def qca_technology_def

lemmas inml_cell_defs =
  INML_EMPTY_def INML_NORMAL_def INML_INPUT_def INML_OUTPUT_def INVERTER_MAGNET_def
  inml_is_empty_cell_def inml_is_normal_cell_def inml_is_input_cell_def inml_is_output_cell_def
  inml_is_normal_cell_mode_def inml_technology_def

lemmas sidb_cell_defs =
  SIDB_EMPTY_def SIDB_NORMAL_def SIDB_INPUT_def SIDB_OUTPUT_def
  sidb_is_empty_cell_def sidb_is_normal_cell_def sidb_is_input_cell_def sidb_is_output_cell_def
  sidb_is_normal_cell_mode_def sidb_technology_def

interpretation qca: cell_technology qca_technology
  by unfold_locales (auto simp: qca_cell_defs)

interpretation inml: cell_technology inml_technology
  by unfold_locales (auto simp: inml_cell_defs)

interpretation sidb: cell_technology sidb_technology
  by unfold_locales (auto simp: sidb_cell_defs)

lemma tech_EMPTY_simps [simp]:
  "tech_EMPTY qca_technology = QCA_EMPTY" "tech_EMPTY inml_technology = INML_EMPTY"
  "tech_EMPTY sidb_technology = SIDB_EMPTY"
  by (simp_all add: qca_technology_def inml_technology_def sidb_technology_def)

end
