(* ===== verification/Cell_Level_Layout.thy ===== *)
theory Cell_Level_Layout
  imports Clocked_Layout Cell_Technologies
begin

text \<open>
  Model of \<open>layouts/cell_level_layout.hpp\<close>. The record extends that of the clocked layout by the
  storage of the class; the type parameter \<open>Technology\<close> is an argument of the members that consult
  it. The unordered map of cell types is an association list without duplicate keys and the
  unordered sets of inputs and outputs are lists without duplicates, because their sizes are
  observable; the maps of modes and names are only read by key. A \<open>foreach\<close> member is the list of
  what it hands to its functor.

  The lemmas show the invariant of the storage, which every operation keeps for every technology
  (they are proved in the locale \<open>cell_technology\<close>), what each operation changes, and that all the
  cells of a tile have the clock number of the tile.
\<close>

section \<open>Storage\<close>

record 'm cell_level_layout = clocked_layout +
  cll_layout_name :: string
  cll_tile_size_x :: u16
  cll_tile_size_y :: u16
  cll_cell_type_map :: "(ucoord_t \<times> cell_type) list"
  cll_cell_mode_map :: "ucoord_t \<rightharpoonup> 'm"
  cll_cell_name_map :: "ucoord_t \<rightharpoonup> string"
  cll_inputs :: "ucoord_t list"
  cll_outputs :: "ucoord_t list"

definition make_cell_level_layout ::
    "topology \<Rightarrow> ucoord_t \<Rightarrow> clocking_scheme \<Rightarrow> string \<Rightarrow> u16 \<Rightarrow> u16 \<Rightarrow> 'm cell_level_layout" where
  "make_cell_level_layout t ar scheme name tile_x tile_y =
     \<lparr>lyt_topology = t, lyt_dimension = ar, cl_clocking = scheme,
      cll_layout_name = name, cll_tile_size_x = tile_x, cll_tile_size_y = tile_y,
      cll_cell_type_map = [], cll_cell_mode_map = Map.empty, cll_cell_name_map = Map.empty,
      cll_inputs = [], cll_outputs = []\<rparr>"

definition open_cell_level_layout ::
    "topology \<Rightarrow> ucoord_t \<Rightarrow> string \<Rightarrow> u16 \<Rightarrow> u16 \<Rightarrow> 'm cell_level_layout" where
  "open_cell_level_layout t ar name tile_x tile_y =
     make_cell_level_layout t ar (open_clocking t FOUR) name tile_x tile_y"

section \<open>Cell types, modes and names\<close>

definition assign_cell_type ::
    "'m technology \<Rightarrow> ucoord_t \<Rightarrow> cell_type \<Rightarrow> 'm cell_level_layout \<Rightarrow> 'm cell_level_layout" where
  "assign_cell_type T c ct l =
     (if tech_is_empty_cell T ct then
        l\<lparr>cll_cell_type_map := AList.delete c (cll_cell_type_map l),
          cll_cell_mode_map := (cll_cell_mode_map l)(c := None),
          cll_inputs := removeAll c (cll_inputs l),
          cll_outputs := removeAll c (cll_outputs l)\<rparr>
      else
        (let l1 = (if tech_is_input_cell T ct then l\<lparr>cll_inputs := List.insert c (cll_inputs l)\<rparr>
                   else if tech_is_output_cell T ct then l\<lparr>cll_outputs := List.insert c (cll_outputs l)\<rparr>
                   else l)
         in l1\<lparr>cll_cell_type_map := AList.update c ct (cll_cell_type_map l1)\<rparr>))"

definition get_cell_type :: "'m technology \<Rightarrow> 'm cell_level_layout \<Rightarrow> ucoord_t \<Rightarrow> cell_type" where
  "get_cell_type T l c = (case map_of (cll_cell_type_map l) c of Some ct \<Rightarrow> ct | None \<Rightarrow> tech_EMPTY T)"

definition cell_is_empty_cell :: "'m technology \<Rightarrow> 'm cell_level_layout \<Rightarrow> ucoord_t \<Rightarrow> bool" where
  "cell_is_empty_cell T l c = tech_is_empty_cell T (get_cell_type T l c)"

definition assign_cell_mode ::
    "'m technology \<Rightarrow> ucoord_t \<Rightarrow> 'm \<Rightarrow> 'm cell_level_layout \<Rightarrow> 'm cell_level_layout" where
  "assign_cell_mode T c m l =
     (if tech_is_normal_cell_mode T m then l\<lparr>cll_cell_mode_map := (cll_cell_mode_map l)(c := None)\<rparr>
      else l\<lparr>cll_cell_mode_map := (cll_cell_mode_map l)(c \<mapsto> m)\<rparr>)"

definition get_cell_mode :: "'m technology \<Rightarrow> 'm cell_level_layout \<Rightarrow> ucoord_t \<Rightarrow> 'm" where
  "get_cell_mode T l c = (case cll_cell_mode_map l c of Some m \<Rightarrow> m | None \<Rightarrow> tech_default_mode T)"

definition assign_cell_name ::
    "ucoord_t \<Rightarrow> string \<Rightarrow> 'm cell_level_layout \<Rightarrow> 'm cell_level_layout" where
  "assign_cell_name c n l =
     (if n = [] then l\<lparr>cll_cell_name_map := (cll_cell_name_map l)(c := None)\<rparr>
      else l\<lparr>cll_cell_name_map := (cll_cell_name_map l)(c \<mapsto> n)\<rparr>)"

definition get_cell_name :: "'m cell_level_layout \<Rightarrow> ucoord_t \<Rightarrow> string" where
  "get_cell_name l c = (case cll_cell_name_map l c of Some n \<Rightarrow> n | None \<Rightarrow> [])"

section \<open>Properties\<close>

definition cell_set_layout_name :: "string \<Rightarrow> 'm cell_level_layout \<Rightarrow> 'm cell_level_layout" where
  "cell_set_layout_name name l = l\<lparr>cll_layout_name := name\<rparr>"

definition cell_get_layout_name :: "'m cell_level_layout \<Rightarrow> string" where
  "cell_get_layout_name l = cll_layout_name l"

definition num_cells :: "'m cell_level_layout \<Rightarrow> u64" where
  "num_cells l = of_nat (length (cll_cell_type_map l))"

definition cell_is_empty :: "'m cell_level_layout \<Rightarrow> bool" where
  "cell_is_empty l = (cll_cell_type_map l = [])"

definition cell_num_pis :: "'m cell_level_layout \<Rightarrow> u32" where
  "cell_num_pis l = of_nat (length (cll_inputs l))"

definition cell_num_pos :: "'m cell_level_layout \<Rightarrow> u32" where
  "cell_num_pos l = of_nat (length (cll_outputs l))"

definition cell_is_pi :: "'m cell_level_layout \<Rightarrow> ucoord_t \<Rightarrow> bool" where
  "cell_is_pi l c = (c \<in> set (cll_inputs l))"

definition cell_is_po :: "'m cell_level_layout \<Rightarrow> ucoord_t \<Rightarrow> bool" where
  "cell_is_po l c = (c \<in> set (cll_outputs l))"

definition get_tile_size_x :: "'m cell_level_layout \<Rightarrow> u16" where
  "get_tile_size_x l = cll_tile_size_x l"

definition get_tile_size_y :: "'m cell_level_layout \<Rightarrow> u16" where
  "get_tile_size_y l = cll_tile_size_y l"

text \<open>Dividing by a tile size of 0 is undefined.\<close>

definition cell_clock_zone :: "'m cell_level_layout \<Rightarrow> ucoord_t \<Rightarrow> ucoord_t" where
  "cell_clock_zone l c =
     ucoord3 (of_nat (unat (ux c) div unat (cll_tile_size_x l)))
             (of_nat (unat (uy c) div unat (cll_tile_size_y l))) (ucast (uz c))"

definition cell_get_clock_number :: "'m cell_level_layout \<Rightarrow> ucoord_t \<Rightarrow> u8" where
  "cell_get_clock_number l c = get_clock_number l (cell_clock_zone l c)"

section \<open>Iteration\<close>

definition foreach_cell :: "'m cell_level_layout \<Rightarrow> ucoord_t list" where
  "foreach_cell l = map fst (cll_cell_type_map l)"

definition foreach_cell_position :: "'m cell_level_layout \<Rightarrow> ucoord_t list option" where
  "foreach_cell_position l = lyt_coordinates l ucoord_default ucoord_default"

definition cell_foreach_pi :: "'m cell_level_layout \<Rightarrow> ucoord_t list" where
  "cell_foreach_pi l = cll_inputs l"

definition cell_foreach_po :: "'m cell_level_layout \<Rightarrow> ucoord_t list" where
  "cell_foreach_po l = cll_outputs l"

section \<open>The operations as steps\<close>

text \<open>The operations that change the layout. \<open>cell_reachable T l\<close> says that \<open>l\<close> results from a
  constructor by a sequence of them.\<close>

datatype 'm cell_op =
  Assign_Type ucoord_t cell_type | Assign_Mode ucoord_t 'm | Assign_Name ucoord_t string
| Set_Layout_Name string

fun cell_apply :: "'m technology \<Rightarrow> 'm cell_op \<Rightarrow> 'm cell_level_layout \<Rightarrow> 'm cell_level_layout" where
  "cell_apply T (Assign_Type c ct) l = assign_cell_type T c ct l"
| "cell_apply T (Assign_Mode c m) l = assign_cell_mode T c m l"
| "cell_apply T (Assign_Name c n) l = assign_cell_name c n l"
| "cell_apply T (Set_Layout_Name n) l = cell_set_layout_name n l"

inductive cell_step :: "'m technology \<Rightarrow> 'm cell_level_layout \<Rightarrow> 'm cell_level_layout \<Rightarrow> bool" for T where
  step: "cell_step T l (cell_apply T opn l)"

inductive cell_reachable :: "'m technology \<Rightarrow> 'm cell_level_layout \<Rightarrow> bool" for T where
  start: "cell_reachable T (make_cell_level_layout t ar scheme name tx ty)"
| further: "cell_reachable T l \<Longrightarrow> cell_step T l l' \<Longrightarrow> cell_reachable T l'"

inductive_cases cell_step_cases: "cell_step T l l'"

section \<open>The invariant\<close>

definition cell_wf :: "'m technology \<Rightarrow> 'm cell_level_layout \<Rightarrow> bool" where
  "cell_wf T l \<longleftrightarrow>
     distinct (map fst (cll_cell_type_map l)) \<and> distinct (cll_inputs l) \<and> distinct (cll_outputs l) \<and>
     tech_EMPTY T \<notin> snd ` set (cll_cell_type_map l) \<and>
     set (cll_inputs l) \<union> set (cll_outputs l) \<subseteq> fst ` set (cll_cell_type_map l) \<and>
     {c. tech_is_input_cell T (get_cell_type T l c)} \<subseteq> set (cll_inputs l) \<and>
     {c. tech_is_output_cell T (get_cell_type T l c)} \<subseteq> set (cll_outputs l) \<and>
     (\<forall>c. cll_cell_mode_map l c \<noteq> Some (tech_default_mode T)) \<and>
     (\<forall>c. cll_cell_name_map l c \<noteq> Some [])"

lemma get_assign_cell_mode:
  assumes "cell_technology T"
  shows "get_cell_mode T (assign_cell_mode T c m l) d = (if d = c then m else get_cell_mode T l d)"
  using cell_technology.normal_mode [OF assms] by (simp add: get_cell_mode_def assign_cell_mode_def)

lemma get_assign_cell_name:
  "get_cell_name (assign_cell_name c n l) d = (if d = c then n else get_cell_name l d)"
  by (simp add: get_cell_name_def assign_cell_name_def)

lemma cell_type_other_ops [simp]:
  "get_cell_type T (assign_cell_mode T' c m l) = get_cell_type T l"
  "get_cell_type T (assign_cell_name c n l) = get_cell_type T l"
  "get_cell_type T (cell_set_layout_name n l) = get_cell_type T l"
  by (auto simp: get_cell_type_def assign_cell_mode_def assign_cell_name_def cell_set_layout_name_def fun_eq_iff)

lemma cell_maps_assign_type:
  "cll_cell_mode_map (assign_cell_type T c ct l) =
     (if tech_is_empty_cell T ct then (cll_cell_mode_map l)(c := None) else cll_cell_mode_map l)"
  "cll_cell_name_map (assign_cell_type T c ct l) = cll_cell_name_map l"
  by (simp_all add: assign_cell_type_def Let_def)

lemma cell_dims_ops [simp]:
  "cll_tile_size_x (assign_cell_type T c ct l) = cll_tile_size_x l"
  "cll_tile_size_y (assign_cell_type T c ct l) = cll_tile_size_y l"
  "cl_clocking (assign_cell_type T c ct l) = cl_clocking l"
  "lyt_topology (assign_cell_type T c ct l) = lyt_topology l"
  "lyt_dimension (assign_cell_type T c ct l) = lyt_dimension l"
  by (simp_all add: assign_cell_type_def Let_def)

lemma get_cell_type_new [simp]:
  "get_cell_type T (make_cell_level_layout t ar scheme name tx ty) c = tech_EMPTY T"
  by (simp add: get_cell_type_def make_cell_level_layout_def)

lemma keys_delete: "fst ` set (AList.delete k al) = fst ` set al - {k}"
  using arg_cong [OF AList.delete_keys [of k al], of set] by auto

context cell_technology
begin

lemma get_assign_cell_type:
  "get_cell_type T (assign_cell_type T c ct l) d = (if d = c then ct else get_cell_type T l d)"
  using empty_cell [of ct]
  by (auto simp: get_cell_type_def assign_cell_type_def AList.update_conv' AList.delete_conv')

lemma is_empty_iff: "cell_is_empty_cell T l c \<longleftrightarrow> get_cell_type T l c = tech_EMPTY T"
  by (simp add: cell_is_empty_cell_def empty_cell)

lemma new_cells_wf: "cell_wf T (make_cell_level_layout t ar scheme name tx ty)"
  using input_not_empty [of "tech_EMPTY T"] output_not_empty [of "tech_EMPTY T"]
  by (auto simp: cell_wf_def make_cell_level_layout_def get_cell_type_def)

lemma nonempty_positions:
  assumes "cell_wf T l"
  shows "fst ` set (cll_cell_type_map l) = {c. \<not> cell_is_empty_cell T l c}"
proof (rule set_eqI)
  fix c
  have "ct \<in> snd ` set (cll_cell_type_map l)" if "map_of (cll_cell_type_map l) c = Some ct" for ct
    using map_of_SomeD [OF that] by (rule rev_image_eqI) simp
  then have "\<And>ct. map_of (cll_cell_type_map l) c = Some ct \<Longrightarrow> ct \<noteq> tech_EMPTY T"
    using assms unfolding cell_wf_def by blast
  then have "(map_of (cll_cell_type_map l) c = None) = cell_is_empty_cell T l c"
    by (cases "map_of (cll_cell_type_map l) c") (simp_all add: is_empty_iff get_cell_type_def)
  then show "c \<in> fst ` set (cll_cell_type_map l) \<longleftrightarrow> c \<in> {c. \<not> cell_is_empty_cell T l c}"
    by (auto simp: map_of_eq_None_iff)
qed

lemma assign_type_wf:
  assumes wf: "cell_wf T l"
  shows "cell_wf T (assign_cell_type T c ct l)"
proof (cases "tech_is_empty_cell T ct")
  case True
  show ?thesis
    using wf True snd_delete [of c "cll_cell_type_map l"] input_not_empty [of ct] output_not_empty [of ct]
    unfolding cell_wf_def get_assign_cell_type
    by (auto simp: assign_cell_type_def keys_delete distinct_removeAll AList.distinct_delete empty_cell)
next
  case False
  show ?thesis
    using wf False snd_update [of c ct "cll_cell_type_map l"] input_not_output [of ct]
    unfolding cell_wf_def get_assign_cell_type
    by (auto simp: assign_cell_type_def AList.dom_update AList.distinct_update empty_cell)
qed

lemma assign_mode_wf: "cell_wf T l \<Longrightarrow> cell_wf T (assign_cell_mode T c m l)"
  unfolding cell_wf_def cell_type_other_ops by (auto simp: assign_cell_mode_def normal_mode)

lemma apply_wf: "cell_wf T l \<Longrightarrow> cell_wf T (cell_apply T opn l)"
proof (cases opn)
  case (Assign_Name c n)
  assume "cell_wf T l"
  then show ?thesis unfolding Assign_Name cell_apply.simps cell_wf_def cell_type_other_ops
    by (simp add: assign_cell_name_def)
next
  case (Set_Layout_Name n)
  assume "cell_wf T l"
  then show ?thesis unfolding Set_Layout_Name cell_apply.simps cell_wf_def cell_type_other_ops
    by (simp add: cell_set_layout_name_def)
qed (simp_all add: assign_type_wf assign_mode_wf)

lemma reachable_wf: "cell_reachable T l \<Longrightarrow> cell_wf T l"
  by (induction rule: cell_reachable.induct) (auto simp: new_cells_wf elim!: cell_step_cases intro: apply_wf)

lemma num_cells_card: "cell_wf T l \<Longrightarrow> num_cells l = of_nat (card {c. \<not> cell_is_empty_cell T l c})"
  using nonempty_positions [of l] distinct_card [of "map fst (cll_cell_type_map l)"]
  by (simp add: num_cells_def cell_wf_def)

lemma foreach_cell_positions: "cell_wf T l \<Longrightarrow> set (foreach_cell l) = {c. \<not> cell_is_empty_cell T l c}"
  by (simp add: foreach_cell_def nonempty_positions)

lemma cell_is_empty_iff: "cell_wf T l \<Longrightarrow> cell_is_empty l \<longleftrightarrow> (\<forall>c. cell_is_empty_cell T l c)"
  using nonempty_positions [of l] by (auto simp: cell_is_empty_def)

end

section \<open>The abstract layout\<close>

text \<open>What a cell-level layout is to its clients: the type, mode and name of each position. An
  operation is a pointwise update; erasing a cell also resets its mode and leaves its name.\<close>

definition cell_abs :: "'m technology \<Rightarrow> 'm cell_level_layout \<Rightarrow> ucoord_t \<Rightarrow> cell_type \<times> 'm \<times> string" where
  "cell_abs T l c = (get_cell_type T l c, get_cell_mode T l c, get_cell_name l c)"

fun spec_apply ::
    "'m technology \<Rightarrow> 'm cell_op \<Rightarrow> (ucoord_t \<Rightarrow> cell_type \<times> 'm \<times> string) \<Rightarrow> ucoord_t \<Rightarrow> cell_type \<times> 'm \<times> string"
where
  "spec_apply T (Assign_Type c ct) f =
     (case f c of (_, m, n) \<Rightarrow> f(c := (ct, if ct = tech_EMPTY T then tech_default_mode T else m, n)))"
| "spec_apply T (Assign_Mode c m) f = (case f c of (ct, _, n) \<Rightarrow> f(c := (ct, m, n)))"
| "spec_apply T (Assign_Name c n) f = (case f c of (ct, m, _) \<Rightarrow> f(c := (ct, m, n)))"
| "spec_apply T (Set_Layout_Name n) f = f"

lemma cell_mode_name_other_ops [simp]:
  "get_cell_name (assign_cell_type T c ct l) = get_cell_name l"
  "get_cell_name (assign_cell_mode T c m l) = get_cell_name l"
  "get_cell_name (cell_set_layout_name n l) = get_cell_name l"
  "get_cell_mode T (assign_cell_name c n l) = get_cell_mode T l"
  "get_cell_mode T (cell_set_layout_name n l) = get_cell_mode T l"
  by (auto simp: get_cell_name_def get_cell_mode_def assign_cell_type_def assign_cell_mode_def
      assign_cell_name_def cell_set_layout_name_def fun_eq_iff Let_def)

context cell_technology
begin

lemma get_cell_mode_assign_type:
  "get_cell_mode T (assign_cell_type T c ct l) d =
     (if d = c \<and> ct = tech_EMPTY T then tech_default_mode T else get_cell_mode T l d)"
  by (simp add: get_cell_mode_def cell_maps_assign_type empty_cell)

lemma apply_refines: "cell_abs T (cell_apply T opn l) = spec_apply T opn (cell_abs T l)"
  by (cases opn)
    (auto simp: cell_abs_def fun_eq_iff get_assign_cell_type get_cell_mode_assign_type
      get_assign_cell_mode [OF cell_technology_axioms] get_assign_cell_name)

end

section \<open>Clock numbers of cells\<close>

lemma cell_clock_zone_simps [simp]:
  "unat (ux (cell_clock_zone l c)) = unat (ux c) div unat (cll_tile_size_x l)"
  "unat (uy (cell_clock_zone l c)) = unat (uy c) div unat (cll_tile_size_y l)"
  "uz (cell_clock_zone l c) = uz c" "ud (cell_clock_zone l c) = False"
  using word31_div_less [of "ux c" "unat (cll_tile_size_x l)"] word31_div_less [of "uy c" "unat (cll_tile_size_y l)"]
  by (simp_all add: cell_clock_zone_def ucoord3_def unat_31_of_u64 ucast_z)

text \<open>The position of cell \<open>(i, j)\<close> of the tile \<open>t\<close>.\<close>

definition cell_of_tile :: "'m cell_level_layout \<Rightarrow> ucoord_t \<Rightarrow> nat \<Rightarrow> nat \<Rightarrow> ucoord_t" where
  "cell_of_tile l t i j =
     \<lparr>ud = False, uz = uz t, uy = of_nat (unat (uy t) * unat (cll_tile_size_y l) + j),
      ux = of_nat (unat (ux t) * unat (cll_tile_size_x l) + i)\<rparr>"

lemma clock_zone_of_cell:
  assumes "i < unat (cll_tile_size_x l)" and "j < unat (cll_tile_size_y l)"
    and "unat (ux t) * unat (cll_tile_size_x l) + i < 2 ^ 31"
    and "unat (uy t) * unat (cll_tile_size_y l) + j < 2 ^ 31"
    and "\<not> ud t"
  shows "cell_clock_zone l (cell_of_tile l t i j) = t"
proof -
  have "unat (ux (cell_of_tile l t i j)) = unat (ux t) * unat (cll_tile_size_x l) + i"
    "unat (uy (cell_of_tile l t i j)) = unat (uy t) * unat (cll_tile_size_y l) + j"
    using assms unat_31_of_nat by (simp_all add: cell_of_tile_def del: of_nat_add of_nat_mult)
  then show ?thesis
    using assms by (intro ucoord_t.equality) (simp_all add: word_unat_eq_iff, simp add: cell_of_tile_def)
qed

section \<open>Properties\<close>

text \<open>A sample layout of 2 x 2 QCA ONE tiles with an input cell and an output cell.\<close>

definition sample_cells :: "qca_cell_mode cell_level_layout" where
  "sample_cells =
     fold (cell_apply qca_technology)
       [Assign_Type (ucoord3 0 2 0) QCA_INPUT, Assign_Type (ucoord3 9 2 0) QCA_OUTPUT,
        Assign_Name (ucoord3 0 2 0) ''a'', Assign_Mode (ucoord3 9 2 0) MODE_VERTICAL]
       (make_cell_level_layout Cartesian (ucoord3 9 9 1) (twoddwave_clocking Cartesian FOUR) [] 5 5)"

lemma fold_reachable: "cell_reachable T l \<Longrightarrow> cell_reachable T (fold (cell_apply T) ops l)"
  by (induction ops arbitrary: l) (auto intro: cell_reachable.further cell_step.step)

lemma sample_cells_reachable: "cell_reachable qca_technology sample_cells"
  unfolding sample_cells_def by (intro fold_reachable cell_reachable.start)

lemma sample_cells_count: "num_cells sample_cells = 2"
  by code_simp

text \<open>C27. In every cell-level layout that the operations can build, of any technology, no position has
  two cell types, no empty cell is stored, every input cell and output cell is listed as such, and
  the number of cells is the number of non-empty positions.\<close>

theorem cell_layout_invariant:
  assumes "cell_reachable qca_technology l" and "cell_reachable inml_technology m"
    and "cell_reachable sidb_technology n"
  shows "cell_wf qca_technology l \<and> num_cells l = of_nat (card {c. \<not> cell_is_empty_cell qca_technology l c}) \<and>
    cell_wf inml_technology m \<and> num_cells m = of_nat (card {c. \<not> cell_is_empty_cell inml_technology m c}) \<and>
    cell_wf sidb_technology n \<and> num_cells n = of_nat (card {c. \<not> cell_is_empty_cell sidb_technology n c})"
  using qca.reachable_wf [OF assms(1)] inml.reachable_wf [OF assms(2)] sidb.reachable_wf [OF assms(3)]
    qca.num_cells_card inml.num_cells_card sidb.num_cells_card by blast

lemma cell_layout_invariant_witness:
  "cell_wf qca_technology sample_cells \<and>
   num_cells sample_cells = of_nat (card {c. \<not> cell_is_empty_cell qca_technology sample_cells c}) \<and>
   num_cells sample_cells = 2"
  using cell_layout_invariant [OF sample_cells_reachable cell_reachable.start cell_reachable.start]
    sample_cells_count by blast

text \<open>C28. The operations of a cell-level layout implement pointwise updates of the type, mode and name
  of the positions, for each of the three technologies.\<close>

theorem cell_operations_refine:
  "cell_abs qca_technology (cell_apply qca_technology op1 l) =
     spec_apply qca_technology op1 (cell_abs qca_technology l) \<and>
   cell_abs inml_technology (cell_apply inml_technology op2 m) =
     spec_apply inml_technology op2 (cell_abs inml_technology m) \<and>
   cell_abs sidb_technology (cell_apply sidb_technology op2 n) =
     spec_apply sidb_technology op2 (cell_abs sidb_technology n)"
  by (simp add: qca.apply_refines inml.apply_refines sidb.apply_refines)

text \<open>All the cells of a tile have the clock number that the clocking scheme gives the tile.\<close>

theorem cells_share_tile_clock:
  assumes "i < unat (cll_tile_size_x l)" and "j < unat (cll_tile_size_y l)"
    and "unat (ux t) * unat (cll_tile_size_x l) + i < 2 ^ 31"
    and "unat (uy t) * unat (cll_tile_size_y l) + j < 2 ^ 31"
    and "\<not> ud t"
  shows "cell_get_clock_number l (cell_of_tile l t i j) = scheme_clock (cl_clocking l) t"
  by (simp add: cell_get_clock_number_def get_clock_number_def clock_zone_of_cell [OF assms])

lemma cells_share_tile_clock_witness:
  "cell_get_clock_number sample_cells (cell_of_tile sample_cells (ucoord3 1 1 0) 4 2) = 2"
proof -
  have "cll_tile_size_x sample_cells = 5" "cll_tile_size_y sample_cells = 5" by code_simp+
  then have "cell_get_clock_number sample_cells (cell_of_tile sample_cells (ucoord3 1 1 0) 4 2) =
      scheme_clock (cl_clocking sample_cells) (ucoord3 1 1 0)"
    by (intro cells_share_tile_clock) (simp_all add: ucoord3_def)
  also have "\<dots> = 2" by code_simp
  finally show ?thesis .
qed

text \<open>Giving an input cell another type leaves the position among the inputs: \<open>num_pis\<close> counts it
  although the layout has no input cell.\<close>

theorem retyped_input_is_counted:
  "let l = assign_cell_type qca_technology (ucoord3 0 2 0) QCA_NORMAL sample_cells
   in cell_num_pis l = 1 \<and> cell_is_pi l (ucoord3 0 2 0) \<and>
      get_cell_type qca_technology l (ucoord3 0 2 0) = QCA_NORMAL"
  by code_simp

end
