(* ===== verification/Bounding_Box.thy ===== *)
theory Bounding_Box
  imports Gate_Level_Layout Cell_Level_Layout
begin

text \<open>
  Model of \<open>layouts/bounding_box.hpp\<close>. The template argument \<open>Lyt\<close> enters as the members that the
  class calls: whether the layout is empty, its highest coordinates, and whether a coordinate is
  empty; \<open>gate_bounding_box\<close> and \<open>cell_bounding_box\<close> are the two instances. The upward loops count at
  most to a 31-bit bound and are over naturals; the downward loops have the condition \<open>x >= 0\<close> on an
  unsigned \<open>x\<close>, which always holds, so they are a \<^theory_text>\<open>partial_function\<close> on 64-bit words that wraps
  around, with the value \<open>None\<close> when the loop never ends.
\<close>

record bb_layout =
  bb_is_empty :: bool
  bb_x :: "31 word"
  bb_y :: "31 word"
  bb_is_empty_coordinate :: "ucoord_t \<Rightarrow> bool"

record bounding_box_2d =
  bb_min :: ucoord_t
  bb_max :: ucoord_t
  bb_x_size :: u64
  bb_y_size :: u64

text \<open>The inner loops: is there an element in column \<open>x\<close>, or in row \<open>y\<close>?\<close>

definition found_in_column :: "bb_layout \<Rightarrow> u64 \<Rightarrow> bool" where
  "found_in_column l x =
     list_ex (\<lambda>y. \<not> bb_is_empty_coordinate l (ucoord2 x (of_nat y))) [0..<Suc (unat (bb_y l))]"

definition found_in_row :: "bb_layout \<Rightarrow> u64 \<Rightarrow> bool" where
  "found_in_row l y =
     list_ex (\<lambda>x. \<not> bb_is_empty_coordinate l (ucoord2 (of_nat x) y)) [0..<Suc (unat (bb_x l))]"

text \<open>The outer loops.\<close>

fun scan_up :: "(u64 \<Rightarrow> bool) \<Rightarrow> nat \<Rightarrow> nat list \<Rightarrow> nat" where
  "scan_up found i [] = i"
| "scan_up found i (x # xs) = (if found (of_nat x) then x else scan_up found x xs)"

partial_function (option) scan_down :: "(u64 \<Rightarrow> bool) \<Rightarrow> u64 \<Rightarrow> u64 option" where
  "scan_down found x = (if found x then Some x else scan_down found (x - 1))"

definition update_bounding_box :: "bb_layout \<Rightarrow> bounding_box_2d \<Rightarrow> bounding_box_2d option" where
  "update_bounding_box l bb =
     (let bb0 = bb\<lparr>bb_min := ucoord3 0 0 0, bb_max := ucoord3 0 0 0\<rparr> in
      if bb_is_empty l then Some bb0
      else
        (let min_x = scan_up (found_in_column l) 0 [0..<Suc (unat (bb_x l))];
             min_y = scan_up (found_in_row l) 0 [0..<Suc (unat (bb_y l))]
         in Option.bind (scan_down (found_in_column l) (ucast (bb_x l))) (\<lambda>max_x.
            Option.bind (scan_down (found_in_row l) (ucast (bb_y l))) (\<lambda>max_y.
            (let mn = (ucoord3 0 0 0)\<lparr>ux := of_nat min_x, uy := of_nat min_y\<rparr>;
                 mx = (ucoord3 0 0 0)\<lparr>ux := ucast max_x, uy := ucast max_y\<rparr>
             in Some (bb0\<lparr>bb_min := mn, bb_max := mx,
                          bb_x_size := ucast (ux mx) - ucast (ux mn),
                          bb_y_size := ucast (uy mx) - ucast (uy mn)\<rparr>))))))"

definition new_bounding_box :: "bb_layout \<Rightarrow> bounding_box_2d option" where
  "new_bounding_box l =
     update_bounding_box l \<lparr>bb_min = ucoord3 0 0 0, bb_max = ucoord3 0 0 0, bb_x_size = 0, bb_y_size = 0\<rparr>"

definition bb_get_min :: "bounding_box_2d \<Rightarrow> ucoord_t" where "bb_get_min bb = bb_min bb"
definition bb_get_max :: "bounding_box_2d \<Rightarrow> ucoord_t" where "bb_get_max bb = bb_max bb"
definition bb_get_x_size :: "bounding_box_2d \<Rightarrow> u64" where "bb_get_x_size bb = bb_x_size bb"
definition bb_get_y_size :: "bounding_box_2d \<Rightarrow> u64" where "bb_get_y_size bb = bb_y_size bb"

text \<open>\<open>is_empty_coordinate\<close> for the two kinds of layouts.\<close>

definition gate_bb_layout :: "'tt gate_level_layout \<Rightarrow> bb_layout" where
  "gate_bb_layout l =
     \<lparr>bb_is_empty = is_empty l, bb_x = ux (lyt_dimension l), bb_y = uy (lyt_dimension l),
      bb_is_empty_coordinate = is_empty_tile l\<rparr>"

definition cell_bb_layout :: "'m technology \<Rightarrow> 'm cell_level_layout \<Rightarrow> bb_layout" where
  "cell_bb_layout T l =
     \<lparr>bb_is_empty = cell_is_empty l, bb_x = ux (lyt_dimension l), bb_y = uy (lyt_dimension l),
      bb_is_empty_coordinate = cell_is_empty_cell T l\<rparr>"

definition gate_bounding_box :: "'tt gate_level_layout \<Rightarrow> bounding_box_2d option" where
  "gate_bounding_box l = new_bounding_box (gate_bb_layout l)"

definition cell_bounding_box :: "'m technology \<Rightarrow> 'm cell_level_layout \<Rightarrow> bounding_box_2d option" where
  "cell_bounding_box T l = new_bounding_box (cell_bb_layout T l)"

section \<open>The loops\<close>

lemma scan_up_found:
  assumes "\<exists>x\<in>set xs. found (of_nat x)" and "sorted_wrt (<) xs"
  shows "found (of_nat (scan_up found i xs)) \<and> scan_up found i xs \<in> set xs \<and>
    (\<forall>x\<in>set xs. found (of_nat x) \<longrightarrow> scan_up found i xs \<le> x)"
  using assms
proof (induction xs arbitrary: i)
  case (Cons x xs)
  then show ?case by (cases "found (of_nat x)") (auto simp: less_imp_le)
qed simp

lemma scan_down_found:
  assumes "scan_down found x = Some r"
  shows "found r"
proof -
  have "(case (found, x) of (f, x) \<Rightarrow> f) r"
    by (rule scan_down.raw_induct [where P = "\<lambda>f x. f"])
      (use assms in \<open>auto split: if_splits\<close>)
  then show ?thesis by simp
qed

lemma scan_down_steps:
  "found (of_nat m) \<Longrightarrow> (\<And>i. m < i \<Longrightarrow> i \<le> m + k \<Longrightarrow> \<not> found (of_nat i)) \<Longrightarrow>
   scan_down found (of_nat (m + k)) = Some (of_nat m)"
proof (induction k)
  case 0
  then show ?case by (simp add: scan_down.simps)
next
  case (Suc k)
  have "\<not> found (of_nat (m + Suc k))" by (rule Suc.prems(2)) simp_all
  moreover have "(of_nat (m + Suc k) - 1 :: u64) = of_nat (m + k)" by simp
  moreover have "scan_down found (of_nat (m + k)) = Some (of_nat m)"
    using Suc.prems by (intro Suc.IH) auto
  ultimately show ?case by (subst scan_down.simps) (simp only: if_False)
qed

lemma scan_down_max:
  assumes "x \<le> X" and "found (of_nat x)"
  shows "\<exists>m. scan_down found (of_nat X) = Some (of_nat m) \<and> m \<le> X \<and> found (of_nat m) \<and>
    (\<forall>i\<le>X. found (of_nat i) \<longrightarrow> i \<le> m)"
proof -
  define m where "m = Max {i. i \<le> X \<and> found (of_nat i)}"
  have fin: "finite {i. i \<le> X \<and> found (of_nat i)}" and ne: "{i. i \<le> X \<and> found (of_nat i)} \<noteq> {}"
    using assms by (auto intro: finite_subset [of _ "{..X}"])
  have m: "m \<le> X" "found (of_nat m)" using Max_in [OF fin ne] by (auto simp: m_def)
  have le: "i \<le> m" if "i \<le> X" "found (of_nat i)" for i
    unfolding m_def by (rule Max_ge [OF fin]) (use that in simp)
  have "scan_down found (of_nat (m + (X - m))) = Some (of_nat m)"
    by (rule scan_down_steps) (use m le in force)+
  with m le show ?thesis by auto
qed

lemma scan_down_None: "(\<And>x. \<not> found x) \<Longrightarrow> scan_down found x = None"
  using scan_down_found [of found x] by (cases "scan_down found x") auto

section \<open>The box\<close>

text \<open>An element of the layout that the class looks at: a non-empty coordinate of the ground layer.\<close>

definition bb_elem :: "bb_layout \<Rightarrow> ucoord_t \<Rightarrow> bool" where
  "bb_elem l c \<longleftrightarrow> \<not> ud c \<and> uz c = 0 \<and> ux c \<le> bb_x l \<and> uy c \<le> bb_y l \<and> \<not> bb_is_empty_coordinate l c"

lemma unat_31_bound: "unat (w :: 31 word) < 2147483648"
  using unsigned_less [of w, where ?'a = nat] by simp

lemma ucoord2_unat [simp]:
  "\<not> ud c \<Longrightarrow> uz c = 0 \<Longrightarrow> ucoord2 (ucast (ux c)) (ucast (uy c)) = c"
  by (rule ucoord_t.equality) (simp_all add: ucoord2_def ucast_31)

lemma ucoord2_of_nat:
  assumes "x < 2 ^ 31" and "y < 2 ^ 31"
  shows "\<not> ud (ucoord2 (of_nat x) (of_nat y))" "uz (ucoord2 (of_nat x) (of_nat y)) = 0"
    "unat (ux (ucoord2 (of_nat x) (of_nat y))) = x" "unat (uy (ucoord2 (of_nat x) (of_nat y))) = y"
  using assms by (simp_all add: ucoord2_def unat_31_of_u64)

lemma found_in_column_iff:
  assumes "i \<le> unat (bb_x l)"
  shows "found_in_column l (of_nat i) \<longleftrightarrow> (\<exists>c. bb_elem l c \<and> unat (ux c) = i)"
proof
  assume "found_in_column l (of_nat i)"
  then obtain y where y: "y \<le> unat (bb_y l)" "\<not> bb_is_empty_coordinate l (ucoord2 (of_nat i) (of_nat y))"
    by (auto simp: found_in_column_def list_ex_iff less_Suc_eq_le simp del: upt_Suc)
  have "i < 2 ^ 31" "y < 2 ^ 31"
    using assms y(1) unat_31_bound [of "bb_x l"] unat_31_bound [of "bb_y l"] by auto
  then show "\<exists>c. bb_elem l c \<and> unat (ux c) = i"
    using y assms by (intro exI [of _ "ucoord2 (of_nat i) (of_nat y)"])
      (simp add: bb_elem_def ucoord2_of_nat word_le_nat_alt)
next
  assume "\<exists>c. bb_elem l c \<and> unat (ux c) = i"
  then obtain c where c: "bb_elem l c" "unat (ux c) = i" by blast
  then show "found_in_column l (of_nat i)"
    unfolding found_in_column_def list_ex_iff
    by (intro bexI [of _ "unat (uy c)"]) (auto simp: bb_elem_def less_Suc_eq_le word_le_nat_alt simp del: upt_Suc)
qed

lemma found_in_row_iff:
  assumes "i \<le> unat (bb_y l)"
  shows "found_in_row l (of_nat i) \<longleftrightarrow> (\<exists>c. bb_elem l c \<and> unat (uy c) = i)"
proof
  assume "found_in_row l (of_nat i)"
  then obtain x where x: "x \<le> unat (bb_x l)" "\<not> bb_is_empty_coordinate l (ucoord2 (of_nat x) (of_nat i))"
    by (auto simp: found_in_row_def list_ex_iff less_Suc_eq_le simp del: upt_Suc)
  have "i < 2 ^ 31" "x < 2 ^ 31"
    using assms x(1) unat_31_bound [of "bb_x l"] unat_31_bound [of "bb_y l"] by auto
  then show "\<exists>c. bb_elem l c \<and> unat (uy c) = i"
    using x assms by (intro exI [of _ "ucoord2 (of_nat x) (of_nat i)"])
      (simp add: bb_elem_def ucoord2_of_nat word_le_nat_alt)
next
  assume "\<exists>c. bb_elem l c \<and> unat (uy c) = i"
  then obtain c where c: "bb_elem l c" "unat (uy c) = i" by blast
  then show "found_in_row l (of_nat i)"
    unfolding found_in_row_def list_ex_iff
    by (intro bexI [of _ "unat (ux c)"]) (auto simp: bb_elem_def less_Suc_eq_le word_le_nat_alt simp del: upt_Suc)
qed

lemma scans_of_projection:
  assumes iff: "\<And>i. i \<le> unat (B :: 31 word) \<Longrightarrow> found (of_nat i) \<longleftrightarrow> (\<exists>c. E c \<and> unat (p c) = i)"
    and e: "E e" and le: "\<And>c. E c \<Longrightarrow> p c \<le> B"
  shows "\<exists>mn mx :: nat. scan_up found 0 [0..<Suc (unat B)] = mn \<and>
    scan_down found (ucast B) = Some (of_nat mx) \<and> mx \<le> unat B \<and> mn \<le> mx \<and>
    (\<exists>c. E c \<and> unat (p c) = mn) \<and> (\<exists>c. E c \<and> unat (p c) = mx) \<and>
    (\<forall>c. E c \<longrightarrow> mn \<le> unat (p c) \<and> unat (p c) \<le> mx)"
proof -
  have pe: "unat (p c) \<le> unat B" if "E c" for c using le [OF that] by (simp add: word_le_nat_alt)
  have fnd: "found (of_nat (unat (p c)))" if "E c" for c using iff [OF pe [OF that]] that by blast
  let ?mn = "scan_up found 0 [0..<Suc (unat B)]"
  have up: "found (of_nat ?mn) \<and> ?mn \<in> set [0..<Suc (unat B)] \<and>
      (\<forall>x\<in>set [0..<Suc (unat B)]. found (of_nat x) \<longrightarrow> ?mn \<le> x)"
  proof (rule scan_up_found)
    show "\<exists>x\<in>set [0..<Suc (unat B)]. found (of_nat x)"
      by (rule bexI [of _ "unat (p e)"]) (use fnd [OF e] pe [OF e] in \<open>auto simp: less_Suc_eq_le\<close>)
  qed (rule sorted_wrt_upt)
  obtain mx where mx: "scan_down found (of_nat (unat B)) = Some (of_nat mx)" "mx \<le> unat B" "found (of_nat mx)"
    "\<forall>i\<le>unat B. found (of_nat i) \<longrightarrow> i \<le> mx"
    using scan_down_max [of "unat (p e)" "unat B" found] pe [OF e] fnd [OF e] by blast
  have mn: "?mn \<le> unat B" using up by (auto simp: less_Suc_eq_le simp del: upt_Suc)
  show ?thesis
    using up mx iff [OF mn] iff [OF mx(2)] mn pe fnd
    by (intro exI [of _ ?mn] exI [of _ mx]) (auto simp: less_Suc_eq_le simp del: upt_Suc)
qed

lemma unat_diff_31:
  "(a :: 31 word) \<le> b \<Longrightarrow> unat (ucast b - ucast a :: u64) = unat b - unat a"
  using unat_31_bound [of a] unat_31_bound [of b]
  by (subst unat_sub) (simp_all add: word_le_nat_alt unsigned_ucast_eq take_bit_nat_eq_self)

lemma update_bounding_box_correct:
  assumes ne: "\<not> bb_is_empty l" and e: "bb_elem l e"
  shows "\<exists>bb'. update_bounding_box l bb = Some bb' \<and>
    (\<forall>c. bb_elem l c \<longrightarrow> ux (bb_min bb') \<le> ux c \<and> ux c \<le> ux (bb_max bb') \<and>
         uy (bb_min bb') \<le> uy c \<and> uy c \<le> uy (bb_max bb')) \<and>
    (\<exists>c. bb_elem l c \<and> ux c = ux (bb_min bb')) \<and> (\<exists>c. bb_elem l c \<and> ux c = ux (bb_max bb')) \<and>
    (\<exists>c. bb_elem l c \<and> uy c = uy (bb_min bb')) \<and> (\<exists>c. bb_elem l c \<and> uy c = uy (bb_max bb')) \<and>
    unat (bb_x_size bb') = unat (ux (bb_max bb')) - unat (ux (bb_min bb')) \<and>
    unat (bb_y_size bb') = unat (uy (bb_max bb')) - unat (uy (bb_min bb'))"
proof -
  obtain mnx mxx where X: "scan_up (found_in_column l) 0 [0..<Suc (unat (bb_x l))] = mnx"
    "scan_down (found_in_column l) (ucast (bb_x l)) = Some (of_nat mxx)" "mxx \<le> unat (bb_x l)" "mnx \<le> mxx"
    "\<exists>c. bb_elem l c \<and> unat (ux c) = mnx" "\<exists>c. bb_elem l c \<and> unat (ux c) = mxx"
    "\<forall>c. bb_elem l c \<longrightarrow> mnx \<le> unat (ux c) \<and> unat (ux c) \<le> mxx"
    using scans_of_projection [where p = ux and B = "bb_x l", OF found_in_column_iff e] by (auto simp: bb_elem_def)
  obtain mny mxy where Y: "scan_up (found_in_row l) 0 [0..<Suc (unat (bb_y l))] = mny"
    "scan_down (found_in_row l) (ucast (bb_y l)) = Some (of_nat mxy)" "mxy \<le> unat (bb_y l)" "mny \<le> mxy"
    "\<exists>c. bb_elem l c \<and> unat (uy c) = mny" "\<exists>c. bb_elem l c \<and> unat (uy c) = mxy"
    "\<forall>c. bb_elem l c \<longrightarrow> mny \<le> unat (uy c) \<and> unat (uy c) \<le> mxy"
    using scans_of_projection [where p = uy and B = "bb_y l", OF found_in_row_iff e] by (auto simp: bb_elem_def)
  have lt: "mxx < 2 ^ 31" "mnx < 2 ^ 31" "mxy < 2 ^ 31" "mny < 2 ^ 31"
    using X(3,4) Y(3,4) unat_31_bound [of "bb_x l"] unat_31_bound [of "bb_y l"] by auto
  let ?mn = "(ucoord3 0 0 0)\<lparr>ux := of_nat mnx, uy := of_nat mny\<rparr>"
  let ?mx = "(ucoord3 0 0 0)\<lparr>ux := ucast (of_nat mxx :: u64), uy := ucast (of_nat mxy :: u64)\<rparr>"
  have un: "unat (ux ?mn) = mnx" "unat (uy ?mn) = mny" "unat (ux ?mx) = mxx" "unat (uy ?mx) = mxy"
    using lt by (simp_all add: unat_31_of_nat unat_31_of_u64)
  have sz: "unat (ucast (ux ?mx) - ucast (ux ?mn) :: u64) = mxx - mnx"
    "unat (ucast (uy ?mx) - ucast (uy ?mn) :: u64) = mxy - mny"
    by (subst unat_diff_31; simp only: un word_le_nat_alt X(4) Y(4))+
  show ?thesis
    apply (rule exI, rule conjI)
     apply (simp only: update_bounding_box_def Let_def ne if_False X(1,2) Y(1,2) bind.simps)
    using X Y un sz by (simp add: word_le_nat_alt word_unat_eq_iff)
qed

lemma update_bounding_box_None:
  assumes "\<not> bb_is_empty l" and none: "\<And>x y. bb_is_empty_coordinate l (ucoord2 x y)"
  shows "update_bounding_box l bb = None"
proof -
  have "scan_down (found_in_column l) x = None" for x
    by (rule scan_down_None) (simp add: found_in_column_def list_ex_iff none)
  with assms(1) show ?thesis by (simp add: update_bounding_box_def Let_def)
qed

section \<open>Properties\<close>

text \<open>C35. If a layout has an element in its ground layer, computing the bounding box ends; the box
  encloses all of these elements, each of its four sides touches one, and its sizes are the
  differences of its corners.\<close>

theorem bounding_box_tight:
  assumes "\<not> bb_is_empty l" and "bb_elem l e"
  shows "\<exists>bb. new_bounding_box l = Some bb \<and>
    (\<forall>c. bb_elem l c \<longrightarrow> ux (bb_get_min bb) \<le> ux c \<and> ux c \<le> ux (bb_get_max bb) \<and>
         uy (bb_get_min bb) \<le> uy c \<and> uy c \<le> uy (bb_get_max bb)) \<and>
    (\<exists>c. bb_elem l c \<and> ux c = ux (bb_get_min bb)) \<and> (\<exists>c. bb_elem l c \<and> ux c = ux (bb_get_max bb)) \<and>
    (\<exists>c. bb_elem l c \<and> uy c = uy (bb_get_min bb)) \<and> (\<exists>c. bb_elem l c \<and> uy c = uy (bb_get_max bb)) \<and>
    unat (bb_get_x_size bb) = unat (ux (bb_get_max bb)) - unat (ux (bb_get_min bb)) \<and>
    unat (bb_get_y_size bb) = unat (uy (bb_get_max bb)) - unat (uy (bb_get_min bb))"
  unfolding new_bounding_box_def bb_get_min_def bb_get_max_def bb_get_x_size_def bb_get_y_size_def
  by (rule update_bounding_box_correct [OF assms])

lemma bounding_box_tight_witness:
  "\<exists>bb. cell_bounding_box qca_technology sample_cells = Some bb \<and>
    ux (bb_get_min bb) \<le> ux (ucoord3 9 2 0) \<and> ux (ucoord3 9 2 0) \<le> ux (bb_get_max bb)"
proof -
  have "\<not> bb_is_empty (cell_bb_layout qca_technology sample_cells)"
    and e: "bb_elem (cell_bb_layout qca_technology sample_cells) (ucoord3 9 2 0)"
    by code_simp+
  then obtain bb where "new_bounding_box (cell_bb_layout qca_technology sample_cells) = Some bb"
    "\<forall>c. bb_elem (cell_bb_layout qca_technology sample_cells) c \<longrightarrow>
       ux (bb_get_min bb) \<le> ux c \<and> ux c \<le> ux (bb_get_max bb)"
    using bounding_box_tight [of "cell_bb_layout qca_technology sample_cells" "ucoord3 9 2 0"] by blast
  then show ?thesis using e by (auto simp: cell_bounding_box_def)
qed

text \<open>Computing the bounding box of a cell-level layout all of whose cells are in the crossing layer
  never ends: the condition \<open>x >= 0\<close> of the downward loop cannot fail.\<close>

theorem bounding_box_diverges:
  assumes "\<not> cell_is_empty l" and "\<And>c. get_cell_type qca_technology l c \<noteq> QCA_EMPTY \<Longrightarrow> uz c = 1"
  shows "cell_bounding_box qca_technology l = None"
  unfolding cell_bounding_box_def new_bounding_box_def
proof (rule update_bounding_box_None)
  show "\<not> bb_is_empty (cell_bb_layout qca_technology l)" using assms(1) by (simp add: cell_bb_layout_def)
  show "bb_is_empty_coordinate (cell_bb_layout qca_technology l) (ucoord2 x y)" for x y
    using assms(2) [of "ucoord2 x y"]
    by (auto simp: cell_bb_layout_def qca.is_empty_iff ucoord2_def)
qed

lemma bounding_box_diverges_witness:
  "cell_bounding_box qca_technology
     (assign_cell_type qca_technology (ucoord3 3 3 1) QCA_NORMAL
       (make_cell_level_layout Cartesian (ucoord3 9 9 1) (twoddwave_clocking Cartesian FOUR) [] 5 5)) = None"
proof (rule bounding_box_diverges)
  show "\<not> cell_is_empty (assign_cell_type qca_technology (ucoord3 3 3 1) QCA_NORMAL
      (make_cell_level_layout Cartesian (ucoord3 9 9 1) (twoddwave_clocking Cartesian FOUR) [] 5 5))"
    by code_simp
qed (auto simp: qca.get_assign_cell_type ucoord3_def split: if_splits)

text \<open>Updating the box of a layout that has become empty resets its corners and keeps its old sizes.\<close>

theorem emptied_layout_keeps_sizes:
  "bb_is_empty l \<Longrightarrow> \<exists>bb'. update_bounding_box l bb = Some bb' \<and> bb_min bb' = bb_max bb' \<and>
     bb_get_x_size bb' = bb_get_x_size bb \<and> bb_get_y_size bb' = bb_get_y_size bb"
  by (simp add: update_bounding_box_def bb_get_x_size_def bb_get_y_size_def)

end
