(* ===== verification/Gate_Library.thy ===== *)
theory Gate_Library
  imports Gate_Level_Layout Cell_Technologies
begin

text \<open>
  Model of \<open>technology/fcn_gate_library.hpp\<close>, \<open>technology/cell_ports.hpp\<close> and
  \<open>utils/array_utils.hpp\<close>: gates as arrays of cell types with their rotations, merging and marking;
  ports and lists of ports, whose \<open>std::set\<close>s are lists in iteration order; look-up in the tables of
  the libraries; and the exceptions, as a datatype of errors.

  An \<open>fcn_gate\<close> is an array of \<open>h\<close> rows of \<open>w\<close> cells; the template arguments \<open>GateSizeX\<close> and
  \<open>GateSizeY\<close> are the arguments \<open>w\<close> and \<open>h\<close>. \<open>transpose\<close> and \<open>merge\<close> index the array with the column
  first, which is within bounds for square gates only; the lemmas on them are about square gates.
\<close>

section \<open>Arrays\<close>

definition create_array :: "nat \<Rightarrow> 'a \<Rightarrow> 'a list" where
  "create_array n value = map (\<lambda>i. value) [0..<n]"

definition convert_array :: "('t \<Rightarrow> 'e) \<Rightarrow> 't list \<Rightarrow> 'e list" where
  "convert_array cast a = map (\<lambda>i. cast (a ! i)) [0..<length a]"

definition convert_array_of_arrays :: "('t \<Rightarrow> 'e) \<Rightarrow> 't list list \<Rightarrow> 'e list list" where
  "convert_array_of_arrays cast a = map (\<lambda>i. convert_array cast (a ! i)) [0..<length a]"

section \<open>Gates\<close>

type_synonym fcn_gate = "cell_type list list"

text \<open>\<open>static_cast\<close> from \<open>char\<close> to the enumeration keeps the value.\<close>

definition cell_type_of_char :: "char \<Rightarrow> cell_type" where
  "cell_type_of_char c = c"

definition cell_list_to_gate :: "string list \<Rightarrow> fcn_gate" where
  "cell_list_to_gate c = convert_array_of_arrays cell_type_of_char c"

lemma convert_array_map [code]: "convert_array cast a = map cast a"
  by (rule nth_equalityI) (simp_all add: convert_array_def)

lemma cell_list_to_gate_id [code]: "cell_list_to_gate c = c"
proof -
  have "convert_array cell_type_of_char r = r" for r
    by (simp add: convert_array_map cell_type_of_char_def map_idI)
  then show ?thesis
    by (simp only: cell_list_to_gate_def convert_array_of_arrays_def map_nth)
qed

definition EMPTY_GATE :: "'m technology \<Rightarrow> nat \<Rightarrow> nat \<Rightarrow> fcn_gate" where
  "EMPTY_GATE T w h = create_array h (create_array w (tech_EMPTY T))"

text \<open>\<open>g[i][j]\<close> as a value and as the target of an assignment.\<close>

definition gate_at :: "fcn_gate \<Rightarrow> nat \<Rightarrow> nat \<Rightarrow> cell_type" where
  "gate_at g i j = g ! i ! j"

definition gate_set :: "nat \<Rightarrow> nat \<Rightarrow> cell_type \<Rightarrow> fcn_gate \<Rightarrow> fcn_gate" where
  "gate_set i j v g = g[i := (g ! i)[j := v]]"

definition gate_transpose :: "'m technology \<Rightarrow> nat \<Rightarrow> nat \<Rightarrow> fcn_gate \<Rightarrow> fcn_gate" where
  "gate_transpose T w h g =
     fold (\<lambda>x trans. fold (\<lambda>y. gate_set y x (gate_at g x y)) [0..<h] trans) [0..<w] (EMPTY_GATE T w h)"

definition reverse_columns :: "fcn_gate \<Rightarrow> fcn_gate" where
  "reverse_columns g = map rev g"

definition reverse_rows :: "fcn_gate \<Rightarrow> fcn_gate" where
  "reverse_rows g = rev g"

definition rotate_90 :: "'m technology \<Rightarrow> nat \<Rightarrow> nat \<Rightarrow> fcn_gate \<Rightarrow> fcn_gate" where
  "rotate_90 T w h g = reverse_columns (gate_transpose T w h g)"

definition rotate_180 :: "fcn_gate \<Rightarrow> fcn_gate" where
  "rotate_180 g = reverse_columns (reverse_rows g)"

definition rotate_270 :: "'m technology \<Rightarrow> nat \<Rightarrow> nat \<Rightarrow> fcn_gate \<Rightarrow> fcn_gate" where
  "rotate_270 T w h g = gate_transpose T w h (reverse_columns g)"

definition gate_merge :: "'m technology \<Rightarrow> nat \<Rightarrow> nat \<Rightarrow> fcn_gate list \<Rightarrow> fcn_gate" where
  "gate_merge T w h gates =
     fold (\<lambda>x merged. fold (\<lambda>y merged. fold (\<lambda>g merged.
         if \<not> tech_is_empty_cell T (gate_at g x y) then gate_set x y (gate_at g x y) merged else merged)
       gates merged) [0..<h] merged) [0..<w] (EMPTY_GATE T w h)"

section \<open>Ports\<close>

record port_position =
  pp_x :: u16
  pp_y :: u16
  pp_pi :: bool
  pp_po :: bool

definition port_position :: "u16 \<Rightarrow> u16 \<Rightarrow> port_position" where
  "port_position x y = \<lparr>pp_x = x, pp_y = y, pp_pi = False, pp_po = False\<rparr>"

definition port_position_less :: "port_position \<Rightarrow> port_position \<Rightarrow> bool" where
  "port_position_less a b = (pp_x a < pp_x b \<or> (pp_x a = pp_x b \<and> pp_y a < pp_y b))"

definition port_position_eq :: "port_position \<Rightarrow> port_position \<Rightarrow> bool" where
  "port_position_eq a b = (pp_x a = pp_x b \<and> pp_y a = pp_y b)"

datatype cardinal = NORTH | NORTH_EAST | EAST | SOUTH_EAST | SOUTH | SOUTH_WEST | WEST | NORTH_WEST

fun cardinal_value :: "cardinal \<Rightarrow> u16" where
  "cardinal_value NORTH = 0"
| "cardinal_value NORTH_EAST = 1"
| "cardinal_value EAST = 2"
| "cardinal_value SOUTH_EAST = 3"
| "cardinal_value SOUTH = 4"
| "cardinal_value SOUTH_WEST = 5"
| "cardinal_value WEST = 6"
| "cardinal_value NORTH_WEST = 7"

record port_direction =
  pd_dir :: u16
  pd_pi :: bool
  pd_po :: bool

definition port_direction :: "cardinal \<Rightarrow> port_direction" where
  "port_direction d = \<lparr>pd_dir = cardinal_value d, pd_pi = False, pd_po = False\<rparr>"

definition port_direction_less :: "port_direction \<Rightarrow> port_direction \<Rightarrow> bool" where
  "port_direction_less a b = (pd_dir a < pd_dir b)"

definition port_direction_eq :: "port_direction \<Rightarrow> port_direction \<Rightarrow> bool" where
  "port_direction_eq a b = (pd_dir a = pd_dir b)"

record 'p port_list =
  pl_inp :: "'p list"
  pl_out :: "'p list"

definition empty_port_list :: "'p port_list" where
  "empty_port_list = \<lparr>pl_inp = [], pl_out = []\<rparr>"

text \<open>A list of ports from two brace-enclosed lists: \<open>std::set\<close> inserts the elements in turn.\<close>

definition make_port_list :: "('p \<Rightarrow> 'p \<Rightarrow> bool) \<Rightarrow> 'p list \<Rightarrow> 'p list \<Rightarrow> 'p port_list" where
  "make_port_list lt inp out = \<lparr>pl_inp = fold (set_insert lt) inp [], pl_out = fold (set_insert lt) out []\<rparr>"

definition add_inp :: "('p \<Rightarrow> 'p \<Rightarrow> bool) \<Rightarrow> 'p \<Rightarrow> 'p port_list \<Rightarrow> 'p port_list" where
  "add_inp lt p l = l\<lparr>pl_inp := set_insert lt p (pl_inp l)\<rparr>"

definition add_out :: "('p \<Rightarrow> 'p \<Rightarrow> bool) \<Rightarrow> 'p \<Rightarrow> 'p port_list \<Rightarrow> 'p port_list" where
  "add_out lt p l = l\<lparr>pl_out := set_insert lt p (pl_out l)\<rparr>"

text \<open>\<open>std::set\<close>s are equal if they have the same size and pairwise equal elements.\<close>

definition port_list_eq :: "('p \<Rightarrow> 'p \<Rightarrow> bool) \<Rightarrow> 'p port_list \<Rightarrow> 'p port_list \<Rightarrow> bool" where
  "port_list_eq eq a b = (list_all2 eq (pl_inp a) (pl_inp b) \<and> list_all2 eq (pl_out a) (pl_out b))"

text \<open>\<open>std::set::merge\<close> moves the elements that are not yet there; the others stay.\<close>

definition set_merge :: "('p \<Rightarrow> 'p \<Rightarrow> bool) \<Rightarrow> 'p list \<Rightarrow> 'p list \<Rightarrow> 'p list \<times> 'p list" where
  "set_merge lt dst src =
     (fold (set_insert lt) src dst, filter (\<lambda>p. list_ex (\<lambda>q. \<not> lt p q \<and> \<not> lt q p) dst) src)"

definition port_list_merge ::
    "('p \<Rightarrow> 'p \<Rightarrow> bool) \<Rightarrow> 'p port_list \<Rightarrow> 'p port_list \<Rightarrow> 'p port_list \<times> 'p port_list" where
  "port_list_merge lt this p =
     (let (i, i') = set_merge lt (pl_inp this) (pl_inp p); (out, out') = set_merge lt (pl_out this) (pl_out p)
      in (this\<lparr>pl_inp := i, pl_out := out\<rparr>, p\<lparr>pl_inp := i', pl_out := out'\<rparr>))"

section \<open>Marks, tables and errors\<close>

definition mark_cell :: "(cell_mark \<Rightarrow> cell_type) \<Rightarrow> fcn_gate \<Rightarrow> port_position \<Rightarrow> cell_mark \<Rightarrow> fcn_gate" where
  "mark_cell cast g p mark = gate_set (unat (pp_y p)) (unat (pp_x p)) (cast mark) g"

text \<open>\<open>unordered_map::at\<close>: the first entry with an equal key; \<open>None\<close> is \<open>std::out_of_range\<close>.\<close>

fun table_at :: "('k \<Rightarrow> 'k \<Rightarrow> bool) \<Rightarrow> ('k \<times> 'v) list \<Rightarrow> 'k \<Rightarrow> 'v option" where
  "table_at eq [] k = None"
| "table_at eq ((k', v) # m) k = (if eq k' k then Some v else table_at eq m k)"

type_synonym 'p gate_table = "('p port_list \<times> fcn_gate) list"

datatype 'p gate_error =
  unsupported_gate_type ucoord_t
| unsupported_gate_orientation ucoord_t "'p port_list"

text \<open>The result of a function that may throw; \<open>or_throw\<close> turns a failed look-up into an error.\<close>

type_synonym ('p, 'a) gate_result = "'p gate_error + 'a"

definition or_throw :: "'e \<Rightarrow> 'a option \<Rightarrow> 'e + 'a" where
  "or_throw e r = (case r of None \<Rightarrow> Inl e | Some v \<Rightarrow> Inr v)"

section \<open>Orders of ports\<close>

interpretation position_order: weak_order port_position_less
  by unfold_locales (auto simp: port_position_less_def)

interpretation direction_order: weak_order port_direction_less
  by unfold_locales (auto simp: port_direction_less_def)

section \<open>The contract of a port routing\<close>

text \<open>The port routing of a library places inputs and outputs at some positions each; \<open>inps\<close> and
  \<open>outs\<close> are these positions in the order of the set. A routing then is one of finitely many, and
  what holds for them all, by evaluation, holds for the routing of any tile.\<close>

definition within_ports :: "('p \<Rightarrow> 'p \<Rightarrow> bool) \<Rightarrow> 'p list \<Rightarrow> 'p list \<Rightarrow> 'p port_list \<Rightarrow> bool" where
  "within_ports lt inps outs p \<longleftrightarrow>
     sorted_wrt lt (pl_inp p) \<and> set (pl_inp p) \<subseteq> set inps \<and>
     sorted_wrt lt (pl_out p) \<and> set (pl_out p) \<subseteq> set outs"

definition on_all_ports :: "'p list \<Rightarrow> 'p list \<Rightarrow> ('p port_list \<Rightarrow> bool) \<Rightarrow> bool" where
  "on_all_ports inps outs P =
     list_all (\<lambda>i. list_all (\<lambda>o'. P \<lparr>pl_inp = i, pl_out = o'\<rparr>) (subseqs outs)) (subseqs inps)"

text \<open>So many inputs and so many outputs, at different positions.\<close>

definition routed :: "nat \<Rightarrow> nat \<Rightarrow> 'p port_list \<Rightarrow> bool" where
  "routed i o' p \<longleftrightarrow> length (pl_inp p) = i \<and> length (pl_out p) = o' \<and>
     list_all (\<lambda>q. q \<notin> set (pl_out p)) (pl_inp p)"

definition wired :: "'p port_list \<Rightarrow> bool" where
  "wired p \<longleftrightarrow> routed 1 1 p \<or> routed 1 0 p \<or> routed 0 1 p"

lemma table_at_mem: "table_at eq m k = Some v \<Longrightarrow> \<exists>k'. (k', v) \<in> set m \<and> eq k' k"
  by (induction m) (auto split: if_splits)

lemma table_at_keys: "(table_at eq m k \<noteq> None) = list_ex (\<lambda>k'. eq k' k) (map fst m)"
  by (induction m) (auto split: if_splits)

lemma table_at_fit:
  assumes "list_all (\<lambda>(p, g). P p g) m" and "table_at eq m p = Some g"
    and "\<And>k. eq k p \<Longrightarrow> P k g = P p g"
  shows "P p g"
  using table_at_mem [OF assms(2)] assms(1,3) by (auto simp: list_all_iff)

lemma or_throw_iff:
  "or_throw e r = Inl e' \<longleftrightarrow> r = None \<and> e = e'" "(\<exists>g. or_throw e r = Inr g) \<longleftrightarrow> r \<noteq> None"
  "or_throw e r = Inr g \<longleftrightarrow> r = Some g"
  by (auto simp: or_throw_def split: option.split)

locale port_routing = weak_order lt for lt :: "'p \<Rightarrow> 'p \<Rightarrow> bool" +
  fixes eq :: "'p \<Rightarrow> 'p \<Rightarrow> bool" and inps outs :: "'p list"
  assumes inps_sorted: "sorted_wrt lt inps" and outs_sorted: "sorted_wrt lt outs"
begin

lemma within_empty: "within_ports lt inps outs empty_port_list"
  by (simp add: within_ports_def empty_port_list_def)

lemma within_add:
  "q \<in> set inps \<Longrightarrow> within_ports lt inps outs p \<Longrightarrow> within_ports lt inps outs (add_inp lt q p)"
  "q \<in> set outs \<Longrightarrow> within_ports lt inps outs p \<Longrightarrow> within_ports lt inps outs (add_out lt q p)"
  using set_set_insert_subset [of lt q "pl_inp p"] set_set_insert_subset [of lt q "pl_out p"]
  by (auto simp: within_ports_def add_inp_def add_out_def sorted_set_insert)

lemma ports_subseqs: "sorted_wrt lt ps \<Longrightarrow> sorted_wrt lt qs \<Longrightarrow> set ps \<subseteq> set qs \<Longrightarrow> ps \<in> set (subseqs qs)"
  using sorted_within [of ps qs] filter_in_subseqs [of "\<lambda>q. q \<in> set ps" qs] by simp

lemma on_all_portsD:
  assumes "on_all_ports inps outs P" and "within_ports lt inps outs p"
  shows "P p"
proof -
  have "pl_inp p \<in> set (subseqs inps)" "pl_out p \<in> set (subseqs outs)"
    using assms(2) by (simp_all add: within_ports_def ports_subseqs inps_sorted outs_sorted)
  with assms(1) have "P \<lparr>pl_inp = pl_inp p, pl_out = pl_out p\<rparr>"
    by (simp add: on_all_ports_def list_all_iff)
  then show ?thesis by (cases p) simp
qed

lemma table_None:
  assumes "on_all_ports inps outs (\<lambda>p. list_ex (\<lambda>k. port_list_eq eq k p) (map fst m) = P p)"
    and "within_ports lt inps outs p"
  shows "table_at (port_list_eq eq) m p = None \<longleftrightarrow> \<not> P p"
  using on_all_portsD [OF assms] table_at_keys [of "port_list_eq eq" m p] by blast

end

section \<open>Square gates\<close>

definition is_gate_array :: "nat \<Rightarrow> nat \<Rightarrow> fcn_gate \<Rightarrow> bool" where
  "is_gate_array w h g = (length g = h \<and> list_all (\<lambda>r. length r = w) g)"

lemma gate_arrayD: "is_gate_array w h g \<Longrightarrow> i < h \<Longrightarrow> length (g ! i) = w"
  by (simp add: is_gate_array_def list_all_length)

lemma gate_eqI:
  assumes "is_gate_array w h a" and "is_gate_array w h b"
    and "\<And>i j. i < h \<Longrightarrow> j < w \<Longrightarrow> gate_at a i j = gate_at b i j"
  shows "a = b"
  using assms by (auto simp: is_gate_array_def gate_at_def list_all_length intro!: nth_equalityI)

lemma empty_gate_array [simp]: "is_gate_array w h (EMPTY_GATE T w h)"
  by (simp add: is_gate_array_def EMPTY_GATE_def create_array_def list_all_length)

lemma gate_set_array [simp]: "is_gate_array w h g \<Longrightarrow> is_gate_array w h (gate_set i j v g)"
  by (cases "i < h") (auto simp: is_gate_array_def gate_set_def list_all_length nth_list_update)

lemma gate_at_set:
  "is_gate_array w h g \<Longrightarrow> i < h \<Longrightarrow> j < w \<Longrightarrow>
   gate_at (gate_set i j v g) i' j' = (if i' = i \<and> j' = j then v else gate_at g i' j')"
  by (auto simp: is_gate_array_def gate_set_def gate_at_def list_all_length nth_list_update)

lemma fill_column:
  assumes "is_gate_array w h t" and "x < w" and "k \<le> h"
  shows "is_gate_array w h (fold (\<lambda>y. gate_set y x (v y)) [0..<k] t) \<and>
    (\<forall>i j. gate_at (fold (\<lambda>y. gate_set y x (v y)) [0..<k] t) i j =
       (if j = x \<and> i < k then v i else gate_at t i j))"
  using assms(3)
proof (induction k)
  case (Suc k)
  let ?t = "fold (\<lambda>y. gate_set y x (v y)) [0..<k] t"
  from Suc have t: "is_gate_array w h ?t" and at: "\<And>i j. gate_at ?t i j = (if j = x \<and> i < k then v i else gate_at t i j)"
    by simp_all
  show ?case
    using t gate_at_set [OF t, of k x] Suc.prems assms(2) by (auto simp: at less_Suc_eq)
qed (simp add: assms(1))

lemma fill_gate:
  assumes "is_gate_array w h t" and "m \<le> w"
  shows "is_gate_array w h (fold (\<lambda>x t. fold (\<lambda>y. gate_set y x (v x y)) [0..<h] t) [0..<m] t) \<and>
    (\<forall>i j. i < h \<longrightarrow> gate_at (fold (\<lambda>x t. fold (\<lambda>y. gate_set y x (v x y)) [0..<h] t) [0..<m] t) i j =
       (if j < m then v j i else gate_at t i j))"
  using assms(2)
proof (induction m)
  case (Suc m)
  let ?t = "fold (\<lambda>x t. fold (\<lambda>y. gate_set y x (v x y)) [0..<h] t) [0..<m] t"
  from Suc have t: "is_gate_array w h ?t"
    and at: "\<And>i j. i < h \<Longrightarrow> gate_at ?t i j = (if j < m then v j i else gate_at t i j)"
    by simp_all
  show ?case
    using fill_column [OF t, of m h "v m"] Suc.prems by (auto simp: at less_Suc_eq)
qed (simp add: assms(1))

lemma transpose_square:
  shows "is_gate_array n n (gate_transpose T n n g)"
    and "i < n \<Longrightarrow> j < n \<Longrightarrow> gate_at (gate_transpose T n n g) i j = gate_at g j i"
  using fill_gate [OF empty_gate_array [of n n T], of n "gate_at g"] by (simp_all add: gate_transpose_def)

lemma reverse_columns_array [simp]: "is_gate_array w h (reverse_columns g) = is_gate_array w h g"
  by (simp add: is_gate_array_def reverse_columns_def list_all_length)

lemma reverse_rows_array [simp]: "is_gate_array w h (reverse_rows g) = is_gate_array w h g"
  by (simp add: is_gate_array_def reverse_rows_def)

lemma gate_at_reverse_columns:
  "is_gate_array w h g \<Longrightarrow> i < h \<Longrightarrow> j < w \<Longrightarrow> gate_at (reverse_columns g) i j = gate_at g i (w - Suc j)"
  by (simp add: is_gate_array_def gate_at_def reverse_columns_def list_all_length rev_nth)

lemma gate_at_reverse_rows:
  "is_gate_array w h g \<Longrightarrow> i < h \<Longrightarrow> gate_at (reverse_rows g) i j = gate_at g (h - Suc i) j"
  by (simp add: is_gate_array_def gate_at_def reverse_rows_def rev_nth)

lemma rotations_array [simp]:
  "is_gate_array n n g \<Longrightarrow> is_gate_array n n (rotate_90 T n n g)"
  "is_gate_array w h g \<Longrightarrow> is_gate_array w h (rotate_180 g)"
  "is_gate_array n n g \<Longrightarrow> is_gate_array n n (rotate_270 T n n g)"
  by (simp_all add: rotate_90_def rotate_180_def rotate_270_def transpose_square)

lemma gate_at_rotations:
  assumes "is_gate_array n n g" and "i < n" and "j < n"
  shows "gate_at (rotate_90 T n n g) i j = gate_at g (n - Suc j) i"
    and "gate_at (rotate_180 g) i j = gate_at g (n - Suc i) (n - Suc j)"
    and "gate_at (rotate_270 T n n g) i j = gate_at g j (n - Suc i)"
  using assms
  by (simp_all add: rotate_90_def rotate_180_def rotate_270_def transpose_square
      gate_at_reverse_columns [of n n] gate_at_reverse_rows [of n n])

section \<open>Properties\<close>

text \<open>A layout for the witnesses: a majority gate without neighbours.\<close>

definition maj_layout :: "nat gate_level_layout" where
  "maj_layout = snd (create_maj 1 2 3 (ucoord3 1 1 0)
     (make_gate_level_layout sample_kitty Cartesian (ucoord3 3 3 1) (twoddwave_clocking Cartesian FOUR) []))"

lemma maj_layout_function:
  "gn_function (node_at maj_layout (get_node_of_tile maj_layout (ucoord3 1 1 0))) = 10"
  by code_simp

text \<open>C34. On square gates, rotating by 90 degrees twice is rotating by 180 degrees, rotating by 270
  degrees undoes rotating by 90 degrees, rotating by 180 degrees undoes itself, and a quarter turn
  moves the cell in row \<open>i\<close> and column \<open>j\<close> to row \<open>j\<close> and column \<open>n - 1 - i\<close>.\<close>

theorem rotations_compose:
  assumes "is_gate_array n n g"
  shows "rotate_90 T n n (rotate_90 T n n g) = rotate_180 g \<and>
    rotate_270 T n n (rotate_90 T n n g) = g \<and> rotate_90 T n n (rotate_270 T n n g) = g \<and>
    rotate_180 (rotate_180 g) = g \<and>
    (\<forall>i<n. \<forall>j<n. gate_at (rotate_90 T n n g) j (n - Suc i) = gate_at g i j)"
  using assms
  by (intro conjI allI impI gate_eqI [of n n]) (simp_all add: gate_at_rotations [of n])

lemma rotations_compose_witness:
  "rotate_270 qca_technology 2 2 (rotate_90 qca_technology 2 2 (cell_list_to_gate [''xi'', '' o''])) =
     cell_list_to_gate [''xi'', '' o''] \<and>
   rotate_90 qca_technology 2 2 (cell_list_to_gate [''xi'', '' o'']) = cell_list_to_gate ['' x'', ''oi'']"
proof
  have "is_gate_array 2 2 (cell_list_to_gate [''xi'', '' o''])" by code_simp
  then show "rotate_270 qca_technology 2 2 (rotate_90 qca_technology 2 2 (cell_list_to_gate [''xi'', '' o''])) =
     cell_list_to_gate [''xi'', '' o'']"
    using rotations_compose by blast
qed code_simp

end
