(* ===== verification/QCA_One_Library.thy ===== *)
theory QCA_One_Library
  imports Gate_Library
begin

text \<open>
  Model of \<open>technology/qca_one_library.hpp\<close>: the gates and tables of the QCA ONE library of 5 x 5 cells,
  the port routing of a tile and \<open>set_up_gate\<close>. The post-layout optimization is in
  \<open>Apply_Gate_Library\<close>.

  The lemmas show that whatever the library returns is a 5 x 5 array of QCA cells whose cells on the
  four sides agree with the ports of the tile, and for which tiles the library has a gate.
\<close>

definition qca_rotate_90 :: "fcn_gate \<Rightarrow> fcn_gate" where
  "qca_rotate_90 g = rotate_90 qca_technology 5 5 g"

definition qca_rotate_270 :: "fcn_gate \<Rightarrow> fcn_gate" where
  "qca_rotate_270 g = rotate_270 qca_technology 5 5 g"

definition position_ports :: "port_position list \<Rightarrow> port_position list \<Rightarrow> port_position port_list" where
  "position_ports inp out = make_port_list port_position_less inp out"

section \<open>Gates\<close>

definition qca_STRAIGHT_INVERTER :: fcn_gate where
  "qca_STRAIGHT_INVERTER = cell_list_to_gate
    [''  x  '',
     '' xxx '',
     '' x x '',
     ''  x  '',
     ''  x  '']"

definition qca_BENT_INVERTER :: fcn_gate where
  "qca_BENT_INVERTER = cell_list_to_gate
    [''  x  '',
     ''  x  '',
     ''   xx'',
     ''     '',
     ''     '']"

definition qca_CONJUNCTION :: fcn_gate where
  "qca_CONJUNCTION = cell_list_to_gate
    [''  0  '',
     ''  x  '',
     ''xxxxx'',
     ''  x  '',
     ''  x  '']"

definition qca_DISJUNCTION :: fcn_gate where
  "qca_DISJUNCTION = cell_list_to_gate
    [''  1  '',
     ''  x  '',
     ''xxxxx'',
     ''  x  '',
     ''  x  '']"

definition qca_MAJORITY :: fcn_gate where
  "qca_MAJORITY = cell_list_to_gate
    [''  x  '',
     ''  x  '',
     ''xxxxx'',
     ''  x  '',
     ''  x  '']"

definition qca_FAN_OUT_1_2 :: fcn_gate where
  "qca_FAN_OUT_1_2 = cell_list_to_gate
    [''     '',
     ''     '',
     ''xxxxx'',
     ''  x  '',
     ''  x  '']"

definition qca_FAN_OUT_1_3 :: fcn_gate where
  "qca_FAN_OUT_1_3 = cell_list_to_gate
    [''  x  '',
     ''  x  '',
     ''xxxxx'',
     ''  x  '',
     ''  x  '']"

definition qca_PRIMARY_INPUT_PORT :: fcn_gate where
  "qca_PRIMARY_INPUT_PORT = cell_list_to_gate
    [''  x  '',
     ''  x  '',
     ''  i  '',
     ''     '',
     ''     '']"

definition qca_PRIMARY_OUTPUT_PORT :: fcn_gate where
  "qca_PRIMARY_OUTPUT_PORT = cell_list_to_gate
    [''  x  '',
     ''  x  '',
     ''  o  '',
     ''     '',
     ''     '']"

definition qca_CENTER_WIRE :: fcn_gate where
  "qca_CENTER_WIRE = cell_list_to_gate
    [''  x  '',
     ''  x  '',
     ''  x  '',
     ''  x  '',
     ''  x  '']"

definition qca_INNER_SIDE_WIRE :: fcn_gate where
  "qca_INNER_SIDE_WIRE = cell_list_to_gate
    [''   x '',
     ''   x '',
     ''   x '',
     ''   x '',
     ''   x '']"

definition qca_OUTER_SIDE_WIRE :: fcn_gate where
  "qca_OUTER_SIDE_WIRE = cell_list_to_gate
    [''    x'',
     ''    x'',
     ''    x'',
     ''    x'',
     ''    x'']"

definition qca_CENTER_BENT_WIRE :: fcn_gate where
  "qca_CENTER_BENT_WIRE = cell_list_to_gate
    [''  x  '',
     ''  x  '',
     ''  xxx'',
     ''     '',
     ''     '']"

definition qca_INNER_CENTER_TO_INNER_CENTER_BENT_WIRE :: fcn_gate where
  "qca_INNER_CENTER_TO_INNER_CENTER_BENT_WIRE = cell_list_to_gate
    [''   x '',
     ''   xx'',
     ''     '',
     ''     '',
     ''     '']"

definition qca_INNER_CENTER_TO_CENTER_BENT_WIRE :: fcn_gate where
  "qca_INNER_CENTER_TO_CENTER_BENT_WIRE = cell_list_to_gate
    [''   x '',
     ''   x '',
     ''   xx'',
     ''     '',
     ''     '']"

definition qca_INNER_CENTER_TO_OUTER_CENTER_BENT_WIRE :: fcn_gate where
  "qca_INNER_CENTER_TO_OUTER_CENTER_BENT_WIRE = cell_list_to_gate
    [''   x '',
     ''   x '',
     ''   x '',
     ''   xx'',
     ''     '']"

definition qca_INNER_CENTER_TO_OUTER_SIDE_BENT_WIRE :: fcn_gate where
  "qca_INNER_CENTER_TO_OUTER_SIDE_BENT_WIRE = cell_list_to_gate
    [''   x '',
     ''   x '',
     ''   x '',
     ''   x '',
     ''   xx'']"

definition qca_CENTER_TO_INNER_CENTER_BENT_WIRE :: fcn_gate where
  "qca_CENTER_TO_INNER_CENTER_BENT_WIRE = cell_list_to_gate
    [''  x  '',
     ''  xxx'',
     ''     '',
     ''     '',
     ''     '']"

definition qca_OUTER_CENTER_TO_CENTER_BENT_WIRE :: fcn_gate where
  "qca_OUTER_CENTER_TO_CENTER_BENT_WIRE = cell_list_to_gate
    ['' x   '',
     '' x   '',
     '' xxxx'',
     ''     '',
     ''     '']"

definition qca_OUTER_CENTER_TO_OUTER_CENTER_BENT_WIRE :: fcn_gate where
  "qca_OUTER_CENTER_TO_OUTER_CENTER_BENT_WIRE = cell_list_to_gate
    ['' x   '',
     '' x   '',
     '' x   '',
     '' xxxx'',
     ''     '']"

definition qca_OUTER_SIDE_TO_OUTER_SIDE_BENT_WIRE :: fcn_gate where
  "qca_OUTER_SIDE_TO_OUTER_SIDE_BENT_WIRE = cell_list_to_gate
    [''x    '',
     ''x    '',
     ''x    '',
     ''x    '',
     ''xxxxx'']"

section \<open>Tables\<close>

definition qca_WIRE_MAP :: "port_position gate_table" where
  "qca_WIRE_MAP =
    [
     (position_ports [] [port_position 2 0], qca_PRIMARY_INPUT_PORT),
     (position_ports [] [port_position 4 2], qca_rotate_90 qca_PRIMARY_INPUT_PORT),
     (position_ports [] [port_position 2 4], rotate_180 qca_PRIMARY_INPUT_PORT),
     (position_ports [] [port_position 0 2], qca_rotate_270 qca_PRIMARY_INPUT_PORT),
     (position_ports [port_position 2 0] [], qca_PRIMARY_OUTPUT_PORT),
     (position_ports [port_position 4 2] [], qca_rotate_90 qca_PRIMARY_OUTPUT_PORT),
     (position_ports [port_position 2 4] [], rotate_180 qca_PRIMARY_OUTPUT_PORT),
     (position_ports [port_position 0 2] [], qca_rotate_270 qca_PRIMARY_OUTPUT_PORT),
     (position_ports [port_position 2 0] [port_position 2 4], qca_CENTER_WIRE),
     (position_ports [port_position 2 4] [port_position 2 0], qca_CENTER_WIRE),
     (position_ports [port_position 0 2] [port_position 4 2], qca_rotate_90 qca_CENTER_WIRE),
     (position_ports [port_position 4 2] [port_position 0 2], qca_rotate_90 qca_CENTER_WIRE),
     (position_ports [port_position 3 0] [port_position 3 4], qca_INNER_SIDE_WIRE),
     (position_ports [port_position 3 4] [port_position 3 0], qca_INNER_SIDE_WIRE),
     (position_ports [port_position 0 3] [port_position 4 3], qca_rotate_90 qca_INNER_SIDE_WIRE),
     (position_ports [port_position 4 3] [port_position 0 3], qca_rotate_90 qca_INNER_SIDE_WIRE),
     (position_ports [port_position 1 0] [port_position 1 4], rotate_180 qca_INNER_SIDE_WIRE),
     (position_ports [port_position 1 4] [port_position 1 0], rotate_180 qca_INNER_SIDE_WIRE),
     (position_ports [port_position 0 1] [port_position 4 1], qca_rotate_270 qca_INNER_SIDE_WIRE),
     (position_ports [port_position 4 1] [port_position 0 1], qca_rotate_270 qca_INNER_SIDE_WIRE),
     (position_ports [port_position 4 0] [port_position 4 4], qca_OUTER_SIDE_WIRE),
     (position_ports [port_position 4 4] [port_position 4 0], qca_OUTER_SIDE_WIRE),
     (position_ports [port_position 0 4] [port_position 4 4], qca_rotate_90 qca_OUTER_SIDE_WIRE),
     (position_ports [port_position 4 4] [port_position 0 4], qca_rotate_90 qca_OUTER_SIDE_WIRE),
     (position_ports [port_position 0 0] [port_position 0 4], rotate_180 qca_OUTER_SIDE_WIRE),
     (position_ports [port_position 0 4] [port_position 0 0], rotate_180 qca_OUTER_SIDE_WIRE),
     (position_ports [port_position 0 0] [port_position 4 0], qca_rotate_270 qca_OUTER_SIDE_WIRE),
     (position_ports [port_position 4 0] [port_position 0 0], qca_rotate_270 qca_OUTER_SIDE_WIRE),
     (position_ports [port_position 2 0] [port_position 4 2], qca_CENTER_BENT_WIRE),
     (position_ports [port_position 4 2] [port_position 2 0], qca_CENTER_BENT_WIRE),
     (position_ports [port_position 4 2] [port_position 2 4], qca_rotate_90 qca_CENTER_BENT_WIRE),
     (position_ports [port_position 2 4] [port_position 4 2], qca_rotate_90 qca_CENTER_BENT_WIRE),
     (position_ports [port_position 0 2] [port_position 2 4], rotate_180 qca_CENTER_BENT_WIRE),
     (position_ports [port_position 2 4] [port_position 0 2], rotate_180 qca_CENTER_BENT_WIRE),
     (position_ports [port_position 2 0] [port_position 0 2], qca_rotate_270 qca_CENTER_BENT_WIRE),
     (position_ports [port_position 0 2] [port_position 2 0], qca_rotate_270 qca_CENTER_BENT_WIRE)]"

definition qca_INVERTER_MAP :: "port_position gate_table" where
  "qca_INVERTER_MAP =
    [
     (position_ports [port_position 2 0] [port_position 2 4], qca_STRAIGHT_INVERTER),
     (position_ports [port_position 4 2] [port_position 0 2], qca_rotate_90 qca_STRAIGHT_INVERTER),
     (position_ports [port_position 2 4] [port_position 2 0], rotate_180 qca_STRAIGHT_INVERTER),
     (position_ports [port_position 0 2] [port_position 4 2], qca_rotate_270 qca_STRAIGHT_INVERTER),
     (position_ports [port_position 2 0] [], qca_STRAIGHT_INVERTER),
     (position_ports [port_position 4 2] [], qca_rotate_90 qca_STRAIGHT_INVERTER),
     (position_ports [port_position 2 4] [], rotate_180 qca_STRAIGHT_INVERTER),
     (position_ports [port_position 0 2] [], qca_rotate_270 qca_STRAIGHT_INVERTER),
     (position_ports [] [port_position 2 4], qca_STRAIGHT_INVERTER),
     (position_ports [] [port_position 0 2], qca_rotate_90 qca_STRAIGHT_INVERTER),
     (position_ports [] [port_position 2 0], rotate_180 qca_STRAIGHT_INVERTER),
     (position_ports [] [port_position 4 2], qca_rotate_270 qca_STRAIGHT_INVERTER),
     (position_ports [port_position 2 0] [port_position 4 2], qca_BENT_INVERTER),
     (position_ports [port_position 4 2] [port_position 2 0], qca_BENT_INVERTER),
     (position_ports [port_position 4 2] [port_position 2 4], qca_rotate_90 qca_BENT_INVERTER),
     (position_ports [port_position 2 4] [port_position 4 2], qca_rotate_90 qca_BENT_INVERTER),
     (position_ports [port_position 0 2] [port_position 2 4], rotate_180 qca_BENT_INVERTER),
     (position_ports [port_position 2 4] [port_position 0 2], rotate_180 qca_BENT_INVERTER),
     (position_ports [port_position 2 0] [port_position 0 2], qca_rotate_270 qca_BENT_INVERTER),
     (position_ports [port_position 0 2] [port_position 2 0], qca_rotate_270 qca_BENT_INVERTER)]"

definition qca_CONJUNCTION_MAP :: "port_position gate_table" where
  "qca_CONJUNCTION_MAP =
    [
     (position_ports [port_position 0 2, port_position 2 4] [port_position 4 2], qca_CONJUNCTION),
     (position_ports [port_position 0 2, port_position 4 2] [port_position 2 4], qca_CONJUNCTION),
     (position_ports [port_position 2 4, port_position 4 2] [port_position 0 2], qca_CONJUNCTION),
     (position_ports [port_position 0 2, port_position 2 4] [port_position 2 0], qca_rotate_90 qca_CONJUNCTION),
     (position_ports [port_position 0 2, port_position 2 0] [port_position 2 4], qca_rotate_90 qca_CONJUNCTION),
     (position_ports [port_position 2 4, port_position 2 0] [port_position 0 2], qca_rotate_90 qca_CONJUNCTION),
     (position_ports [port_position 0 2, port_position 4 2] [port_position 2 0], rotate_180 qca_CONJUNCTION),
     (position_ports [port_position 0 2, port_position 2 0] [port_position 4 2], rotate_180 qca_CONJUNCTION),
     (position_ports [port_position 4 2, port_position 2 0] [port_position 0 2], rotate_180 qca_CONJUNCTION),
     (position_ports [port_position 2 4, port_position 4 2] [port_position 2 0], qca_rotate_270 qca_CONJUNCTION),
     (position_ports [port_position 2 4, port_position 2 0] [port_position 4 2], qca_rotate_270 qca_CONJUNCTION),
     (position_ports [port_position 4 2, port_position 2 0] [port_position 2 4], qca_rotate_270 qca_CONJUNCTION)]"

definition qca_DISJUNCTION_MAP :: "port_position gate_table" where
  "qca_DISJUNCTION_MAP =
    [
     (position_ports [port_position 0 2, port_position 2 4] [port_position 4 2], qca_DISJUNCTION),
     (position_ports [port_position 0 2, port_position 4 2] [port_position 2 4], qca_DISJUNCTION),
     (position_ports [port_position 2 4, port_position 4 2] [port_position 0 2], qca_DISJUNCTION),
     (position_ports [port_position 0 2, port_position 2 4] [port_position 2 0], qca_rotate_90 qca_DISJUNCTION),
     (position_ports [port_position 0 2, port_position 2 0] [port_position 2 4], qca_rotate_90 qca_DISJUNCTION),
     (position_ports [port_position 2 4, port_position 2 0] [port_position 0 2], qca_rotate_90 qca_DISJUNCTION),
     (position_ports [port_position 0 2, port_position 4 2] [port_position 2 0], rotate_180 qca_DISJUNCTION),
     (position_ports [port_position 0 2, port_position 2 0] [port_position 4 2], rotate_180 qca_DISJUNCTION),
     (position_ports [port_position 4 2, port_position 2 0] [port_position 0 2], rotate_180 qca_DISJUNCTION),
     (position_ports [port_position 2 4, port_position 4 2] [port_position 2 0], qca_rotate_270 qca_DISJUNCTION),
     (position_ports [port_position 2 4, port_position 2 0] [port_position 4 2], qca_rotate_270 qca_DISJUNCTION),
     (position_ports [port_position 4 2, port_position 2 0] [port_position 2 4], qca_rotate_270 qca_DISJUNCTION)]"

definition qca_FANOUT_MAP :: "port_position gate_table" where
  "qca_FANOUT_MAP =
    [
     (position_ports [port_position 4 2] [port_position 0 2, port_position 2 4], qca_FAN_OUT_1_2),
     (position_ports [port_position 2 4] [port_position 0 2, port_position 4 2], qca_FAN_OUT_1_2),
     (position_ports [port_position 0 2] [port_position 2 4, port_position 4 2], qca_FAN_OUT_1_2),
     (position_ports [port_position 2 0] [port_position 0 2, port_position 2 4], qca_rotate_90 qca_FAN_OUT_1_2),
     (position_ports [port_position 2 4] [port_position 0 2, port_position 2 0], qca_rotate_90 qca_FAN_OUT_1_2),
     (position_ports [port_position 0 2] [port_position 2 4, port_position 2 0], qca_rotate_90 qca_FAN_OUT_1_2),
     (position_ports [port_position 2 0] [port_position 0 2, port_position 4 2], rotate_180 qca_FAN_OUT_1_2),
     (position_ports [port_position 4 2] [port_position 0 2, port_position 2 0], rotate_180 qca_FAN_OUT_1_2),
     (position_ports [port_position 0 2] [port_position 4 2, port_position 2 0], rotate_180 qca_FAN_OUT_1_2),
     (position_ports [port_position 2 0] [port_position 2 4, port_position 4 2], qca_rotate_270 qca_FAN_OUT_1_2),
     (position_ports [port_position 4 2] [port_position 2 4, port_position 2 0], qca_rotate_270 qca_FAN_OUT_1_2),
     (position_ports [port_position 2 4] [port_position 4 2, port_position 2 0], qca_rotate_270 qca_FAN_OUT_1_2)]"

section \<open>Ports and gates of a tile\<close>

definition port_if :: "('p \<Rightarrow> 'p port_list \<Rightarrow> 'p port_list) \<Rightarrow> bool \<Rightarrow> 'p \<Rightarrow> 'p port_list \<Rightarrow> 'p port_list" where
  "port_if add b p l = (if b then add p l else l)"

abbreviation "inp_if \<equiv> port_if (add_inp port_position_less)"
abbreviation "out_if \<equiv> port_if (add_out port_position_less)"

definition qca_determine_port_routing :: "'tt gate_level_layout \<Rightarrow> ucoord_t \<Rightarrow> port_position port_list" where
  "qca_determine_port_routing l t =
     (let p = empty_port_list;
          p = inp_if (has_northern_incoming_signal l t) (port_position 2 0) p;
          p = inp_if (has_eastern_incoming_signal l t) (port_position 4 2) p;
          p = inp_if (has_southern_incoming_signal l t) (port_position 2 4) p;
          p = inp_if (has_western_incoming_signal l t) (port_position 0 2) p;
          p = out_if (has_northern_outgoing_signal l t) (port_position 2 0) p;
          p = out_if (has_eastern_outgoing_signal l t) (port_position 4 2) p;
          p = out_if (has_southern_outgoing_signal l t) (port_position 2 4) p;
          p = out_if (has_western_outgoing_signal l t) (port_position 0 2) p;
          n = get_node_of_tile l t
      in if \<not> is_wire l n \<and> \<not> is_inv l n then
           (let p = inp_if (has_no_incoming_signal l t) (port_position 0 2) p
            in out_if (has_no_outgoing_signal l t) (port_position 4 2) p)
         else p)"

text \<open>The kinds of nodes that the library distinguishes, in the order of its tests. A wire with more
  than one fanout is a fan-out; only those with two or three are treated before plain wires.\<close>

definition qca_at :: "port_position gate_table \<Rightarrow> port_position port_list \<Rightarrow> fcn_gate option" where
  "qca_at m p = table_at (port_list_eq port_position_eq) m p"

definition qca_set_up_gate ::
    "'tt gate_level_layout \<Rightarrow> ucoord_t \<Rightarrow> (port_position, fcn_gate) gate_result" where
  "qca_set_up_gate l t =
     (let n = get_node_of_tile l t;
          p = qca_determine_port_routing l t;
          orientation = unsupported_gate_orientation t p
      in if is_fanout l n \<and> fanout_size l n = 2 then or_throw orientation (qca_at qca_FANOUT_MAP p)
         else if is_fanout l n \<and> fanout_size l n = 3 then Inr qca_FAN_OUT_1_3
         else if is_buf l n then or_throw orientation (qca_at qca_WIRE_MAP p)
         else if is_inv l n then or_throw orientation (qca_at qca_INVERTER_MAP p)
         else if is_and l n then or_throw orientation (qca_at qca_CONJUNCTION_MAP p)
         else if is_or l n then or_throw orientation (qca_at qca_DISJUNCTION_MAP p)
         else if is_maj l n then Inr qca_MAJORITY
         else Inl (unsupported_gate_type t))"

section \<open>The ports of a tile\<close>

text \<open>The middle cells of the four sides.\<close>

definition sides :: "port_position list" where
  "sides = [port_position 0 2, port_position 2 0, port_position 2 4, port_position 4 2]"

lemma sides_sorted: "sorted_wrt port_position_less sides"
  by code_simp

interpretation qca_ports: port_routing port_position_less port_position_eq sides sides
  by unfold_locales (simp_all add: sides_sorted)

abbreviation "side_routing \<equiv> within_ports port_position_less sides sides"

lemma side_routing_if:
  "p \<in> set sides \<Longrightarrow> side_routing l \<Longrightarrow> side_routing (inp_if b p l)"
  "p \<in> set sides \<Longrightarrow> side_routing l \<Longrightarrow> side_routing (out_if b p l)"
  by (simp_all add: port_if_def qca_ports.within_add)

lemma sides_mem:
  "port_position 0 2 \<in> set sides" "port_position 2 0 \<in> set sides"
  "port_position 2 4 \<in> set sides" "port_position 4 2 \<in> set sides"
  by (simp_all add: sides_def)

lemma qca_routing_sides: "side_routing (qca_determine_port_routing l t)"
  by (simp add: qca_determine_port_routing_def Let_def side_routing_if sides_mem qca_ports.within_empty)

section \<open>Checking the tables\<close>

definition qca_types :: "cell_type list" where
  "qca_types = [QCA_EMPTY, QCA_NORMAL, QCA_INPUT, QCA_OUTPUT, QCA_CONST_0, QCA_CONST_1]"

text \<open>A 5 x 5 array of QCA cells.\<close>

definition qca_gate :: "fcn_gate \<Rightarrow> bool" where
  "qca_gate g = (is_gate_array 5 5 g \<and> list_all (list_all (\<lambda>c. c \<in> set qca_types)) g)"

definition side_cell :: "fcn_gate \<Rightarrow> port_position \<Rightarrow> cell_type" where
  "side_cell g p = gate_at g (unat (pp_y p)) (unat (pp_x p))"

text \<open>The gate has a normal cell at each of its ports; an exact gate has one at no other side.\<close>

definition connects :: "port_position port_list \<Rightarrow> fcn_gate \<Rightarrow> bool" where
  "connects p g = list_all (\<lambda>q. side_cell g q = QCA_NORMAL) (pl_inp p @ pl_out p)"

definition connects_exactly :: "port_position port_list \<Rightarrow> fcn_gate \<Rightarrow> bool" where
  "connects_exactly p g =
     list_all (\<lambda>q. (side_cell g q = QCA_NORMAL) = list_ex (port_position_eq q) (pl_inp p @ pl_out p)) sides"

definition side_only :: "port_position port_list \<Rightarrow> bool" where
  "side_only p = list_all (\<lambda>q. list_ex (port_position_eq q) sides) (pl_inp p @ pl_out p)"

lemma wires_fit:
  "list_all (\<lambda>(p, g). qca_gate g \<and> connects p g \<and> (side_only p \<longrightarrow> connects_exactly p g)) qca_WIRE_MAP"
  by code_simp

lemma inverters_fit: "list_all (\<lambda>(p, g). qca_gate g \<and> connects p g) qca_INVERTER_MAP"
  by code_simp

lemma conjunctions_fit: "list_all (\<lambda>(p, g). qca_gate g \<and> connects p g \<and> connects_exactly p g) qca_CONJUNCTION_MAP"
  by code_simp

lemma disjunctions_fit: "list_all (\<lambda>(p, g). qca_gate g \<and> connects p g \<and> connects_exactly p g) qca_DISJUNCTION_MAP"
  by code_simp

lemma fanouts_fit: "list_all (\<lambda>(p, g). qca_gate g \<and> connects p g \<and> connects_exactly p g) qca_FANOUT_MAP"
  by code_simp

lemma fixed_gates_fit:
  "list_all (\<lambda>g. qca_gate g \<and> list_all (\<lambda>q. side_cell g q = QCA_NORMAL) sides) [qca_FAN_OUT_1_3, qca_MAJORITY]"
  by code_simp

section \<open>Which ports a table has\<close>

abbreviation "position_list_eq \<equiv> port_list_eq port_position_eq"

lemma wire_keys: "on_all_ports sides sides (\<lambda>p. list_ex (\<lambda>k. position_list_eq k p) (map fst qca_WIRE_MAP) = wired p)"
  unfolding qca_WIRE_MAP_def list.map fst_conv by code_simp

lemma inverter_keys: "on_all_ports sides sides (\<lambda>p. list_ex (\<lambda>k. position_list_eq k p) (map fst qca_INVERTER_MAP) = wired p)"
  unfolding qca_INVERTER_MAP_def list.map fst_conv by code_simp

lemma conjunction_keys:
  "on_all_ports sides sides (\<lambda>p. list_ex (\<lambda>k. position_list_eq k p) (map fst qca_CONJUNCTION_MAP) = routed 2 1 p)"
  unfolding qca_CONJUNCTION_MAP_def list.map fst_conv by code_simp

lemma disjunction_keys:
  "on_all_ports sides sides (\<lambda>p. list_ex (\<lambda>k. position_list_eq k p) (map fst qca_DISJUNCTION_MAP) = routed 2 1 p)"
  unfolding qca_DISJUNCTION_MAP_def list.map fst_conv by code_simp

lemma fanout_keys:
  "on_all_ports sides sides (\<lambda>p. list_ex (\<lambda>k. position_list_eq k p) (map fst qca_FANOUT_MAP) = routed 1 2 p)"
  unfolding qca_FANOUT_MAP_def list.map fst_conv by code_simp

lemma qca_at_keys:
  "on_all_ports sides sides (\<lambda>p. list_ex (\<lambda>k. position_list_eq k p) (map fst m) = P p) \<Longrightarrow>
   qca_at m (qca_determine_port_routing l t) = None \<longleftrightarrow> \<not> P (qca_determine_port_routing l t)"
  unfolding qca_at_def by (rule qca_ports.table_None [OF _ qca_routing_sides])

lemmas qca_tables_None [simp] =
  qca_at_keys [OF wire_keys] qca_at_keys [OF inverter_keys] qca_at_keys [OF conjunction_keys]
  qca_at_keys [OF disjunction_keys] qca_at_keys [OF fanout_keys]

lemma eq_list_ex: "list_all2 port_position_eq xs ys \<Longrightarrow> list_ex (port_position_eq q) xs = list_ex (port_position_eq q) ys"
  by (induction rule: list_all2_induct) (auto simp: port_position_eq_def)

lemma eq_list_all:
  "list_all2 port_position_eq xs ys \<Longrightarrow> (\<And>a b. port_position_eq a b \<Longrightarrow> P a = P b) \<Longrightarrow> list_all P xs = list_all P ys"
  by (induction rule: list_all2_induct) auto

lemma connects_cong:
  assumes "position_list_eq k p"
  shows "connects k g = connects p g" "connects_exactly k g = connects_exactly p g" "side_only k = side_only p"
proof -
  have eq: "list_all2 port_position_eq (pl_inp k @ pl_out k) (pl_inp p @ pl_out p)"
    using assms by (simp add: port_list_eq_def list_all2_appendI)
  show "connects k g = connects p g" "side_only k = side_only p"
    unfolding connects_def side_only_def
    by (rule eq_list_all [OF eq], simp add: side_cell_def sides_def port_position_eq_def)+
  show "connects_exactly k g = connects_exactly p g"
    unfolding connects_exactly_def eq_list_ex [OF eq] ..
qed

lemma side_routing_only:
  assumes "side_routing p"
  shows "side_only p"
proof -
  have "list_ex (port_position_eq q) sides" if "q \<in> set (pl_inp p @ pl_out p)" for q
    using assms that
    by (auto simp: list_ex_iff port_position_eq_def within_ports_def)
  then show ?thesis unfolding side_only_def list_all_iff by blast
qed

lemma table_fit:
  "list_all (\<lambda>(p, g). P p g) m \<Longrightarrow> qca_at m p = Some g \<Longrightarrow>
   (\<And>k. position_list_eq k p \<Longrightarrow> P k g = P p g) \<Longrightarrow> P p g"
  unfolding qca_at_def by (rule table_at_fit)

lemma wire_fit: "qca_at qca_WIRE_MAP p = Some g \<Longrightarrow> side_routing p \<Longrightarrow>
    qca_gate g \<and> connects p g \<and> connects_exactly p g"
  using table_fit [OF wires_fit, of p g] connects_cong [of _ p] side_routing_only by blast

lemma inverter_fit: "qca_at qca_INVERTER_MAP p = Some g \<Longrightarrow> qca_gate g \<and> connects p g"
  using table_fit [OF inverters_fit, of p g] connects_cong [of _ p] by blast

lemma gate_fit:
  "qca_at qca_CONJUNCTION_MAP p = Some g \<Longrightarrow> qca_gate g \<and> connects p g \<and> connects_exactly p g"
  "qca_at qca_DISJUNCTION_MAP p = Some g \<Longrightarrow> qca_gate g \<and> connects p g \<and> connects_exactly p g"
  "qca_at qca_FANOUT_MAP p = Some g \<Longrightarrow> qca_gate g \<and> connects p g \<and> connects_exactly p g"
  using table_fit [OF conjunctions_fit, of p g] table_fit [OF disjunctions_fit, of p g]
    table_fit [OF fanouts_fit, of p g] connects_cong [of _ p] by blast+

lemma fixed_fit: "side_routing p \<Longrightarrow> qca_gate qca_FAN_OUT_1_3 \<and> connects p qca_FAN_OUT_1_3"
  "side_routing p \<Longrightarrow> qca_gate qca_MAJORITY \<and> connects p qca_MAJORITY"
  using fixed_gates_fit by (auto simp: connects_def list_all_iff within_ports_def)

section \<open>Properties\<close>

lemma set_up_gate_fits:
  assumes "qca_set_up_gate l t = Inr g"
  shows "qca_gate g \<and> connects (qca_determine_port_routing l t) g \<and>
    (is_inv l (get_node_of_tile l t) \<or> is_maj l (get_node_of_tile l t) \<or>
     fanout_size l (get_node_of_tile l t) = 3 \<or> connects_exactly (qca_determine_port_routing l t) g)"
proof -
  note sides = qca_routing_sides [of l t]
  show ?thesis
    using assms wire_fit [OF _ sides] inverter_fit gate_fit fixed_fit [OF sides]
    unfolding qca_set_up_gate_def Let_def or_throw_def
    by (auto split: if_splits option.splits)
qed

text \<open>C29. Every gate that QCA ONE returns for a tile is a 5 x 5 array of QCA cells with a normal cell at
  each port of the tile; unless it is an inverter, a majority gate or a fan-out to three tiles, it has
  none at the sides without port.\<close>

theorem qca_gate_fits_ports:
  assumes "qca_set_up_gate l t = Inr g"
  shows "qca_gate g \<and> connects (qca_determine_port_routing l t) g \<and>
    (is_inv l (get_node_of_tile l t) \<or> is_maj l (get_node_of_tile l t) \<or>
     fanout_size l (get_node_of_tile l t) = 3 \<or> connects_exactly (qca_determine_port_routing l t) g)"
  using assms by (rule set_up_gate_fits)

lemma maj_layout_set_up: "qca_set_up_gate maj_layout (ucoord3 1 1 0) = Inr qca_MAJORITY"
  by (simp add: qca_set_up_gate_def Let_def is_fanout_def is_wire_def is_buf_def is_inv_def is_and_def
      is_or_def is_maj_def maj_layout_function)

lemma qca_gate_fits_ports_witness:
  "qca_gate qca_MAJORITY \<and> connects (qca_determine_port_routing maj_layout (ucoord3 1 1 0)) qca_MAJORITY"
  using qca_gate_fits_ports [OF maj_layout_set_up] by blast

text \<open>C30. The tiles that QCA ONE can realize: fan-outs with one input and two outputs or with three
  outputs, wires and inverters with at most one input and one output, conjunctions and disjunctions
  with two inputs and one output, in each case on different sides, and all majority gates. Every
  other wire, inverter, conjunction, disjunction or fan-out is reported as an unsupported
  orientation, and every other gate as an unsupported type.\<close>

theorem qca_supported_tiles:
  "let n = get_node_of_tile l t; p = qca_determine_port_routing l t; r = qca_set_up_gate l t;
       oriented = (is_buf l n \<or> is_inv l n \<or> is_and l n \<or> is_or l n);
       supported =
         (if is_fanout l n \<and> fanout_size l n = 2 then routed 1 2 p
          else if is_fanout l n \<and> fanout_size l n = 3 then True
          else if is_buf l n \<or> is_inv l n then wired p
          else if is_and l n \<or> is_or l n then routed 2 1 p
          else is_maj l n)
   in if supported then \<exists>g. r = Inr g
      else if oriented then r = Inl (unsupported_gate_orientation t p)
      else r = Inl (unsupported_gate_type t)"
proof -
  let ?n = "get_node_of_tile l t"
  have fan: "is_fanout l ?n \<Longrightarrow> is_buf l ?n" by (simp add: is_fanout_def is_wire_def)
  consider "is_fanout l ?n \<and> fanout_size l ?n = 2" | "is_fanout l ?n \<and> fanout_size l ?n = 3"
    | "\<not> (is_fanout l ?n \<and> fanout_size l ?n = 2)" "\<not> (is_fanout l ?n \<and> fanout_size l ?n = 3)"
    by blast
  then show ?thesis
  proof cases
    case 3
    then show ?thesis
      by (cases "is_buf l ?n"; cases "is_inv l ?n"; cases "is_and l ?n"; cases "is_or l ?n")
        (simp_all only: qca_set_up_gate_def Let_def or_throw_iff(1,2) qca_tables_None if_True if_False simp_thms split: if_split, simp_all del: not_None_eq)
  qed (simp_all add: fan qca_set_up_gate_def Let_def or_throw_iff(1,2) del: not_None_eq)
qed

end
