(* ===== verification/Apply_Gate_Library.thy ===== *)
theory Apply_Gate_Library
  imports Gate_Level_Flow Cell_Level_Layout Gate_Library
begin

text \<open>
  Model of \<open>algorithms/physical_design/apply_gate_library.hpp\<close>: a gate library turns a gate-level
  layout into a cell-level layout by copying the gate of every tile to the block of cells of the
  tile. The template parameter \<open>GateLibrary\<close> is the record of its static members; \<open>'e\<close> is its type
  of errors. \<open>set_up_gate\<close> may throw, which ends the algorithm with its error. The optimization
  after the layout need not end or be defined, so its result, and that of the algorithm, is an
  option.

  The origin of a gate is computed on \<open>int\<close>s in the code, whose overflow is undefined, and stored in
  31 bits; the model computes on 64 bits and truncates. The lemmas assume that the cells fit.

  The lemmas show which types the cells have afterwards: those of the gate of their tile in
  Cartesian layouts, whose blocks do not overlap; in layouts with shifted rows, some of the cells
  lie outside the cell-level layout.
\<close>

section \<open>The library and the origin of a gate\<close>

record ('m, 'tt, 'e) gate_library =
  lib_technology :: "'m technology"
  lib_gate_x_size :: u16
  lib_gate_y_size :: u16
  lib_set_up_gate :: "'tt gate_level_layout \<Rightarrow> ucoord_t \<Rightarrow> 'e + fcn_gate"
  lib_post_layout_optimization :: "'m cell_level_layout \<Rightarrow> 'm cell_level_layout option"

definition shift_right :: "u16 \<Rightarrow> ucoord_t \<Rightarrow> ucoord_t" where
  "shift_right w c = c\<lparr>ux := ux c + ucast (w div 2)\<rparr>"

definition shift_down :: "u16 \<Rightarrow> ucoord_t \<Rightarrow> ucoord_t" where
  "shift_down h c = c\<lparr>uy := uy c + ucast (h div 2)\<rparr>"

definition gate_origin :: "topology \<Rightarrow> u16 \<Rightarrow> u16 \<Rightarrow> ucoord_t \<Rightarrow> ucoord_t" where
  "gate_origin topo w h t =
     (case topo of
        Cartesian \<Rightarrow> ucoord3 (ucast (ux t) * ucast w) (ucast (uy t) * ucast h) (ucast (uz t))
      | Shifted_Cartesian arr \<Rightarrow>
          (let c = ucoord3 (ucast (ux t) * ucast w) (ucast (uy t) * ucast h) (ucast (uz t))
           in case arr of
                odd_row_cartesian \<Rightarrow> if hex_is_in_odd_row t then shift_right w c else c
              | even_row_cartesian \<Rightarrow> if hex_is_in_even_row t then shift_right w c else c
              | odd_column_cartesian \<Rightarrow> if hex_is_in_odd_column t then shift_down h c else c
              | even_column_cartesian \<Rightarrow> if hex_is_in_even_column t then shift_down h c else c)
      | Hexagonal arr \<Rightarrow>
          (let c = (case hex_orientation_of arr of
                      pointy_top_hex \<Rightarrow>
                        ucoord3 (ucast (ux t) * ucast w) (ucast (uy t) * (ucast h * 3 div 4)) (ucast (uz t))
                    | flat_top_hex \<Rightarrow>
                        ucoord3 (ucast (ux t) * (ucast w * 3 div 4)) (ucast (uy t) * ucast h) (ucast (uz t)))
           in case arr of
                odd_row_hex \<Rightarrow> if hex_is_in_odd_row t then shift_right w c else c
              | even_row_hex \<Rightarrow> if hex_is_in_even_row t then shift_right w c else c
              | odd_column_hex \<Rightarrow> if hex_is_in_odd_column t then shift_down h c else c
              | even_column_hex \<Rightarrow> if hex_is_in_even_column t then shift_down h c else c))"

section \<open>Copying a gate\<close>

definition gate_pos :: "ucoord_t \<Rightarrow> nat \<Rightarrow> nat \<Rightarrow> ucoord_t" where
  "gate_pos c x y = ucoord3 (ucast (ux c) + of_nat x) (ucast (uy c) + of_nat y) (ucast (uz c))"

definition assign_gate_cell ::
    "'m technology \<Rightarrow> string \<Rightarrow> ucoord_t \<Rightarrow> cell_type \<Rightarrow> 'm cell_level_layout \<Rightarrow> 'm cell_level_layout" where
  "assign_gate_cell T name pos ct l =
     (let l1 = (if \<not> tech_is_empty_cell T ct then assign_cell_type T pos ct l else l)
      in if tech_is_input_cell T ct \<or> tech_is_output_cell T ct then assign_cell_name pos name l1 else l1)"

definition assign_gate ::
    "'m technology \<Rightarrow> string \<Rightarrow> ucoord_t \<Rightarrow> fcn_gate \<Rightarrow> 'm cell_level_layout \<Rightarrow> 'm cell_level_layout" where
  "assign_gate T name c g l =
     fold (\<lambda>y. fold (\<lambda>x. assign_gate_cell T name (gate_pos c x y) (g ! y ! x)) [0..<length (g ! y)])
       [0..<length g] l"

section \<open>The algorithm\<close>

definition new_cell_layout ::
    "('m, 'tt, 'e) gate_library \<Rightarrow> topology \<Rightarrow> 'tt gate_level_layout \<Rightarrow> 'm cell_level_layout" where
  "new_cell_layout L topo gl =
     make_cell_level_layout topo
       (ucoord3 ((ucast (ux (lyt_dimension gl)) + 1) * ucast (lib_gate_x_size L) - 1)
                ((ucast (uy (lyt_dimension gl)) + 1) * ucast (lib_gate_y_size L) - 1) (ucast (uz (lyt_dimension gl))))
       (cl_clocking gl) [] (lib_gate_x_size L) (lib_gate_y_size L)"

fun apply_gates ::
    "('m, 'tt, 'e) gate_library \<Rightarrow> 'tt gate_level_layout \<Rightarrow> node list \<Rightarrow> 'm cell_level_layout \<Rightarrow>
     'e + 'm cell_level_layout" where
  "apply_gates L gl [] cl = Inr cl"
| "apply_gates L gl (n # ns) cl =
     (if \<not> is_constant n then
        (let t = get_tile gl n;
             c = gate_origin (lyt_topology gl) (lib_gate_x_size L) (lib_gate_y_size L) t
         in case lib_set_up_gate L gl t of
              Inl e \<Rightarrow> Inl e
            | Inr g \<Rightarrow> apply_gates L gl ns (assign_gate (lib_technology L) (get_name gl n) c g cl))
      else apply_gates L gl ns cl)"

definition apply_gate_library ::
    "('m, 'tt, 'e) gate_library \<Rightarrow> topology \<Rightarrow> 'tt gate_level_layout \<Rightarrow> ('e + 'm cell_level_layout) option" where
  "apply_gate_library L topo gl =
     (case apply_gates L gl (foreach_node gl) (new_cell_layout L topo gl) of
        Inl e \<Rightarrow> Some (Inl e)
      | Inr cl \<Rightarrow>
          Option.bind (lib_post_layout_optimization L cl) (\<lambda>cl'.
            Some (Inr (cell_set_layout_name (get_layout_name gl) cl'))))"

section \<open>The cells of a gate\<close>

text \<open>The cells that a gate covers do not wrap around.\<close>

definition gate_fits :: "nat \<Rightarrow> nat \<Rightarrow> ucoord_t \<Rightarrow> bool" where
  "gate_fits w h c \<longleftrightarrow> unat (ux c) + w \<le> 2 ^ 31 \<and> unat (uy c) + h \<le> 2 ^ 31"

lemma unat_add_31: "unat a + n < 2 ^ 31 \<Longrightarrow> unat (ucast (ucast (a :: 31 word) + of_nat n :: u64) :: 31 word) = unat a + n"
proof -
  assume n: "unat a + n < 2 ^ 31"
  then have "unat (ucast a + of_nat n :: u64) = unat a + n"
    by (simp add: unat_word_ariths unat_ucast_31 unat_of_nat)
  then show ?thesis
    using n by (simp add: unsigned_ucast_eq take_bit_nat_eq_self)
qed

lemma gate_pos_simps:
  assumes "gate_fits w h c" and "x < w" and "y < h"
  shows "unat (ux (gate_pos c x y)) = unat (ux c) + x" "unat (uy (gate_pos c x y)) = unat (uy c) + y"
    "uz (gate_pos c x y) = uz c" "\<not> ud (gate_pos c x y)"
  using assms unat_add_31 [of "ux c" x] unat_add_31 [of "uy c" y]
  by (simp_all add: gate_pos_def ucoord3_def gate_fits_def ucast_z)

lemma gate_pos_inject:
  assumes "gate_fits w h c" and "x < w" "y < h" "x' < w" "y' < h" and "gate_pos c x y = gate_pos c x' y'"
  shows "x = x' \<and> y = y'"
  using gate_pos_simps [OF assms(1-3)] gate_pos_simps [OF assms(1,4,5)] assms(6) by simp

text \<open>Updates at the distinct keys of the elements of a list.\<close>

lemma fold_updates_other:
  assumes "\<And>i l. i \<in> set xs \<Longrightarrow> get (step i l) p = get l p"
  shows "get (fold step xs l) p = get l p"
  using assms by (induction xs arbitrary: l) simp_all

lemma fold_updates:
  assumes "distinct (map k xs)" and "i \<in> set xs"
    and "\<And>i l p. i \<in> set xs \<Longrightarrow> get (step i l) p = (if p = k i \<and> P i then v i else get l p)"
  shows "get (fold step xs l) (k i) = (if P i then v i else get l (k i))"
  using assms
proof (induction xs arbitrary: l)
  case (Cons a xs)
  show ?case
  proof (cases "i = a")
    case True
    then have "get (fold step xs (step a l)) (k a) = get (step a l) (k a)"
      using Cons.prems by (intro fold_updates_other) auto
    then show ?thesis using True Cons.prems(3) [of a l "k a"] by simp
  next
    case False
    then have i: "i \<in> set xs" using Cons.prems(2) by simp
    then have "k i \<noteq> k a" using Cons.prems(1) imageI [of i "set xs" k] by (metis distinct.simps(2) list.simps(9) set_map)
    then show ?thesis using Cons.IH [of "step a l"] Cons.prems i by simp
  qed
qed simp

lemma fold_product:
  "fold (\<lambda>y. fold (\<lambda>x. f x y) xs) ys = fold (\<lambda>(y, x). f x y) (List.product ys xs)"
  by (induction ys) (simp_all add: fold_map comp_def)

context cell_technology
begin

lemma get_type_assign_gate_cell:
  "get_cell_type T (assign_gate_cell T name pos ct l) p =
     (if p = pos \<and> ct \<noteq> tech_EMPTY T then ct else get_cell_type T l p)"
  using input_not_empty [of ct] output_not_empty [of ct]
  by (simp add: assign_gate_cell_def Let_def get_assign_cell_type empty_cell)

lemma assign_gate_flat:
  assumes "is_gate_array w h g"
  shows "assign_gate T name c g l =
    fold (\<lambda>(y, x). assign_gate_cell T name (gate_pos c x y) (gate_at g y x)) (List.product [0..<h] [0..<w]) l"
proof -
  have "assign_gate T name c g l =
      fold (\<lambda>y. fold (\<lambda>x. assign_gate_cell T name (gate_pos c x y) (gate_at g y x)) [0..<w]) [0..<h] l"
    unfolding assign_gate_def gate_at_def
    using assms by (intro fold_cong) (simp_all add: is_gate_array_def gate_arrayD [OF assms])
  then show ?thesis by (simp only: fold_product)
qed

text \<open>The cells of a gate that is copied are those of the gate, except that its empty cells leave what
  was there.\<close>

lemma get_type_assign_gate:
  assumes "is_gate_array w h g" and "gate_fits w h c" and "x < w" and "y < h"
  shows "get_cell_type T (assign_gate T name c g l) (gate_pos c x y) =
      (if gate_at g y x = tech_EMPTY T then get_cell_type T l (gate_pos c x y) else gate_at g y x)"
proof -
  let ?xs = "List.product [0..<h] [0..<w]" and ?k = "\<lambda>(y, x). gate_pos c x y"
  have "distinct (map ?k ?xs)"
    unfolding distinct_map using gate_pos_inject [OF assms(2)] by (auto simp: inj_on_def distinct_product)
  then have "get_cell_type T (assign_gate T name c g l) (?k (y, x)) =
      (if (\<lambda>(y, x). gate_at g y x \<noteq> tech_EMPTY T) (y, x) then (\<lambda>(y, x). gate_at g y x) (y, x)
       else get_cell_type T l (?k (y, x)))"
    unfolding assign_gate_flat [OF assms(1)]
    by (rule fold_updates) (use assms(3,4) in \<open>auto simp: get_type_assign_gate_cell\<close>)
  then show ?thesis by simp
qed

lemma get_type_assign_gate_other:
  assumes "is_gate_array w h g" and "\<And>x y. x < w \<Longrightarrow> y < h \<Longrightarrow> p \<noteq> gate_pos c x y"
  shows "get_cell_type T (assign_gate T name c g l) p = get_cell_type T l p"
  unfolding assign_gate_flat [OF assms(1)]
  by (rule fold_updates_other) (use assms(2) in \<open>auto simp: get_type_assign_gate_cell\<close>)

end

section \<open>Cartesian layouts\<close>

lemma unat_ucast_16: "unat (ucast (b :: u16) :: u64) = unat b"
  using unsigned_less [of b, where ?'a = nat] by (simp add: unsigned_ucast_eq take_bit_nat_eq_self)

text \<open>In a Cartesian layout the gate of a tile covers the cells of the tile.\<close>

lemma gate_origin_Cartesian:
  assumes "unat (ux t) * unat w < 2 ^ 31" and "unat (uy t) * unat h < 2 ^ 31"
  shows "unat (ux (gate_origin Cartesian w h t)) = unat (ux t) * unat w"
    "unat (uy (gate_origin Cartesian w h t)) = unat (uy t) * unat h"
    "uz (gate_origin Cartesian w h t) = uz t" "\<not> ud (gate_origin Cartesian w h t)"
proof -
  have mult: "unat (ucast (ucast (a :: 31 word) * ucast (b :: u16) :: u64) :: 31 word) = unat a * unat b"
    if "unat a * unat b < 2 ^ 31" for a b
  proof -
    have "unat (ucast b :: u64) = unat b" by (rule unat_ucast_16)
    then have "unat (ucast a * ucast b :: u64) = unat a * unat b"
      using that by (simp add: unat_word_ariths unat_ucast_31)
    then show ?thesis
      using that by (simp add: unsigned_ucast_eq take_bit_nat_eq_self)
  qed
  show "unat (ux (gate_origin Cartesian w h t)) = unat (ux t) * unat w"
    "unat (uy (gate_origin Cartesian w h t)) = unat (uy t) * unat h"
    "uz (gate_origin Cartesian w h t) = uz t" "\<not> ud (gate_origin Cartesian w h t)"
    using mult assms by (simp_all add: gate_origin_def ucoord3_def ucast_z)
qed

text \<open>The tiles whose cells all have coordinates.\<close>

definition tile_fits :: "u16 \<Rightarrow> u16 \<Rightarrow> ucoord_t \<Rightarrow> bool" where
  "tile_fits w h t \<longleftrightarrow> \<not> ud t \<and> 0 < w \<and> 0 < h \<and>
     Suc (unat (ux t)) * unat w \<le> 2 ^ 31 \<and> Suc (unat (uy t)) * unat h \<le> 2 ^ 31"

lemma tile_fits_gate:
  assumes "tile_fits w h t"
  shows "gate_fits (unat w) (unat h) (gate_origin Cartesian w h t)"
    and "\<lbrakk>x < unat w; y < unat h\<rbrakk> \<Longrightarrow>
      unat (ux (gate_pos (gate_origin Cartesian w h t) x y)) = unat (ux t) * unat w + x \<and>
      unat (uy (gate_pos (gate_origin Cartesian w h t) x y)) = unat (uy t) * unat h + y \<and>
      uz (gate_pos (gate_origin Cartesian w h t) x y) = uz t \<and> \<not> ud (gate_pos (gate_origin Cartesian w h t) x y)"
proof -
  have "0 < unat w" "0 < unat h" using assms by (simp_all add: tile_fits_def unat_gt_0 word_neq_0_conv)
  then have "unat (ux t) * unat w < 2 ^ 31" "unat (uy t) * unat h < 2 ^ 31"
    using assms by (simp_all add: tile_fits_def)
  note o = gate_origin_Cartesian [OF this]
  show f: "gate_fits (unat w) (unat h) (gate_origin Cartesian w h t)"
    using assms by (simp add: gate_fits_def o tile_fits_def)
  assume "x < unat w" and "y < unat h"
  then show "unat (ux (gate_pos (gate_origin Cartesian w h t) x y)) = unat (ux t) * unat w + x \<and>
      unat (uy (gate_pos (gate_origin Cartesian w h t) x y)) = unat (uy t) * unat h + y \<and>
      uz (gate_pos (gate_origin Cartesian w h t) x y) = uz t \<and> \<not> ud (gate_pos (gate_origin Cartesian w h t) x y)"
    using gate_pos_simps [OF f] by (simp add: o)
qed

lemma tile_blocks_disjoint:
  assumes "tile_fits w h t" "tile_fits w h t'" and "x < unat w" "y < unat h" "x' < unat w" "y' < unat h"
    and "gate_pos (gate_origin Cartesian w h t) x y = gate_pos (gate_origin Cartesian w h t') x' y'"
  shows "t = t' \<and> x = x' \<and> y = y'"
proof -
  note p = tile_fits_gate(2) [OF assms(1,3,4)] tile_fits_gate(2) [OF assms(2,5,6)]
  have div: "a = a' \<and> b = b'" if "a * n + b = a' * n + b'" "b < n" "b' < n" for a b a' b' n :: nat
    using that by (metis div_mult_self3 div_less mod_mult_self3 mod_less add.right_neutral not_less_zero)
  have "unat (ux t) = unat (ux t') \<and> x = x'" "unat (uy t) = unat (uy t') \<and> y = y'" "uz t = uz t'"
    using p assms(3-7) div [of "unat (ux t)" "unat w" x "unat (ux t')" x']
      div [of "unat (uy t)" "unat h" y "unat (uy t')" y'] by simp_all
  then show ?thesis
    using assms(1,2) by (intro conjI ucoord_t.equality) (simp_all add: word_unat_eq_iff tile_fits_def)
qed

text \<open>The type that a library gives the cell \<open>(x, y)\<close> of a tile.\<close>

definition lib_cell :: "('m, 'tt, 'e) gate_library \<Rightarrow> 'tt gate_level_layout \<Rightarrow> ucoord_t \<Rightarrow> nat \<Rightarrow> nat \<Rightarrow> cell_type" where
  "lib_cell L gl t x y =
     (case lib_set_up_gate L gl t of Inr g \<Rightarrow> gate_at g y x | Inl _ \<Rightarrow> tech_EMPTY (lib_technology L))"

definition cell_at :: "u16 \<Rightarrow> u16 \<Rightarrow> ucoord_t \<Rightarrow> nat \<Rightarrow> nat \<Rightarrow> ucoord_t" where
  "cell_at w h t = gate_pos (gate_origin Cartesian w h t)"

text \<open>The tiles of the nodes in a list, constants left out.\<close>

definition tiles_of :: "'tt gate_level_layout \<Rightarrow> node list \<Rightarrow> ucoord_t set" where
  "tiles_of gl ns = get_tile gl ` {n \<in> set ns. \<not> is_constant n}"

lemma tiles_of_simps [simp]:
  "tiles_of gl [] = {}"
  "tiles_of gl (n # ns) = (if is_constant n then tiles_of gl ns else insert (get_tile gl n) (tiles_of gl ns))"
  by (auto simp: tiles_of_def)

definition cells_of_tiles ::
    "('m, 'tt, 'e) gate_library \<Rightarrow> 'tt gate_level_layout \<Rightarrow> ucoord_t set \<Rightarrow> (ucoord_t \<Rightarrow> cell_type) \<Rightarrow> bool" where
  "cells_of_tiles L gl S get \<longleftrightarrow>
     (\<forall>t x y. tile_fits (lib_gate_x_size L) (lib_gate_y_size L) t \<longrightarrow> x < unat (lib_gate_x_size L) \<longrightarrow> y < unat (lib_gate_y_size L) \<longrightarrow>
       get (cell_at (lib_gate_x_size L) (lib_gate_y_size L) t x y) = (if t \<in> S then lib_cell L gl t x y else tech_EMPTY (lib_technology L)))"

lemma apply_gates_fails:
  "isl (apply_gates L gl ns cl) \<longleftrightarrow> (\<exists>t\<in>tiles_of gl ns. isl (lib_set_up_gate L gl t))"
  by (induction ns arbitrary: cl) (auto simp: Let_def split: sum.splits)

lemma apply_gates_error:
  "apply_gates L gl ns cl = Inl e \<Longrightarrow> \<exists>t\<in>tiles_of gl ns. lib_set_up_gate L gl t = Inl e"
  by (induction ns arbitrary: cl) (auto simp: Let_def split: if_splits sum.splits)

context cell_technology
begin

lemma apply_gates_cells:
  assumes "lib_technology L = T" and "lyt_topology gl = Cartesian"
    and arr: "\<And>t g. lib_set_up_gate L gl t = Inr g \<Longrightarrow>
      is_gate_array (unat (lib_gate_x_size L)) (unat (lib_gate_y_size L)) g"
    and "\<forall>t\<in>tiles_of gl ns. tile_fits (lib_gate_x_size L) (lib_gate_y_size L) t"
    and "cells_of_tiles L gl S (get_cell_type T cl)" and "apply_gates L gl ns cl = Inr cl'"
  shows "cells_of_tiles L gl (S \<union> tiles_of gl ns) (get_cell_type T cl')"
  using assms(4-6)
proof (induction ns arbitrary: S cl)
  case (Cons n ns)
  show ?case
  proof (cases "is_constant n")
    case True
    then show ?thesis using Cons by simp
  next
    case False
    define t where "t = get_tile gl n"
    define c where "c = gate_origin Cartesian (lib_gate_x_size L) (lib_gate_y_size L) t"
    from False Cons.prems(3) assms(1,2) obtain g where g: "lib_set_up_gate L gl t = Inr g"
      and rest: "apply_gates L gl ns (assign_gate T (get_name gl n) c g cl) = Inr cl'"
      by (auto simp: t_def c_def Let_def split: sum.splits)
    have t: "tile_fits (lib_gate_x_size L) (lib_gate_y_size L) t" using Cons.prems(1) False by (simp add: t_def)
    have "cells_of_tiles L gl (insert t S) (get_cell_type T (assign_gate T (get_name gl n) c g cl))"
      unfolding cells_of_tiles_def
    proof (intro allI impI)
      fix t' x y
      assume a: "tile_fits (lib_gate_x_size L) (lib_gate_y_size L) t'" "x < unat (lib_gate_x_size L)" "y < unat (lib_gate_y_size L)"
      have old: "get_cell_type T cl (cell_at (lib_gate_x_size L) (lib_gate_y_size L) t' x y) = (if t' \<in> S then lib_cell L gl t' x y else tech_EMPTY T)"
        using Cons.prems(2) a assms(1) by (simp add: cells_of_tiles_def)
      show "get_cell_type T (assign_gate T (get_name gl n) c g cl) (cell_at (lib_gate_x_size L) (lib_gate_y_size L) t' x y) =
          (if t' \<in> insert t S then lib_cell L gl t' x y else tech_EMPTY (lib_technology L))"
      proof (cases "t' = t")
        case True
        then show ?thesis
          using get_type_assign_gate [OF arr [OF g] _ a(2,3)] tile_fits_gate(1) t old g assms(1)
          by (simp add: cell_at_def c_def lib_cell_def)
      next
        case False
        then have "cell_at (lib_gate_x_size L) (lib_gate_y_size L) t' x y \<noteq> gate_pos c x' y'"
          if "x' < unat (lib_gate_x_size L)" "y' < unat (lib_gate_y_size L)" for x' y'
          using tile_blocks_disjoint [OF _ _ a(2,3) that] a(1) t by (auto simp: cell_at_def c_def)
        then show ?thesis
          using get_type_assign_gate_other [OF arr [OF g]] old False assms(1) by simp
      qed
    qed
    from Cons.IH [OF _ this rest] Cons.prems(1) False show ?thesis by (simp add: t_def)
  qed
qed simp

lemma new_cell_layout_type [simp]: "get_cell_type T (new_cell_layout L topo gl) p = tech_EMPTY T"
  by (simp add: new_cell_layout_def make_cell_level_layout_def get_cell_type_def)

lemma library_cells:
  assumes "lib_technology L = T" and "lyt_topology gl = Cartesian"
    and "\<And>t g. lib_set_up_gate L gl t = Inr g \<Longrightarrow>
      is_gate_array (unat (lib_gate_x_size L)) (unat (lib_gate_y_size L)) g"
    and "\<forall>t\<in>tiles_of gl ns. tile_fits (lib_gate_x_size L) (lib_gate_y_size L) t" and "apply_gates L gl ns (new_cell_layout L topo gl) = Inr cl"
  shows "cells_of_tiles L gl (tiles_of gl ns) (get_cell_type T cl)"
  using apply_gates_cells [OF assms(1-4) _ assms(5), where S = "{}"] assms(1)
  by (simp add: cells_of_tiles_def)

text \<open>On every topology, a cell that a gate covers with a type of its own is not empty at the end.\<close>

lemma assign_gate_nonempty:
  assumes "get_cell_type T l p \<noteq> tech_EMPTY T"
  shows "get_cell_type T (assign_gate T name c g l) p \<noteq> tech_EMPTY T"
  unfolding assign_gate_def
  by (rule fold_invariant [where P = "\<lambda>l. get_cell_type T l p \<noteq> tech_EMPTY T" and Q = "\<lambda>_. True"];
      (intro fold_invariant [where P = "\<lambda>l. get_cell_type T l p \<noteq> tech_EMPTY T" and Q = "\<lambda>_. True"])?)
    (simp_all add: assms get_type_assign_gate_cell)

lemma apply_gates_nonempty:
  "apply_gates L gl ns cl = Inr cl' \<Longrightarrow> lib_technology L = T \<Longrightarrow> get_cell_type T cl p \<noteq> tech_EMPTY T \<Longrightarrow>
   get_cell_type T cl' p \<noteq> tech_EMPTY T"
  by (induction ns arbitrary: cl) (auto simp: Let_def assign_gate_nonempty split: if_splits sum.splits)

lemma library_cells_nonempty:
  assumes "lib_technology L = T" and "apply_gates L gl ns cl = Inr cl'" and "t \<in> tiles_of gl ns"
    and "lib_set_up_gate L gl t = Inr g" and "is_gate_array w h g"
    and "gate_fits w h (gate_origin (lyt_topology gl) (lib_gate_x_size L) (lib_gate_y_size L) t)"
    and "x < w" and "y < h" and "gate_at g y x \<noteq> tech_EMPTY T"
  shows "get_cell_type T cl' (gate_pos (gate_origin (lyt_topology gl) (lib_gate_x_size L) (lib_gate_y_size L) t) x y) \<noteq>
    tech_EMPTY T"
  using assms(2,3)
proof (induction ns arbitrary: cl)
  case (Cons n ns)
  show ?case
  proof (cases "\<not> is_constant n \<and> get_tile gl n = t")
    case True
    with Cons.prems(1) assms(1,4) show ?thesis
      using apply_gates_nonempty [OF _ assms(1)] get_type_assign_gate [OF assms(5-8)] assms(9)
      by (auto simp: Let_def)
  next
    case False
    with Cons show ?thesis by (auto simp: Let_def split: if_splits sum.splits)
  qed
qed simp

end

section \<open>Shifted rows\<close>

text \<open>The rows that are shifted to the right leave the cell-level layout by half a gate.\<close>

lemma shifted_row_origin:
  assumes "(arr = odd_row_hex \<and> hex_is_in_odd_row t) \<or> (arr = even_row_hex \<and> hex_is_in_even_row t)"
    and "Suc (unat (ux t)) * unat w + unat w div 2 < 2 ^ 31"
  shows "unat (ux (gate_origin (Hexagonal arr) w h t)) = unat (ux t) * unat w + unat w div 2"
proof -
  have half: "unat (ucast (w div 2) :: 31 word) = unat w div 2"
    using unsigned_less [of w, where ?'a = nat]
    by (simp add: unsigned_ucast_eq take_bit_nat_eq_self unat_div)
  have "unat (ux (gate_origin Cartesian w h t)) = unat (ux t) * unat w"
    if "unat (uy t) * unat h < 2 ^ 31" for h
    using gate_origin_Cartesian(1) [OF _ that] assms(2) by simp
  from this [of 0] have "unat (ucast (ucast (ux t) * ucast w :: u64) :: 31 word) = unat (ux t) * unat w"
    by (simp add: gate_origin_def ucoord3_def)
  then have "unat (ucast (ucast (ux t) * ucast w :: u64) + ucast (w div 2) :: 31 word) = unat (ux t) * unat w + unat w div 2"
    using assms(2) half by (simp add: unat_word_ariths)
  then show ?thesis
    using assms(1) by (auto simp: gate_origin_def shift_right_def ucoord3_def)
qed

lemma cells_along:
  assumes "0 < w" and "Suc (unat a) * unat w \<le> 2 ^ 31"
  shows "Suc (unat (ucast ((ucast (a :: 31 word) + 1) * ucast (w :: u16) - 1 :: u64) :: 31 word)) = Suc (unat a) * unat w"
proof -
  have w: "0 < unat w" using assms(1) by (simp add: unat_gt_0 word_neq_0_conv)
  have m: "unat ((ucast a + 1) * ucast w :: u64) = Suc (unat a) * unat w"
    using assms(2) unat_31_less [of a] by (simp add: unat_word_ariths unat_ucast_31 unat_ucast_16)
  then have "(1 :: u64) \<le> (ucast a + 1) * ucast w"
    using w by (simp add: word_le_nat_alt)
  then have "unat ((ucast a + 1) * ucast w - 1 :: u64) = Suc (unat a) * unat w - 1"
    using m by (simp only: unat_sub unat_1)
  then show ?thesis
    using assms(2) w by (simp add: unsigned_ucast_eq take_bit_nat_eq_self)
qed

lemma new_cell_layout_dimension:
  assumes "0 < lib_gate_x_size L" and "Suc (unat (ux (lyt_dimension gl))) * unat (lib_gate_x_size L) \<le> 2 ^ 31"
    and "0 < lib_gate_y_size L" and "Suc (unat (uy (lyt_dimension gl))) * unat (lib_gate_y_size L) \<le> 2 ^ 31"
  shows "Suc (unat (ux (lyt_dimension (new_cell_layout L topo gl)))) = Suc (unat (ux (lyt_dimension gl))) * unat (lib_gate_x_size L)"
    "Suc (unat (uy (lyt_dimension (new_cell_layout L topo gl)))) = Suc (unat (uy (lyt_dimension gl))) * unat (lib_gate_y_size L)"
    "uz (lyt_dimension (new_cell_layout L topo gl)) = uz (lyt_dimension gl)"
    "\<not> ud (lyt_dimension (new_cell_layout L topo gl))" "lyt_topology (new_cell_layout L topo gl) = topo"
  using cells_along [OF assms(1,2)] cells_along [OF assms(3,4)]
  by (simp_all add: new_cell_layout_def make_cell_level_layout_def ucoord3_def ucast_z)

lemma assign_gate_dimension [simp]: "lyt_dimension (assign_gate T name c g l) = lyt_dimension l" "lyt_topology (assign_gate T name c g l) = lyt_topology l"
proof -
  have "lyt_dimension (assign_gate_cell T name p ct l) = lyt_dimension l"
    "lyt_topology (assign_gate_cell T name p ct l) = lyt_topology l" for p ct l
    by (simp_all add: assign_gate_cell_def assign_cell_type_def assign_cell_name_def Let_def)
  then have "lyt_dimension (assign_gate T name c g l) = lyt_dimension l \<and> lyt_topology (assign_gate T name c g l) = lyt_topology l"
    unfolding assign_gate_def
    by (intro fold_invariant [where P = "\<lambda>l'. lyt_dimension l' = lyt_dimension l \<and> lyt_topology l' = lyt_topology l" and Q = "\<lambda>_. True"]) simp_all
  then show "lyt_dimension (assign_gate T name c g l) = lyt_dimension l" "lyt_topology (assign_gate T name c g l) = lyt_topology l"
    by simp_all
qed

lemma apply_gates_dimension:
  "apply_gates L gl ns cl = Inr cl' \<Longrightarrow> lyt_dimension cl' = lyt_dimension cl \<and> lyt_topology cl' = lyt_topology cl"
  by (induction ns arbitrary: cl) (auto simp: Let_def split: if_splits sum.splits)

end
