(* ===== verification/QCA_One_Layout.thy ===== *)
theory QCA_One_Layout
  imports QCA_One_Library Apply_Gate_Library
begin

text \<open>
  \<open>post_layout_optimization\<close> of \<open>technology/qca_one_library.hpp\<close>, which turns the ends of wires in the
  crossing layer into vias, and the library as an instance of \<open>gate_library\<close>.

  The lemmas show which cells the optimization changes and, with those on the copying of gates,
  which types the cells of a layout have after the library was applied.
\<close>

section \<open>Vias\<close>

definition qca_make_via ::
    "ucoord_t \<Rightarrow> qca_cell_mode cell_level_layout \<Rightarrow> qca_cell_mode cell_level_layout" where
  "qca_make_via c l =
     (if lyt_is_crossing_layer l c then
        if \<not> cell_is_empty_cell qca_technology l c then
          (let adjacent_cells =
                 filter (\<lambda>ac. \<not> cell_is_empty_cell qca_technology l ac) (lyt_adjacent_coordinates vec_insert l c)
           in if length adjacent_cells \<le> 1 then
                (let l1 = assign_cell_mode qca_technology c MODE_VERTICAL l;
                     ground_via_cell = ucoord3 (ucast (ux c)) (ucast (uy c)) 0;
                     l2 = assign_cell_type qca_technology ground_via_cell QCA_NORMAL l1
                 in assign_cell_mode qca_technology ground_via_cell MODE_VERTICAL l2)
              else l)
        else l
      else l)"

definition qca_post_layout_optimization ::
    "qca_cell_mode cell_level_layout \<Rightarrow> qca_cell_mode cell_level_layout option" where
  "qca_post_layout_optimization l = map_option (\<lambda>cs. fold qca_make_via cs l) (foreach_cell_position l)"

definition qca_one_library :: "(qca_cell_mode, 'tt, port_position gate_error) gate_library" where
  "qca_one_library =
     \<lparr>lib_technology = qca_technology, lib_gate_x_size = 5, lib_gate_y_size = 5,
      lib_set_up_gate = qca_set_up_gate, lib_post_layout_optimization = qca_post_layout_optimization\<rparr>"

text \<open>A cell becomes a via if it is a cell of the crossing layer with at most one neighbour.\<close>

definition qca_is_via :: "qca_cell_mode cell_level_layout \<Rightarrow> ucoord_t \<Rightarrow> bool" where
  "qca_is_via l c \<longleftrightarrow> lyt_in_grid l c \<and> uz c \<noteq> 0 \<and> get_cell_type qca_technology l c \<noteq> QCA_EMPTY \<and>
     card {d. lyt_in_grid l d \<and> lyt_neighbour l c d \<and> get_cell_type qca_technology l d \<noteq> QCA_EMPTY} \<le> 1"

definition below_cell :: "ucoord_t \<Rightarrow> ucoord_t" where
  "below_cell c = c\<lparr>uz := 0\<rparr>"

text \<open>What the optimization relies on while it runs: the dimensions and the crossing layer stay.\<close>

definition same_crossings :: "qca_cell_mode cell_level_layout \<Rightarrow> qca_cell_mode cell_level_layout \<Rightarrow> bool" where
  "same_crossings l l' \<longleftrightarrow> lyt_topology l' = lyt_topology l \<and> lyt_dimension l' = lyt_dimension l \<and>
     (\<forall>c. uz c \<noteq> 0 \<longrightarrow> get_cell_type qca_technology l' c = get_cell_type qca_technology l c)"

lemma crossing_layer_iff [simp]: "lyt_is_crossing_layer l c \<longleftrightarrow> uz c \<noteq> 0"
  by (simp add: lyt_is_crossing_layer_def cart_is_crossing_layer_def hex_is_crossing_layer_def word_neq_0_conv
      split: option.split)

lemma ground_via_cell: "\<not> ud c \<Longrightarrow> ucoord3 (ucast (ux c)) (ucast (uy c)) 0 = below_cell c"
  by (simp add: ucoord3_def below_cell_def ucast_31)

lemma same_crossings_refl [simp]: "same_crossings l l"
  by (simp add: same_crossings_def)

lemma same_crossings_base:
  assumes "same_crossings l l'"
  shows "lyt_in_grid l' = lyt_in_grid l" "lyt_neighbour l' = lyt_neighbour l"
    "lyt_adjacent_coordinates ins l' = lyt_adjacent_coordinates ins l"
  using assms
  by (auto simp: same_crossings_def lyt_in_grid_def lyt_neighbour_def lyt_adjacent_coordinates_def fun_eq_iff
      split: option.split)

lemma cart_adjacent_distinct:
  assumes "in_grid l c"
  shows "distinct (cart_adjacent_coordinates vec_insert l c)"
proof -
  have "w - 1 \<noteq> w + 1" for w :: "31 word"
  proof
    assume "w - 1 = w + 1"
    then have "(2 :: 31 word) = 0" by (simp add: diff_eq_eq add.assoc)
    then show False by simp
  qed
  then show ?thesis
    using assms
    by (cases c)
      (auto simp: cart_adjacent_coordinates_def Let_def vec_insert_def cart_north_def cart_east_def cart_south_def
        cart_west_def in_grid_def)
qed

lemma length_nonempty_neighbours:
  assumes "lyt_enumerable l" and "lyt_in_grid l c" and "lyt_topology l = Cartesian"
  shows "length (filter P (lyt_adjacent_coordinates vec_insert l c)) =
    card {d. lyt_in_grid l d \<and> lyt_neighbour l c d \<and> P d}"
proof -
  have "distinct (lyt_adjacent_coordinates vec_insert l c)"
    using assms(2,3) by (simp add: lyt_adjacent_coordinates_def cart_adjacent_distinct lyt_in_grid_def)
  then have "distinct (filter P (lyt_adjacent_coordinates vec_insert l c))" by simp
  moreover have "set (filter P (lyt_adjacent_coordinates vec_insert l c)) = {d. lyt_in_grid l d \<and> lyt_neighbour l c d \<and> P d}"
    using lyt_adjacent_vec [OF assms(1,2)] by auto
  ultimately show ?thesis by (metis distinct_card)
qed

lemma get_type_make_via:
  assumes "lyt_enumerable l" and "lyt_in_grid l c" and "lyt_topology l = Cartesian"
  shows "get_cell_type qca_technology (qca_make_via c l) p =
      (if qca_is_via l c \<and> p = below_cell c then QCA_NORMAL else get_cell_type qca_technology l p)"
    and "get_cell_mode qca_technology (qca_make_via c l) p =
      (if qca_is_via l c \<and> (p = c \<or> p = below_cell c) then MODE_VERTICAL else get_cell_mode qca_technology l p)"
proof -
  have "\<not> ud c" using assms(2) by (simp add: lyt_in_grid_def in_grid_def)
  note g = ground_via_cell [OF this]
  have e: "tech_is_empty_cell qca_technology = (\<lambda>t. t = QCA_EMPTY)"
    by (simp add: qca_cell_defs fun_eq_iff)
  have E: "tech_EMPTY qca_technology = QCA_EMPTY" "QCA_NORMAL \<noteq> QCA_EMPTY" by (simp_all add: qca_cell_defs)
  have via: "qca_is_via l c \<longleftrightarrow> uz c \<noteq> 0 \<and> \<not> cell_is_empty_cell qca_technology l c \<and>
      length (filter (\<lambda>ac. \<not> cell_is_empty_cell qca_technology l ac) (lyt_adjacent_coordinates vec_insert l c)) \<le> 1"
    using assms(2) by (simp add: qca_is_via_def length_nonempty_neighbours [OF assms] cell_is_empty_cell_def e)
  show "get_cell_type qca_technology (qca_make_via c l) p =
      (if qca_is_via l c \<and> p = below_cell c then QCA_NORMAL else get_cell_type qca_technology l p)"
    by (auto simp: qca_make_via_def via Let_def g qca.get_assign_cell_type)
  show "get_cell_mode qca_technology (qca_make_via c l) p =
      (if qca_is_via l c \<and> (p = c \<or> p = below_cell c) then MODE_VERTICAL else get_cell_mode qca_technology l p)"
    by (auto simp: qca_make_via_def via Let_def g qca.get_cell_mode_assign_type get_assign_cell_mode [OF qca.cell_technology_axioms] E)
qed

lemma make_via_base [simp]:
  "lyt_topology (qca_make_via c l) = lyt_topology l" "lyt_dimension (qca_make_via c l) = lyt_dimension l"
  by (simp_all add: qca_make_via_def Let_def assign_cell_type_def assign_cell_mode_def)

lemma same_crossings_via: "same_crossings l l' \<Longrightarrow> qca_is_via l' c = qca_is_via l c"
proof -
  assume s: "same_crossings l l'"
  have "{d. lyt_in_grid l d \<and> lyt_neighbour l c d \<and> get_cell_type qca_technology l' d \<noteq> QCA_EMPTY} =
      {d. lyt_in_grid l d \<and> lyt_neighbour l c d \<and> get_cell_type qca_technology l d \<noteq> QCA_EMPTY}" if "uz c \<noteq> 0"
    using s that by (auto simp: same_crossings_def lyt_neighbour_def)
  then show ?thesis
    using s by (auto simp: qca_is_via_def same_crossings_base [OF s] same_crossings_def)
qed

lemma fold_make_via:
  assumes "lyt_enumerable l" and "lyt_topology l = Cartesian" and "\<forall>c\<in>set cs. lyt_in_grid l c" and "same_crossings l l'"
  shows "same_crossings l (fold qca_make_via cs l') \<and>
    (\<forall>p. get_cell_type qca_technology (fold qca_make_via cs l') p =
       (if \<exists>c\<in>set cs. qca_is_via l c \<and> p = below_cell c then QCA_NORMAL else get_cell_type qca_technology l' p)) \<and>
    (\<forall>p. get_cell_mode qca_technology (fold qca_make_via cs l') p =
       (if \<exists>c\<in>set cs. qca_is_via l c \<and> (p = c \<or> p = below_cell c) then MODE_VERTICAL
        else get_cell_mode qca_technology l' p))"
  using assms(3,4)
proof (induction cs arbitrary: l')
  case (Cons c cs)
  have l': "lyt_enumerable l'" "lyt_topology l' = Cartesian" "lyt_in_grid l' c"
    using assms(1,2) Cons.prems by (auto simp: same_crossings_def lyt_enumerable_def lyt_in_grid_def)
  note step = get_type_make_via [OF l'(1,3,2)] same_crossings_via [OF Cons.prems(2)]
  have "same_crossings l (qca_make_via c l')"
    using Cons.prems(2) by (auto simp: same_crossings_def step below_cell_def)
  from Cons.IH [OF _ this] Cons.prems(1) show ?case by (simp add: step) blast
qed simp

lemma qca_optimization:
  assumes "lyt_enumerable l" and "lyt_topology l = Cartesian"
  shows "\<exists>l'. qca_post_layout_optimization l = Some l' \<and> same_crossings l l' \<and>
    (\<forall>p. get_cell_type qca_technology l' p =
       (if \<exists>c. qca_is_via l c \<and> p = below_cell c then QCA_NORMAL else get_cell_type qca_technology l p)) \<and>
    (\<forall>p. get_cell_mode qca_technology l' p =
       (if \<exists>c. qca_is_via l c \<and> (p = c \<or> p = below_cell c) then MODE_VERTICAL else get_cell_mode qca_technology l p))"
proof -
  obtain cs where cs: "foreach_cell_position l = Some cs" "set cs = {c. lyt_in_grid l c}"
    using lyt_coordinates_all [OF assms(1), of ucoord_default ucoord_default]
    by (auto simp: foreach_cell_position_def ucoord_default_def)
  have "\<And>c. qca_is_via l c \<Longrightarrow> c \<in> set cs" by (simp add: cs(2) qca_is_via_def)
  then have *: "(\<exists>c\<in>set cs. qca_is_via l c \<and> P c) \<longleftrightarrow> (\<exists>c. qca_is_via l c \<and> P c)" for P by blast
  show ?thesis
    using fold_make_via [OF assms, of cs l] unfolding *
    by (simp add: qca_post_layout_optimization_def cs)
qed

section \<open>Properties\<close>

lemma qca_lib_simps [simp]:
  "lib_technology qca_one_library = qca_technology" "lib_gate_x_size qca_one_library = 5"
  "lib_gate_y_size qca_one_library = 5" "lib_set_up_gate qca_one_library = qca_set_up_gate"
  "lib_post_layout_optimization qca_one_library = qca_post_layout_optimization"
  by (simp_all add: qca_one_library_def)

lemma set_up_gate_array: "qca_set_up_gate gl t = Inr g \<Longrightarrow> is_gate_array 5 5 g"
  using set_up_gate_fits [of gl t g] by (simp add: qca_gate_def)

text \<open>C39. Applying QCA ONE to a Cartesian layout whose nodes lie on it always returns: with the error of a
  tile that has no gate, if there is one, and otherwise with a cell layout in which each tile's block
  of 5 x 5 cells holds exactly the gate of the tile, and nothing where there is no node, except for
  the normal cells below the vias, which are the cells of the crossing layer with at most one
  neighbour.\<close>

theorem qca_layout_cells:
  assumes "lyt_topology gl = Cartesian" and "\<forall>t\<in>tiles_of gl (foreach_node gl). lyt_in_grid gl t"
    and "Suc (unat (ux (lyt_dimension gl))) * 5 < 2 ^ 31" and "Suc (unat (uy (lyt_dimension gl))) * 5 < 2 ^ 31"
  shows "if \<exists>t\<in>tiles_of gl (foreach_node gl). isl (qca_set_up_gate gl t)
    then \<exists>t\<in>tiles_of gl (foreach_node gl). \<exists>e. qca_set_up_gate gl t = Inl e \<and>
      apply_gate_library qca_one_library Cartesian gl = Some (Inl e)
    else \<exists>l. apply_gate_library qca_one_library Cartesian gl = Some (Inr l) \<and>
      (\<forall>t x y. lyt_in_grid gl t \<longrightarrow> x < 5 \<longrightarrow> y < 5 \<longrightarrow>
        get_cell_type qca_technology l (cell_at 5 5 t x y) =
          (if \<exists>c. qca_is_via l c \<and> cell_at 5 5 t x y = below_cell c then QCA_NORMAL
           else if t \<in> tiles_of gl (foreach_node gl) then lib_cell qca_one_library gl t x y else QCA_EMPTY))"
proof -
  let ?ns = "foreach_node gl" and ?L = qca_one_library
  let ?new = "new_cell_layout qca_one_library Cartesian gl"
  have fits: "tile_fits 5 5 t" if "lyt_in_grid gl t" for t
    using that assms(3,4)
    by (auto simp: tile_fits_def lyt_in_grid_def in_grid_def word_le_nat_alt)
  show ?thesis
  proof (cases "apply_gates ?L gl ?ns ?new")
    case (Inl e)
    then obtain t where "t \<in> tiles_of gl ?ns" "qca_set_up_gate gl t = Inl e"
      using apply_gates_error by fastforce
    then show ?thesis
      using Inl by (auto simp: apply_gate_library_def intro!: bexI [of _ t])
  next
    case (Inr cl)
    then have ok: "\<not> (\<exists>t\<in>tiles_of gl ?ns. isl (qca_set_up_gate gl t))"
      using apply_gates_fails [of ?L gl ?ns ?new] by simp
    have cells: "cells_of_tiles ?L gl (tiles_of gl ?ns) (get_cell_type qca_technology cl)"
      by (rule qca.library_cells) (use assms(1,2) fits Inr in \<open>auto dest: set_up_gate_array\<close>)
    have dim: "lyt_topology cl = Cartesian" "lyt_enumerable cl"
      using apply_gates_dimension [OF Inr] new_cell_layout_dimension [of ?L gl Cartesian] assms(3,4)
      by (simp_all add: lyt_enumerable_def enumerable_def)
    obtain l' where l': "qca_post_layout_optimization cl = Some l'" "same_crossings cl l'"
      and t': "\<And>p. get_cell_type qca_technology l' p =
        (if \<exists>c. qca_is_via cl c \<and> p = below_cell c then QCA_NORMAL else get_cell_type qca_technology cl p)"
      using qca_optimization [OF dim(2,1)] by blast
    define l where "l = cell_set_layout_name (get_layout_name gl) l'"
    have l: "get_cell_type qca_technology l = get_cell_type qca_technology l'" "same_crossings l' l"
      by (simp_all add: l_def same_crossings_def cell_set_layout_name_def get_cell_type_def fun_eq_iff)
    have via: "qca_is_via l c = qca_is_via cl c" for c
      using same_crossings_via [OF l(2)] same_crossings_via [OF l'(2)] by simp
    have "apply_gate_library ?L Cartesian gl = Some (Inr l)"
      using Inr l'(1) by (simp add: apply_gate_library_def l_def)
    moreover have "get_cell_type qca_technology l (cell_at 5 5 t x y) =
        (if \<exists>c. qca_is_via l c \<and> cell_at 5 5 t x y = below_cell c then QCA_NORMAL
         else if t \<in> tiles_of gl ?ns then lib_cell ?L gl t x y else QCA_EMPTY)"
      if "lyt_in_grid gl t" "x < 5" "y < 5" for t x y
      using cells that fits [OF that(1)] by (auto simp: cells_of_tiles_def via l(1) t')
    ultimately show ?thesis using ok by simp
  qed
qed

lemma maj_tiles: "tiles_of maj_layout (foreach_node maj_layout) = {ucoord3 1 1 0}"
proof -
  have "map (get_tile maj_layout) (filter (\<lambda>n. \<not> is_constant n) (foreach_node maj_layout)) = [ucoord3 1 1 0]"
    by code_simp
  then have "set (map (get_tile maj_layout) (filter (\<lambda>n. \<not> is_constant n) (foreach_node maj_layout))) = {ucoord3 1 1 0}"
    by (simp only: list.set)
  then show ?thesis by (simp add: tiles_of_def)
qed

lemma qca_layout_cells_witness:
  "\<exists>l. apply_gate_library qca_one_library Cartesian maj_layout = Some (Inr l) \<and>
     get_cell_type qca_technology l (ucoord3 7 7 0) = QCA_NORMAL \<and>
     get_cell_type qca_technology l (ucoord3 2 2 1) = QCA_EMPTY"
proof -
  have dim: "lyt_topology maj_layout = Cartesian" "lyt_dimension maj_layout = ucoord3 3 3 1" by code_simp+
  then have grid: "lyt_in_grid maj_layout (ucoord3 1 1 0)" "lyt_in_grid maj_layout (ucoord3 0 0 1)"
    by (simp_all add: lyt_in_grid_def in_grid_def ucoord3_def)
  have at: "cell_at 5 5 (ucoord3 1 1 0) 2 2 = ucoord3 7 7 0"
    "cell_at 5 5 (ucoord3 0 0 1) 2 2 = ucoord3 2 2 1"
    by (simp_all add: cell_at_def gate_pos_def gate_origin_def ucoord3_def)
  have above: "ucoord3 2 2 1 \<noteq> below_cell c" for c
    by (cases c) (simp add: below_cell_def ucoord3_def)
  have centre: "gate_at qca_MAJORITY 2 2 = QCA_NORMAL" by code_simp
  obtain l where "apply_gate_library qca_one_library Cartesian maj_layout = Some (Inr l)"
    and l: "\<And>t x y. lyt_in_grid maj_layout t \<Longrightarrow> x < 5 \<Longrightarrow> y < 5 \<Longrightarrow>
      get_cell_type qca_technology l (cell_at 5 5 t x y) =
        (if \<exists>c. qca_is_via l c \<and> cell_at 5 5 t x y = below_cell c then QCA_NORMAL
         else if t \<in> {ucoord3 1 1 0} then lib_cell qca_one_library maj_layout t x y else QCA_EMPTY)"
  proof -
    have "\<forall>t\<in>{ucoord3 1 1 0}. lyt_in_grid maj_layout t" using grid(1) by simp
    moreover have "Suc (unat (ux (lyt_dimension maj_layout))) * 5 < 2 ^ 31"
      "Suc (unat (uy (lyt_dimension maj_layout))) * 5 < 2 ^ 31" by (simp_all add: dim(2) ucoord3_def)
    ultimately show ?thesis
      using that qca_layout_cells [OF dim(1), unfolded maj_tiles] by (simp add: maj_layout_set_up) blast
  qed
  moreover have "get_cell_type qca_technology l (ucoord3 7 7 0) = QCA_NORMAL"
    using l [OF grid(1), of 2 2] by (simp add: at lib_cell_def maj_layout_set_up centre)
  moreover have "get_cell_type qca_technology l (ucoord3 2 2 1) = QCA_EMPTY"
    using l [OF grid(2), of 2 2] by (simp add: at above) (simp add: ucoord3_def)
  ultimately show ?thesis by blast
qed

end
