(* ===== verification/Bestagon_Tables.thy ===== *)
theory Bestagon_Tables
  imports Gate_Library
begin

text \<open>
  The gates and tables of \<open>technology/sidb_bestagon_library.hpp\<close>: tiles of 60 x 46 positions, in which
  few hold a dangling bond. \<open>r60\<close> is a row without any.
\<close>

definition r60 :: string where
  "r60 = ''                                                            ''"

definition direction_ports :: "port_direction list \<Rightarrow> port_direction list \<Rightarrow> port_direction port_list" where
  "direction_ports inp out = make_port_list port_direction_less inp out"

definition sidb_EMPTY_GATE :: fcn_gate where
  "sidb_EMPTY_GATE = EMPTY_GATE sidb_technology 60 46"

section \<open>Gates\<close>

definition sidb_STRAIGHT_WIRE :: fcn_gate where
  "sidb_STRAIGHT_WIRE = cell_list_to_gate
    [r60, r60, r60, r60, r60, r60,
     ''                x               x                           '',
     r60,
     ''                  x                                         '',
     r60,
     ''                      x                                     '',
     r60,
     ''                        x                                   '',
     r60, r60, r60, r60,
     ''                         x                                  '',
     r60, r60,
     ''                         x                                  '',
     r60, r60, r60, r60,
     ''                         x                                  '',
     r60, r60,
     ''                         x                                  '',
     r60, r60, r60,
     ''                        x                                   '',
     r60,
     ''                      x                                     '',
     r60,
     ''                  x                                         '',
     r60,
     ''                x                                           '',
     r60, r60, r60, r60, r60, r60, r60]"

definition sidb_MIRRORED_STRAIGHT_WIRE :: fcn_gate where
  "sidb_MIRRORED_STRAIGHT_WIRE = cell_list_to_gate
    [r60, r60, r60, r60, r60, r60, r60,
     ''                          x               x                 '',
     r60,
     ''                                        x                   '',
     r60,
     ''                                    x                       '',
     r60,
     ''                                  x                         '',
     r60, r60, r60,
     ''                                 x                          '',
     r60, r60,
     ''                                 x                          '',
     r60, r60, r60, r60,
     ''                                 x                          '',
     r60, r60,
     ''                                 x                          '',
     r60, r60, r60, r60,
     ''                                  x                         '',
     r60,
     ''                                    x                       '',
     r60,
     ''                                        x                   '',
     r60,
     ''                                          x                 '',
     r60, r60, r60, r60, r60, r60]"

definition sidb_DIAGONAL_WIRE :: fcn_gate where
  "sidb_DIAGONAL_WIRE = cell_list_to_gate
    [r60, r60, r60, r60, r60, r60,
     ''                x                                           '',
     r60,
     ''                  x                                         '',
     r60,
     ''                      x                                     '',
     r60,
     ''                        x                                   '',
     r60, r60, r60,
     ''                           x      x                         '',
     r60, r60,
     ''                            x                               '',
     r60, r60, r60, r60, r60, r60,
     ''                             x                              '',
     r60, r60,
     ''                        x     x                             '',
     r60, r60,
     ''                                  x                         '',
     r60,
     ''                                    x                       '',
     r60,
     ''                                        x                   '',
     r60,
     ''                                          x                 '',
     r60, r60, r60, r60, r60, r60, r60]"

definition sidb_MIRRORED_DIAGONAL_WIRE :: fcn_gate where
  "sidb_MIRRORED_DIAGONAL_WIRE = cell_list_to_gate
    [r60, r60, r60, r60, r60, r60,
     ''                                          x                 '',
     r60,
     ''                                        x                   '',
     r60,
     ''                                    x                       '',
     r60,
     ''                                  x                         '',
     r60, r60, r60,
     ''                        x      x                            '',
     r60, r60,
     ''                              x                             '',
     r60, r60, r60, r60, r60, r60,
     ''                             x                              '',
     r60, r60,
     ''                            x     x                         '',
     r60, r60,
     ''                        x                                   '',
     r60,
     ''                      x                                     '',
     r60,
     ''                  x                                         '',
     r60,
     ''                x                                           '',
     r60, r60, r60, r60, r60, r60, r60]"

definition sidb_STRAIGHT_INVERTER :: fcn_gate where
  "sidb_STRAIGHT_INVERTER = cell_list_to_gate
    [r60, r60, r60, r60, r60, r60,
     ''                x                                           '',
     r60,
     ''                  x                                         '',
     r60,
     ''                      x                                     '',
     r60,
     ''                        x          x                        '',
     r60, r60, r60, r60, r60,
     ''                           x    x                           '',
     r60, r60, r60,
     ''                           x    x                           '',
     r60, r60, r60,
     ''                           x    x                           '',
     r60, r60, r60, r60, r60,
     ''                        x          x                        '',
     r60,
     ''                      x                                     '',
     r60,
     ''                  x                                         '',
     r60,
     ''                x                                           '',
     r60, r60, r60, r60, r60, r60, r60]"

definition sidb_MIRRORED_STRAIGHT_INVERTER :: fcn_gate where
  "sidb_MIRRORED_STRAIGHT_INVERTER = cell_list_to_gate
    [r60, r60, r60, r60, r60, r60,
     ''                                          x                 '',
     r60,
     ''                                        x                   '',
     r60,
     ''                                    x                       '',
     r60,
     ''                       x          x                         '',
     r60, r60, r60, r60, r60,
     ''                          x    x                            '',
     r60, r60, r60,
     ''                          x    x                            '',
     r60, r60, r60,
     ''                          x    x                            '',
     r60, r60, r60, r60, r60,
     ''                       x          x                         '',
     r60,
     ''                                    x                       '',
     r60,
     ''                                        x                   '',
     r60,
     ''                                          x                 '',
     r60, r60, r60, r60, r60, r60, r60]"

definition sidb_DIAGONAL_INVERTER :: fcn_gate where
  "sidb_DIAGONAL_INVERTER = cell_list_to_gate
    [r60, r60, r60, r60, r60, r60,
     ''                x                                           '',
     r60,
     ''                  x          x                              '',
     r60,
     ''                      x                                     '',
     r60,
     ''                        x          x                        '',
     r60, r60, r60, r60, r60, r60, r60,
     ''                           x   x                            '',
     r60, r60, r60,
     ''                           x   x                            '',
     r60, r60, r60, r60, r60, r60, r60,
     ''                       x          x                         '',
     r60,
     ''                                    x                       '',
     r60,
     ''                             x          x                   '',
     r60,
     ''                                          x                 '',
     r60, r60, r60, r60, r60, r60, r60]"

definition sidb_MIRRORED_DIAGONAL_INVERTER :: fcn_gate where
  "sidb_MIRRORED_DIAGONAL_INVERTER = cell_list_to_gate
    [r60, r60, r60, r60, r60, r60,
     ''                                          x                 '',
     r60,
     ''                             x          x                   '',
     r60,
     ''                                    x                       '',
     r60,
     ''                       x          x                         '',
     r60, r60, r60, r60, r60, r60, r60,
     ''                           x   x                            '',
     r60, r60, r60,
     ''                           x   x                            '',
     r60, r60, r60, r60, r60, r60, r60,
     ''                        x          x                        '',
     r60,
     ''                      x                                     '',
     r60,
     ''                  x          x                              '',
     r60,
     ''                x                                           '',
     r60, r60, r60, r60, r60, r60, r60]"

definition sidb_CONJUNCTION :: fcn_gate where
  "sidb_CONJUNCTION = cell_list_to_gate
    [r60, r60, r60, r60, r60, r60,
     ''                x                         x                 '',
     r60,
     ''                  x                     x                   '',
     r60,
     ''                      x             x                       '',
     r60,
     ''                        x         x                         '',
     r60, r60, r60, r60, r60,
     ''                             x                              '',
     r60,
     ''                            x    x                          '',
     r60, r60, r60, r60,
     ''                            x                               '',
     r60, r60,
     ''                             x                              '',
     r60,
     ''                              x                             '',
     r60,
     ''                                  x                         '',
     r60,
     ''                                    x                       '',
     r60,
     ''                                        x                   '',
     r60,
     ''                                          x                 '',
     r60, r60, r60, r60, r60, r60, r60]"

definition sidb_MIRRORED_CONJUNCTION :: fcn_gate where
  "sidb_MIRRORED_CONJUNCTION = cell_list_to_gate
    [r60, r60, r60, r60, r60, r60,
     ''                x                         x                 '',
     r60,
     ''                  x                     x                   '',
     r60,
     ''                      x             x                       '',
     r60,
     ''                        x         x                         '',
     r60, r60, r60, r60, r60,
     ''                             x                              '',
     r60,
     ''                         x    x                             '',
     r60, r60, r60, r60,
     ''                              x                             '',
     r60, r60,
     ''                             x                              '',
     r60,
     ''                            x                               '',
     r60,
     ''                        x                                   '',
     r60,
     ''                      x                                     '',
     r60,
     ''                  x                                         '',
     r60,
     ''                x                                           '',
     r60, r60, r60, r60, r60, r60, r60]"

definition sidb_DISJUNCTION :: fcn_gate where
  "sidb_DISJUNCTION = cell_list_to_gate
    [r60, r60, r60, r60, r60, r60,
     ''                x                         x                 '',
     r60,
     ''                  x                     x                   '',
     r60,
     ''                      x             x                       '',
     r60,
     ''                        x         x                         '',
     r60, r60, r60, r60, r60,
     ''                           x                                '',
     r60,
     ''                                x                           '',
     ''                           x                                '',
     r60,
     ''                             x                              '',
     r60, r60, r60, r60,
     ''                             x                              '',
     r60,
     ''                              x                             '',
     r60,
     ''                                  x                         '',
     r60,
     ''                                    x                       '',
     r60,
     ''                                        x                   '',
     r60,
     ''                                          x                 '',
     r60, r60, r60, r60, r60, r60, r60]"

definition sidb_MIRRORED_DISJUNCTION :: fcn_gate where
  "sidb_MIRRORED_DISJUNCTION = cell_list_to_gate
    [r60, r60, r60, r60, r60, r60,
     ''                x                         x                 '',
     r60,
     ''                  x                     x                   '',
     r60,
     ''                      x             x                       '',
     r60,
     ''                        x         x                         '',
     r60, r60, r60, r60, r60,
     ''                               x                            '',
     r60,
     ''                          x                                 '',
     ''                               x                            '',
     r60,
     ''                             x                              '',
     r60, r60, r60, r60,
     ''                             x                              '',
     r60,
     ''                            x                               '',
     r60,
     ''                        x                                   '',
     r60,
     ''                      x                                     '',
     r60,
     ''                  x                                         '',
     r60,
     ''                x                                           '',
     r60, r60, r60, r60, r60, r60, r60]"

definition sidb_NEGATED_CONJUNCTION :: fcn_gate where
  "sidb_NEGATED_CONJUNCTION = cell_list_to_gate
    [r60, r60, r60, r60, r60, r60,
     ''                x                         x                 '',
     r60,
     ''                  x                     x                   '',
     r60,
     ''                      x             x                       '',
     r60,
     ''                        x         x                         '',
     r60, r60, r60, r60, r60, r60, r60, r60,
     ''                              x                             '',
     r60,
     ''                           x                                '',
     r60, r60, r60, r60,
     ''                             x                              '',
     r60,
     ''                              x                             '',
     r60,
     ''                                  x                         '',
     r60,
     ''                                    x                       '',
     r60,
     ''                                        x                   '',
     r60,
     ''                                          x                 '',
     r60, r60, r60, r60, r60, r60, r60]"

definition sidb_MIRRORED_NEGATED_CONJUNCTION :: fcn_gate where
  "sidb_MIRRORED_NEGATED_CONJUNCTION = cell_list_to_gate
    [r60, r60, r60, r60, r60, r60,
     ''                x                         x                 '',
     r60,
     ''                  x                     x                   '',
     r60,
     ''                      x             x                       '',
     r60,
     ''                        x         x                         '',
     r60, r60, r60, r60, r60, r60, r60, r60,
     ''                            x                               '',
     r60,
     ''                               x                            '',
     r60, r60, r60, r60,
     ''                             x                              '',
     r60,
     ''                            x                               '',
     r60,
     ''                        x                                   '',
     r60,
     ''                      x                                     '',
     r60,
     ''                  x                                         '',
     r60,
     ''                x                                           '',
     r60, r60, r60, r60, r60, r60, r60]"

definition sidb_NEGATED_DISJUNCTION :: fcn_gate where
  "sidb_NEGATED_DISJUNCTION = cell_list_to_gate
    [r60, r60, r60, r60, r60, r60,
     ''                x                         x                 '',
     r60,
     ''                  x                     x                   '',
     r60,
     ''                      x             x                       '',
     r60,
     ''                        x         x                         '',
     r60, r60, r60, r60, r60, r60, r60, r60,
     ''                            x                               '',
     r60, r60,
     ''                            x                               '',
     r60, r60, r60,
     ''                             x                              '',
     r60,
     ''                              x                             '',
     r60,
     ''                                  x                         '',
     r60,
     ''                                    x                       '',
     r60,
     ''                                        x                   '',
     r60,
     ''                                          x                 '',
     r60, r60, r60, r60, r60, r60, r60]"

definition sidb_MIRRORED_NEGATED_DISJUNCTION :: fcn_gate where
  "sidb_MIRRORED_NEGATED_DISJUNCTION = cell_list_to_gate
    [r60, r60, r60, r60, r60, r60,
     ''                x                         x                 '',
     r60,
     ''                  x                     x                   '',
     r60,
     ''                      x             x                       '',
     r60,
     ''                        x         x                         '',
     r60, r60, r60, r60, r60, r60, r60, r60,
     ''                              x                             '',
     r60, r60,
     ''                              x                             '',
     r60, r60, r60,
     ''                             x                              '',
     r60,
     ''                            x                               '',
     r60,
     ''                        x                                   '',
     r60,
     ''                      x                                     '',
     r60,
     ''                  x                                         '',
     r60,
     ''                x                                           '',
     r60, r60, r60, r60, r60, r60, r60]"

definition sidb_EXCLUSIVE_DISJUNCTION :: fcn_gate where
  "sidb_EXCLUSIVE_DISJUNCTION = cell_list_to_gate
    [r60, r60, r60, r60, r60, r60,
     ''                x                         x                 '',
     r60,
     ''                  x                     x                   '',
     r60,
     ''                      x             x                       '',
     r60,
     ''                        x         x                         '',
     r60, r60, r60,
     ''                         x                                  '',
     r60,
     ''                             x                              '',
     r60, r60,
     ''                           x                                '',
     r60, r60,
     ''                              x                             '',
     r60, r60, r60,
     ''                             x                              '',
     r60,
     ''                              x                             '',
     r60,
     ''                                  x                         '',
     r60,
     ''                                    x                       '',
     r60,
     ''                                        x                   '',
     r60,
     ''                                          x                 '',
     r60, r60, r60, r60, r60, r60, r60]"

definition sidb_MIRRORED_EXCLUSIVE_DISJUNCTION :: fcn_gate where
  "sidb_MIRRORED_EXCLUSIVE_DISJUNCTION = cell_list_to_gate
    [r60, r60, r60, r60, r60, r60,
     ''                x                         x                 '',
     r60,
     ''                  x                     x                   '',
     r60,
     ''                      x             x                       '',
     r60,
     ''                        x         x                         '',
     r60, r60, r60,
     ''                                 x                          '',
     r60,
     ''                             x                              '',
     r60, r60,
     ''                               x                            '',
     r60, r60,
     ''                            x                               '',
     r60, r60, r60,
     ''                             x                              '',
     r60,
     ''                            x                               '',
     r60,
     ''                        x                                   '',
     r60,
     ''                      x                                     '',
     r60,
     ''                  x                                         '',
     r60,
     ''                x                                           '',
     r60, r60, r60, r60, r60, r60, r60]"

definition sidb_NEGATED_EXCLUSIVE_DISJUNCTION :: fcn_gate where
  "sidb_NEGATED_EXCLUSIVE_DISJUNCTION = cell_list_to_gate
    [r60, r60, r60, r60, r60, r60,
     ''                x                         x                 '',
     r60,
     ''                  x                     x                   '',
     r60,
     ''                      x             x                       '',
     r60,
     ''                        x         x                         '',
     r60, r60, r60, r60,
     ''                              x                             '',
     r60, r60, r60, r60,
     ''                               x                            '',
     ''                         x  x                               '',
     r60, r60, r60, r60,
     ''                             x                              '',
     r60,
     ''                              x                             '',
     r60,
     ''                                  x                         '',
     r60,
     ''                                    x                       '',
     r60,
     ''                                        x                   '',
     r60,
     ''                                          x                 '',
     r60, r60, r60, r60, r60, r60, r60]"

definition sidb_MIRRORED_NEGATED_EXCLUSIVE_DISJUNCTION :: fcn_gate where
  "sidb_MIRRORED_NEGATED_EXCLUSIVE_DISJUNCTION = cell_list_to_gate
    [r60, r60, r60, r60, r60, r60,
     ''                x                         x                 '',
     r60,
     ''                  x                     x                   '',
     r60,
     ''                      x             x                       '',
     r60,
     ''                        x         x                         '',
     r60, r60, r60, r60,
     ''                            x                               '',
     r60, r60, r60, r60,
     ''                           x                                '',
     ''                              x  x                          '',
     r60, r60, r60, r60,
     ''                             x                              '',
     r60,
     ''                            x                               '',
     r60,
     ''                        x                                   '',
     r60,
     ''                      x                                     '',
     r60,
     ''                  x                                         '',
     r60,
     ''                x                                           '',
     r60, r60, r60, r60, r60, r60, r60]"

definition sidb_FANOUT_1_2 :: fcn_gate where
  "sidb_FANOUT_1_2 = cell_list_to_gate
    [r60, r60, r60, r60, r60, r60,
     ''                x                                           '',
     r60,
     ''                  x                                         '',
     r60,
     ''                      x                                     '',
     r60,
     ''                        x                                   '',
     r60,
     ''                            x                               '',
     r60,
     ''                             x                              '',
     r60, r60, r60, r60, r60, r60, r60,
     ''                           x                                '',
     ''                               x                            '',
     r60, r60,
     ''                            x                               '',
     r60, r60, r60,
     ''                        x         x                         '',
     r60,
     ''                      x             x                       '',
     r60,
     ''                  x                     x                   '',
     r60,
     ''                x                         x                 '',
     r60, r60, r60, r60, r60, r60, r60]"

definition sidb_MIRRORED_FANOUT_1_2 :: fcn_gate where
  "sidb_MIRRORED_FANOUT_1_2 = cell_list_to_gate
    [r60, r60, r60, r60, r60, r60,
     ''                                          x                 '',
     r60,
     ''                                        x                   '',
     r60,
     ''                                    x                       '',
     r60,
     ''                                  x                         '',
     r60,
     ''                              x                             '',
     r60,
     ''                             x                              '',
     r60, r60, r60, r60, r60, r60, r60,
     ''                               x                            '',
     ''                           x                                '',
     r60, r60,
     ''                              x                             '',
     r60, r60, r60,
     ''                        x         x                         '',
     r60,
     ''                      x             x                       '',
     r60,
     ''                  x                     x                   '',
     r60,
     ''                x                         x                 '',
     r60, r60, r60, r60, r60, r60, r60]"

definition sidb_CROSSING_WIRE :: fcn_gate where
  "sidb_CROSSING_WIRE = cell_list_to_gate
    [r60, r60, r60, r60, r60, r60,
     ''                x                         x                 '',
     r60,
     ''                  x                     x                   '',
     r60,
     ''                      x             x                       '',
     r60,
     ''                        x         x                         '',
     r60, r60, r60, r60, r60,
     ''                              x                             '',
     r60,
     ''                        x   x                               '',
     r60, r60, r60, r60,
     ''                        x                                   '',
     ''                              x                             '',
     r60, r60,
     ''                          x       x                         '',
     r60, r60,
     ''                        x         x                         '',
     r60,
     ''                      x             x                       '',
     r60,
     ''                  x                     x                   '',
     r60,
     ''                x                         x                 '',
     r60, r60, r60, r60, r60, r60, r60]"

definition sidb_HOURGLASS_DOUBLE_WIRE :: fcn_gate where
  "sidb_HOURGLASS_DOUBLE_WIRE = cell_list_to_gate
    [r60, r60, r60, r60, r60, r60,
     ''                x                         x                 '',
     r60,
     ''                  x                     x                   '',
     r60,
     ''                      x             x                       '',
     r60,
     ''                        x         x                         '',
     r60, r60, r60, r60,
     ''                        x         x                         '',
     r60, r60,
     ''                    x                 x                     '',
     r60, r60, r60, r60,
     ''                     x               x                      '',
     r60,
     ''                        x         x                         '',
     r60, r60, r60, r60,
     ''                        x         x                         '',
     r60,
     ''                      x             x                       '',
     r60,
     ''                  x                     x                   '',
     r60,
     ''                x                         x                 '',
     r60, r60, r60, r60, r60, r60, r60]"

section \<open>Tables\<close>

definition sidb_WIRE_MAP :: "port_direction gate_table" where
  "sidb_WIRE_MAP =
    [
     (direction_ports [] [port_direction SOUTH_WEST], sidb_STRAIGHT_WIRE),
     (direction_ports [] [port_direction SOUTH_EAST], sidb_DIAGONAL_WIRE),
     (direction_ports [port_direction NORTH_WEST] [], sidb_DIAGONAL_WIRE),
     (direction_ports [port_direction NORTH_EAST] [], sidb_MIRRORED_STRAIGHT_WIRE),
     (direction_ports [port_direction NORTH_WEST] [port_direction SOUTH_WEST], sidb_STRAIGHT_WIRE),
     (direction_ports [port_direction NORTH_EAST] [port_direction SOUTH_EAST], sidb_MIRRORED_STRAIGHT_WIRE),
     (direction_ports [port_direction NORTH_WEST] [port_direction SOUTH_EAST], sidb_DIAGONAL_WIRE),
     (direction_ports [port_direction NORTH_EAST] [port_direction SOUTH_WEST], sidb_MIRRORED_DIAGONAL_WIRE),
     (direction_ports [] [], sidb_EMPTY_GATE)]"

definition sidb_CROSSING_MAP :: "((port_direction port_list \<times> port_direction port_list) \<times> fcn_gate) list" where
  "sidb_CROSSING_MAP =
    [
     ((direction_ports [port_direction NORTH_WEST] [port_direction SOUTH_WEST], direction_ports [port_direction NORTH_EAST] [port_direction SOUTH_EAST]), sidb_HOURGLASS_DOUBLE_WIRE),
     ((direction_ports [port_direction NORTH_EAST] [port_direction SOUTH_EAST], direction_ports [port_direction NORTH_WEST] [port_direction SOUTH_WEST]), sidb_HOURGLASS_DOUBLE_WIRE),
     ((direction_ports [port_direction NORTH_WEST] [port_direction SOUTH_EAST], direction_ports [port_direction NORTH_EAST] [port_direction SOUTH_WEST]), sidb_CROSSING_WIRE),
     ((direction_ports [port_direction NORTH_EAST] [port_direction SOUTH_WEST], direction_ports [port_direction NORTH_WEST] [port_direction SOUTH_EAST]), sidb_CROSSING_WIRE)]"

definition sidb_INVERTER_MAP :: "port_direction gate_table" where
  "sidb_INVERTER_MAP =
    [
     (direction_ports [port_direction NORTH_WEST] [port_direction SOUTH_WEST], sidb_STRAIGHT_INVERTER),
     (direction_ports [port_direction NORTH_EAST] [port_direction SOUTH_EAST], sidb_MIRRORED_STRAIGHT_INVERTER),
     (direction_ports [port_direction NORTH_WEST] [port_direction SOUTH_EAST], sidb_DIAGONAL_INVERTER),
     (direction_ports [port_direction NORTH_EAST] [port_direction SOUTH_WEST], sidb_MIRRORED_DIAGONAL_INVERTER),
     (direction_ports [] [port_direction SOUTH_WEST], sidb_STRAIGHT_INVERTER),
     (direction_ports [] [port_direction SOUTH_EAST], sidb_DIAGONAL_INVERTER),
     (direction_ports [port_direction NORTH_WEST] [], sidb_DIAGONAL_INVERTER),
     (direction_ports [port_direction NORTH_EAST] [], sidb_MIRRORED_STRAIGHT_INVERTER)]"

definition sidb_CONJUNCTION_MAP :: "port_direction gate_table" where
  "sidb_CONJUNCTION_MAP =
    [
     (direction_ports [port_direction NORTH_WEST, port_direction NORTH_EAST] [port_direction SOUTH_EAST], sidb_CONJUNCTION),
     (direction_ports [port_direction NORTH_WEST, port_direction NORTH_EAST] [port_direction SOUTH_WEST], sidb_MIRRORED_CONJUNCTION)]"

definition sidb_DISJUNCTION_MAP :: "port_direction gate_table" where
  "sidb_DISJUNCTION_MAP =
    [
     (direction_ports [port_direction NORTH_WEST, port_direction NORTH_EAST] [port_direction SOUTH_EAST], sidb_DISJUNCTION),
     (direction_ports [port_direction NORTH_WEST, port_direction NORTH_EAST] [port_direction SOUTH_WEST], sidb_MIRRORED_DISJUNCTION)]"

definition sidb_NEGATED_CONJUNCTION_MAP :: "port_direction gate_table" where
  "sidb_NEGATED_CONJUNCTION_MAP =
    [
     (direction_ports [port_direction NORTH_WEST, port_direction NORTH_EAST] [port_direction SOUTH_EAST], sidb_NEGATED_CONJUNCTION),
     (direction_ports [port_direction NORTH_WEST, port_direction NORTH_EAST] [port_direction SOUTH_WEST], sidb_MIRRORED_NEGATED_CONJUNCTION)]"

definition sidb_NEGATED_DISJUNCTION_MAP :: "port_direction gate_table" where
  "sidb_NEGATED_DISJUNCTION_MAP =
    [
     (direction_ports [port_direction NORTH_WEST, port_direction NORTH_EAST] [port_direction SOUTH_EAST], sidb_NEGATED_DISJUNCTION),
     (direction_ports [port_direction NORTH_WEST, port_direction NORTH_EAST] [port_direction SOUTH_WEST], sidb_MIRRORED_NEGATED_DISJUNCTION)]"

definition sidb_EXCLUSIVE_DISJUNCTION_MAP :: "port_direction gate_table" where
  "sidb_EXCLUSIVE_DISJUNCTION_MAP =
    [
     (direction_ports [port_direction NORTH_WEST, port_direction NORTH_EAST] [port_direction SOUTH_EAST], sidb_EXCLUSIVE_DISJUNCTION),
     (direction_ports [port_direction NORTH_WEST, port_direction NORTH_EAST] [port_direction SOUTH_WEST], sidb_MIRRORED_EXCLUSIVE_DISJUNCTION)]"

definition sidb_NEGATED_EXCLUSIVE_DISJUNCTION_MAP :: "port_direction gate_table" where
  "sidb_NEGATED_EXCLUSIVE_DISJUNCTION_MAP =
    [
     (direction_ports [port_direction NORTH_WEST, port_direction NORTH_EAST] [port_direction SOUTH_EAST], sidb_NEGATED_EXCLUSIVE_DISJUNCTION),
     (direction_ports [port_direction NORTH_WEST, port_direction NORTH_EAST] [port_direction SOUTH_WEST], sidb_MIRRORED_NEGATED_EXCLUSIVE_DISJUNCTION)]"

definition sidb_FANOUT_MAP :: "port_direction gate_table" where
  "sidb_FANOUT_MAP =
    [
     (direction_ports [port_direction NORTH_WEST] [port_direction SOUTH_EAST, port_direction SOUTH_WEST], sidb_FANOUT_1_2),
     (direction_ports [port_direction NORTH_EAST] [port_direction SOUTH_EAST, port_direction SOUTH_WEST], sidb_MIRRORED_FANOUT_1_2)]"

end
