(* ===== verification/Bestagon_Library.thy ===== *)
theory Bestagon_Library
  imports Bestagon_Tables
begin

text \<open>
  Model of \<open>technology/sidb_bestagon_library.hpp\<close>: the port routing of a tile and \<open>set_up_gate\<close>, on the
  tables of \<open>Bestagon_Tables\<close>.

  The lemmas show that a gate has a dangling bond at the corner cell of each of its ports, with one
  exception, for which tiles the library has a gate, and which gates are mirror images.
\<close>

section \<open>Ports and gates of a tile\<close>

definition dir_inp_if :: "bool \<Rightarrow> cardinal \<Rightarrow> port_direction port_list \<Rightarrow> port_direction port_list" where
  "dir_inp_if b d p = (if b then add_inp port_direction_less (port_direction d) p else p)"

definition dir_out_if :: "bool \<Rightarrow> cardinal \<Rightarrow> port_direction port_list \<Rightarrow> port_direction port_list" where
  "dir_out_if b d p = (if b then add_out port_direction_less (port_direction d) p else p)"

definition sidb_determine_port_routing :: "'tt gate_level_layout \<Rightarrow> ucoord_t \<Rightarrow> port_direction port_list" where
  "sidb_determine_port_routing l t =
     (let p = empty_port_list;
          p = dir_inp_if (has_north_eastern_incoming_signal l t) NORTH_EAST p;
          p = dir_inp_if (has_north_western_incoming_signal l t) NORTH_WEST p;
          p = dir_out_if (has_south_eastern_outgoing_signal l t) SOUTH_EAST p;
          p = dir_out_if (has_south_western_outgoing_signal l t) SOUTH_WEST p;
          n = get_node_of_tile l t
      in if \<not> is_wire l n \<and> \<not> is_inv l n then
           (let p = dir_inp_if (has_no_incoming_signal l t) NORTH_WEST p
            in dir_out_if (has_no_outgoing_signal l t) SOUTH_EAST p)
         else p)"

abbreviation "direction_list_eq \<equiv> port_list_eq port_direction_eq"

definition sidb_at :: "port_direction gate_table \<Rightarrow> port_direction port_list \<Rightarrow> fcn_gate option" where
  "sidb_at m p = table_at direction_list_eq m p"

definition crossing_at ::
    "port_direction port_list \<times> port_direction port_list \<Rightarrow> fcn_gate option" where
  "crossing_at pp =
     table_at (\<lambda>a b. direction_list_eq (fst a) (fst b) \<and> direction_list_eq (snd a) (snd b)) sidb_CROSSING_MAP pp"

text \<open>\<open>has_is_fanout_v\<close> and its like hold for the gate-level layout, so every \<open>if constexpr\<close> is taken.\<close>

definition sidb_set_up_gate ::
    "'tt gate_level_layout \<Rightarrow> ucoord_t \<Rightarrow> (port_direction, fcn_gate) gate_result" where
  "sidb_set_up_gate l t =
     (let n = get_node_of_tile l t;
          p = sidb_determine_port_routing l t;
          orientation = unsupported_gate_orientation t p
      in if is_fanout l n \<and> fanout_size l n = 2 then or_throw orientation (sidb_at sidb_FANOUT_MAP p)
         else if is_buf l n then
           (if lyt_is_ground_layer l t then
              (let at = lyt_above l t in
               if t \<noteq> at \<and> is_wire_tile l at then
                 or_throw orientation (crossing_at (p, sidb_determine_port_routing l at))
               else or_throw orientation (sidb_at sidb_WIRE_MAP p))
            else Inr sidb_EMPTY_GATE)
         else if is_inv l n then or_throw orientation (sidb_at sidb_INVERTER_MAP p)
         else if is_and l n then or_throw orientation (sidb_at sidb_CONJUNCTION_MAP p)
         else if is_or l n then or_throw orientation (sidb_at sidb_DISJUNCTION_MAP p)
         else if is_nand l n then or_throw orientation (sidb_at sidb_NEGATED_CONJUNCTION_MAP p)
         else if is_nor l n then or_throw orientation (sidb_at sidb_NEGATED_DISJUNCTION_MAP p)
         else if is_xor l n then or_throw orientation (sidb_at sidb_EXCLUSIVE_DISJUNCTION_MAP p)
         else if is_xnor l n then or_throw orientation (sidb_at sidb_NEGATED_EXCLUSIVE_DISJUNCTION_MAP p)
         else Inl (unsupported_gate_type t))"

section \<open>Checking the tables\<close>

text \<open>The corner cell of a port, as row and column.\<close>

definition corner_cell :: "port_direction \<Rightarrow> nat \<times> nat" where
  "corner_cell q =
     (if pd_dir q = cardinal_value NORTH_WEST then (6, 16)
      else if pd_dir q = cardinal_value NORTH_EAST then (6, 42)
      else if pd_dir q = cardinal_value SOUTH_WEST then (38, 16)
      else (38, 42))"

definition has_bond :: "fcn_gate \<Rightarrow> port_direction \<Rightarrow> bool" where
  "has_bond g q = (gate_at g (fst (corner_cell q)) (snd (corner_cell q)) = SIDB_NORMAL)"

definition sidb_gate :: "fcn_gate \<Rightarrow> bool" where
  "sidb_gate g = (is_gate_array 60 46 g \<and> list_all (list_all (\<lambda>c. c = SIDB_EMPTY \<or> c = SIDB_NORMAL)) g)"

text \<open>A gate fits ports if it has a bond at the corner of each; where the tile has inputs and outputs, it
  has no bond at the other corners.\<close>

definition corners :: "port_direction list" where
  "corners = map port_direction [NORTH_EAST, SOUTH_EAST, SOUTH_WEST, NORTH_WEST]"

definition sidb_fits :: "port_direction port_list \<Rightarrow> fcn_gate \<Rightarrow> bool" where
  "sidb_fits p g =
     (list_all (has_bond g) (pl_inp p @ pl_out p) \<and>
      (pl_inp p \<noteq> [] \<and> pl_out p \<noteq> [] \<longrightarrow>
         list_all (\<lambda>q. has_bond g q = list_ex (port_direction_eq q) (pl_inp p @ pl_out p)) corners))"

lemma r60_row: "length r60 = 60" "list_all (\<lambda>c. c = CHR '' '' \<or> c = CHR ''x'') r60"
  by (simp_all add: r60_def)

definition sidb_gates :: "fcn_gate list" where
  "sidb_gates =
     [sidb_EMPTY_GATE, sidb_STRAIGHT_WIRE, sidb_MIRRORED_STRAIGHT_WIRE, sidb_DIAGONAL_WIRE,
      sidb_MIRRORED_DIAGONAL_WIRE, sidb_STRAIGHT_INVERTER, sidb_MIRRORED_STRAIGHT_INVERTER,
      sidb_DIAGONAL_INVERTER, sidb_MIRRORED_DIAGONAL_INVERTER, sidb_CONJUNCTION,
      sidb_MIRRORED_CONJUNCTION, sidb_DISJUNCTION, sidb_MIRRORED_DISJUNCTION,
      sidb_NEGATED_CONJUNCTION, sidb_MIRRORED_NEGATED_CONJUNCTION, sidb_NEGATED_DISJUNCTION,
      sidb_MIRRORED_NEGATED_DISJUNCTION, sidb_EXCLUSIVE_DISJUNCTION,
      sidb_MIRRORED_EXCLUSIVE_DISJUNCTION, sidb_NEGATED_EXCLUSIVE_DISJUNCTION,
      sidb_MIRRORED_NEGATED_EXCLUSIVE_DISJUNCTION, sidb_FANOUT_1_2, sidb_MIRRORED_FANOUT_1_2,
      sidb_CROSSING_WIRE, sidb_HOURGLASS_DOUBLE_WIRE]"

lemmas sidb_gate_defs =
  sidb_STRAIGHT_WIRE_def sidb_MIRRORED_STRAIGHT_WIRE_def sidb_DIAGONAL_WIRE_def
  sidb_MIRRORED_DIAGONAL_WIRE_def sidb_STRAIGHT_INVERTER_def sidb_MIRRORED_STRAIGHT_INVERTER_def
  sidb_DIAGONAL_INVERTER_def sidb_MIRRORED_DIAGONAL_INVERTER_def sidb_CONJUNCTION_def
  sidb_MIRRORED_CONJUNCTION_def sidb_DISJUNCTION_def sidb_MIRRORED_DISJUNCTION_def
  sidb_NEGATED_CONJUNCTION_def sidb_MIRRORED_NEGATED_CONJUNCTION_def sidb_NEGATED_DISJUNCTION_def
  sidb_MIRRORED_NEGATED_DISJUNCTION_def sidb_EXCLUSIVE_DISJUNCTION_def
  sidb_MIRRORED_EXCLUSIVE_DISJUNCTION_def sidb_NEGATED_EXCLUSIVE_DISJUNCTION_def
  sidb_MIRRORED_NEGATED_EXCLUSIVE_DISJUNCTION_def sidb_FANOUT_1_2_def
  sidb_MIRRORED_FANOUT_1_2_def sidb_CROSSING_WIRE_def sidb_HOURGLASS_DOUBLE_WIRE_def

lemma empty_gate_ok: "sidb_gate sidb_EMPTY_GATE"
  by (simp add: sidb_gate_def sidb_EMPTY_GATE_def) (simp add: EMPTY_GATE_def create_array_def list_all_length)

lemma sidb_gates_ok: "list_all sidb_gate sidb_gates"
proof -
  have "list_all sidb_gate (tl sidb_gates)"
    by (simp add: sidb_gates_def sidb_gate_def is_gate_array_def sidb_gate_defs cell_list_to_gate_id r60_row
        SIDB_EMPTY_def SIDB_NORMAL_def)
  then show ?thesis by (simp add: sidb_gates_def empty_gate_ok)
qed

lemmas sidb_table_defs =
  sidb_WIRE_MAP_def sidb_INVERTER_MAP_def sidb_FANOUT_MAP_def sidb_CROSSING_MAP_def sidb_CONJUNCTION_MAP_def
  sidb_DISJUNCTION_MAP_def sidb_NEGATED_CONJUNCTION_MAP_def sidb_NEGATED_DISJUNCTION_MAP_def
  sidb_EXCLUSIVE_DISJUNCTION_MAP_def sidb_NEGATED_EXCLUSIVE_DISJUNCTION_MAP_def

lemma sidb_wires_fit:
  "list_all (\<lambda>(p, g). g = sidb_MIRRORED_STRAIGHT_WIRE \<or> sidb_fits p g) sidb_WIRE_MAP"
  by code_simp

lemma sidb_inverters_fit: "list_all (\<lambda>(p, g). sidb_fits p g) sidb_INVERTER_MAP"
  by code_simp

lemma sidb_fanouts_fit: "list_all (\<lambda>(p, g). sidb_fits p g) sidb_FANOUT_MAP"
  by code_simp

lemma sidb_two_input_gates_fit:
  "list_all (\<lambda>(p, g). sidb_fits p g) sidb_CONJUNCTION_MAP"
  "list_all (\<lambda>(p, g). sidb_fits p g) sidb_DISJUNCTION_MAP"
  "list_all (\<lambda>(p, g). sidb_fits p g) sidb_NEGATED_CONJUNCTION_MAP"
  "list_all (\<lambda>(p, g). sidb_fits p g) sidb_NEGATED_DISJUNCTION_MAP"
  "list_all (\<lambda>(p, g). sidb_fits p g) sidb_EXCLUSIVE_DISJUNCTION_MAP"
  "list_all (\<lambda>(p, g). sidb_fits p g) sidb_NEGATED_EXCLUSIVE_DISJUNCTION_MAP"
  by code_simp+

lemma sidb_crossings_fit: "list_all (\<lambda>(pq, g). list_all (has_bond g) corners) sidb_CROSSING_MAP"
  by code_simp

lemma sidb_tables_gates:
  "list_all (\<lambda>(p, g). g \<in> set sidb_gates) sidb_WIRE_MAP"
  "list_all (\<lambda>(p, g). g \<in> set sidb_gates) sidb_INVERTER_MAP"
  "list_all (\<lambda>(p, g). g \<in> set sidb_gates) sidb_FANOUT_MAP"
  "list_all (\<lambda>(p, g). g \<in> set sidb_gates) sidb_CONJUNCTION_MAP"
  "list_all (\<lambda>(p, g). g \<in> set sidb_gates) sidb_DISJUNCTION_MAP"
  "list_all (\<lambda>(p, g). g \<in> set sidb_gates) sidb_NEGATED_CONJUNCTION_MAP"
  "list_all (\<lambda>(p, g). g \<in> set sidb_gates) sidb_NEGATED_DISJUNCTION_MAP"
  "list_all (\<lambda>(p, g). g \<in> set sidb_gates) sidb_EXCLUSIVE_DISJUNCTION_MAP"
  "list_all (\<lambda>(p, g). g \<in> set sidb_gates) sidb_NEGATED_EXCLUSIVE_DISJUNCTION_MAP"
  "list_all (\<lambda>(p, g). g \<in> set sidb_gates) sidb_CROSSING_MAP"
  by (simp_all add: sidb_table_defs sidb_gates_def)

section \<open>Mirror images\<close>

text \<open>Reflection at column 29; the last column stays.\<close>

definition mirror :: "fcn_gate \<Rightarrow> fcn_gate" where
  "mirror g = map (\<lambda>r. rev (take 59 r) @ drop 59 r) g"

lemma mirrors:
  "list_all (\<lambda>(g, g'). g' = mirror g)
     [(sidb_DIAGONAL_WIRE, sidb_MIRRORED_DIAGONAL_WIRE), (sidb_STRAIGHT_INVERTER, sidb_MIRRORED_STRAIGHT_INVERTER),
      (sidb_DIAGONAL_INVERTER, sidb_MIRRORED_DIAGONAL_INVERTER), (sidb_CONJUNCTION, sidb_MIRRORED_CONJUNCTION),
      (sidb_DISJUNCTION, sidb_MIRRORED_DISJUNCTION), (sidb_NEGATED_CONJUNCTION, sidb_MIRRORED_NEGATED_CONJUNCTION),
      (sidb_NEGATED_DISJUNCTION, sidb_MIRRORED_NEGATED_DISJUNCTION),
      (sidb_EXCLUSIVE_DISJUNCTION, sidb_MIRRORED_EXCLUSIVE_DISJUNCTION),
      (sidb_NEGATED_EXCLUSIVE_DISJUNCTION, sidb_MIRRORED_NEGATED_EXCLUSIVE_DISJUNCTION),
      (sidb_FANOUT_1_2, sidb_MIRRORED_FANOUT_1_2)]"
  by code_simp

lemma mirrored_straight_wire:
  "gate_at sidb_MIRRORED_STRAIGHT_WIRE 6 42 = SIDB_EMPTY \<and> gate_at sidb_MIRRORED_STRAIGHT_WIRE 7 42 = SIDB_NORMAL \<and>
   gate_at sidb_MIRRORED_STRAIGHT_WIRE 38 42 = SIDB_EMPTY \<and> gate_at sidb_MIRRORED_STRAIGHT_WIRE 39 42 = SIDB_NORMAL \<and>
   gate_at (mirror sidb_STRAIGHT_WIRE) 6 42 = SIDB_NORMAL"
  by code_simp

section \<open>Which ports a table has\<close>

definition sidb_inps :: "port_direction list" where
  "sidb_inps = [port_direction NORTH_EAST, port_direction NORTH_WEST]"

definition sidb_outs :: "port_direction list" where
  "sidb_outs = [port_direction SOUTH_EAST, port_direction SOUTH_WEST]"

interpretation sidb_ports: port_routing port_direction_less port_direction_eq sidb_inps sidb_outs
  by unfold_locales (code_simp+)

abbreviation "corner_routing \<equiv> within_ports port_direction_less sidb_inps sidb_outs"

lemma corner_routing_if:
  "port_direction d \<in> set sidb_inps \<Longrightarrow> corner_routing p \<Longrightarrow> corner_routing (dir_inp_if b d p)"
  "port_direction d \<in> set sidb_outs \<Longrightarrow> corner_routing p \<Longrightarrow> corner_routing (dir_out_if b d p)"
  by (simp_all add: dir_inp_if_def dir_out_if_def sidb_ports.within_add)

lemma corners_mem:
  "port_direction NORTH_EAST \<in> set sidb_inps" "port_direction NORTH_WEST \<in> set sidb_inps"
  "port_direction SOUTH_EAST \<in> set sidb_outs" "port_direction SOUTH_WEST \<in> set sidb_outs"
  by (simp_all add: sidb_inps_def sidb_outs_def)

lemma sidb_routing_corners: "corner_routing (sidb_determine_port_routing l t)"
  by (simp add: sidb_determine_port_routing_def Let_def corner_routing_if corners_mem sidb_ports.within_empty)

abbreviation "on_all_corners \<equiv> on_all_ports sidb_inps sidb_outs"

lemma sidb_wire_keys:
  "on_all_corners (\<lambda>p. list_ex (\<lambda>k. direction_list_eq k p) (map fst sidb_WIRE_MAP) = (wired p \<or> routed 0 0 p))"
  unfolding sidb_WIRE_MAP_def list.map fst_conv by code_simp

lemma sidb_inverter_keys:
  "on_all_corners (\<lambda>p. list_ex (\<lambda>k. direction_list_eq k p) (map fst sidb_INVERTER_MAP) = wired p)"
  unfolding sidb_INVERTER_MAP_def list.map fst_conv by code_simp

lemma sidb_fanout_keys:
  "on_all_corners (\<lambda>p. list_ex (\<lambda>k. direction_list_eq k p) (map fst sidb_FANOUT_MAP) = routed 1 2 p)"
  unfolding sidb_FANOUT_MAP_def list.map fst_conv by code_simp

lemma sidb_two_input_keys:
  "on_all_corners (\<lambda>p. list_ex (\<lambda>k. direction_list_eq k p) (map fst sidb_CONJUNCTION_MAP) = routed 2 1 p)"
  unfolding sidb_CONJUNCTION_MAP_def list.map fst_conv by code_simp

lemma same_keys:
  "map fst sidb_DISJUNCTION_MAP = map fst sidb_CONJUNCTION_MAP"
  "map fst sidb_NEGATED_CONJUNCTION_MAP = map fst sidb_CONJUNCTION_MAP"
  "map fst sidb_NEGATED_DISJUNCTION_MAP = map fst sidb_CONJUNCTION_MAP"
  "map fst sidb_EXCLUSIVE_DISJUNCTION_MAP = map fst sidb_CONJUNCTION_MAP"
  "map fst sidb_NEGATED_EXCLUSIVE_DISJUNCTION_MAP = map fst sidb_CONJUNCTION_MAP"
  by (simp_all add: sidb_table_defs)

lemma sidb_at_keys:
  "on_all_corners (\<lambda>p. list_ex (\<lambda>k. direction_list_eq k p) (map fst m) = P p) \<Longrightarrow>
   sidb_at m (sidb_determine_port_routing l t) = None \<longleftrightarrow> \<not> P (sidb_determine_port_routing l t)"
  unfolding sidb_at_def by (rule sidb_ports.table_None [OF _ sidb_routing_corners])

lemmas sidb_tables_None =
  sidb_at_keys [OF sidb_wire_keys] sidb_at_keys [OF sidb_inverter_keys] sidb_at_keys [OF sidb_fanout_keys]
  sidb_at_keys [OF sidb_two_input_keys] sidb_at_keys [OF sidb_two_input_keys [folded same_keys(1)]]
  sidb_at_keys [OF sidb_two_input_keys [folded same_keys(2)]]
  sidb_at_keys [OF sidb_two_input_keys [folded same_keys(3)]]
  sidb_at_keys [OF sidb_two_input_keys [folded same_keys(4)]]
  sidb_at_keys [OF sidb_two_input_keys [folded same_keys(5)]]

text \<open>The ports of two wires that cross or run past each other: one input and one output each, all
  different.\<close>

definition crossed :: "port_direction port_list \<Rightarrow> port_direction port_list \<Rightarrow> bool" where
  "crossed p q \<longleftrightarrow> routed 1 1 p \<and> routed 1 1 q \<and> pl_inp p \<noteq> pl_inp q \<and> pl_out p \<noteq> pl_out q"

lemma crossing_keys:
  "on_all_corners (\<lambda>p. on_all_corners (\<lambda>q.
     list_ex (\<lambda>k. direction_list_eq (fst k) p \<and> direction_list_eq (snd k) q) (map fst sidb_CROSSING_MAP) =
     crossed p q))"
  unfolding sidb_CROSSING_MAP_def list.map fst_conv snd_conv by code_simp

lemma crossing_at_None:
  "crossing_at (sidb_determine_port_routing l t, sidb_determine_port_routing l t') = None \<longleftrightarrow>
   \<not> crossed (sidb_determine_port_routing l t) (sidb_determine_port_routing l t')"
  using sidb_ports.on_all_portsD [OF sidb_ports.on_all_portsD [OF crossing_keys sidb_routing_corners]
      sidb_routing_corners, of l t l t']
    table_at_keys [of "\<lambda>a b. direction_list_eq (fst a) (fst b) \<and> direction_list_eq (snd a) (snd b)"
      sidb_CROSSING_MAP "(sidb_determine_port_routing l t, sidb_determine_port_routing l t')"]
  unfolding crossing_at_def by auto

section \<open>Gates and ports\<close>

lemma direction_eq_list_ex:
  "list_all2 port_direction_eq xs ys \<Longrightarrow> list_ex (port_direction_eq q) xs = list_ex (port_direction_eq q) ys"
  by (induction rule: list_all2_induct) (auto simp: port_direction_eq_def)

lemma direction_eq_list_all:
  "list_all2 port_direction_eq xs ys \<Longrightarrow> list_all (has_bond g) xs = list_all (has_bond g) ys"
  by (induction rule: list_all2_induct) (auto simp: port_direction_eq_def has_bond_def corner_cell_def)

lemma sidb_fits_cong:
  assumes "direction_list_eq k p"
  shows "sidb_fits k g = sidb_fits p g"
proof -
  have eq: "list_all2 port_direction_eq (pl_inp k @ pl_out k) (pl_inp p @ pl_out p)"
    and "pl_inp k = [] \<longleftrightarrow> pl_inp p = []" "pl_out k = [] \<longleftrightarrow> pl_out p = []"
    using assms by (auto simp: port_list_eq_def list_all2_appendI)
  then show ?thesis
    unfolding sidb_fits_def direction_eq_list_ex [OF eq] direction_eq_list_all [OF eq] by simp
qed

lemma sidb_table_fit:
  "list_all (\<lambda>(p, g). sidb_fits p g) m \<Longrightarrow> sidb_at m p = Some g \<Longrightarrow> sidb_fits p g"
  unfolding sidb_at_def by (erule table_at_fit [of _ m direction_list_eq p g]) (simp_all add: sidb_fits_cong)

lemma sidb_wire_fit: "sidb_at sidb_WIRE_MAP p = Some g \<Longrightarrow> g = sidb_MIRRORED_STRAIGHT_WIRE \<or> sidb_fits p g"
  using table_at_fit [OF sidb_wires_fit, of direction_list_eq p g] sidb_fits_cong [of _ p g]
  unfolding sidb_at_def by blast

lemma sidb_table_gate:
  "list_all (\<lambda>(p, g). g \<in> set sidb_gates) m \<Longrightarrow> table_at eq m p = Some g \<Longrightarrow> sidb_gate g"
  using table_at_mem [of eq m p g] sidb_gates_ok by (auto simp: list_all_iff)

lemmas sidb_at_gates =
  sidb_tables_gates(1-9) [THEN sidb_table_gate, of direction_list_eq, folded sidb_at_def]

lemma crossing_fit: "crossing_at pp = Some g \<Longrightarrow> sidb_gate g \<and> list_all (has_bond g) corners"
  using table_at_mem [of _ sidb_CROSSING_MAP pp g] sidb_crossings_fit
    sidb_table_gate [OF sidb_tables_gates(10), of _ pp g]
  unfolding crossing_at_def list_all_iff by blast

lemma fits_bonds: "sidb_fits p g \<Longrightarrow> list_all (has_bond g) (pl_inp p @ pl_out p)"
  by (simp add: sidb_fits_def)

lemma corners_bonds:
  "list_all (has_bond g) corners \<Longrightarrow> corner_routing p \<Longrightarrow> list_all (has_bond g) (pl_inp p @ pl_out p)"
  by (auto simp: list_all_iff within_ports_def corners_def sidb_inps_def sidb_outs_def)

section \<open>Properties\<close>

lemma sidb_set_up_gate_fits:
  assumes "sidb_set_up_gate l t = Inr g"
  shows "sidb_gate g \<and>
    (g = sidb_MIRRORED_STRAIGHT_WIRE \<or> is_buf l (get_node_of_tile l t) \<and> \<not> lyt_is_ground_layer l t \<or>
     list_all (has_bond g) (pl_inp (sidb_determine_port_routing l t) @ pl_out (sidb_determine_port_routing l t))) \<and>
    (\<not> is_buf l (get_node_of_tile l t) \<longrightarrow> sidb_fits (sidb_determine_port_routing l t) g)"
proof -
  note fit = sidb_inverters_fit [THEN sidb_table_fit] sidb_fanouts_fit [THEN sidb_table_fit]
    sidb_two_input_gates_fit [THEN sidb_table_fit]
  note corners = corners_bonds [OF _ sidb_routing_corners [of l t]]
  show ?thesis
    using assms fit fit [THEN fits_bonds] sidb_wire_fit [of "sidb_determine_port_routing l t" g] fits_bonds
      sidb_at_gates [of "sidb_determine_port_routing l t" g] crossing_fit [of _ g] corners [of g] empty_gate_ok
    unfolding sidb_set_up_gate_def Let_def
    by (auto simp: or_throw_iff is_fanout_def is_wire_def split: if_splits)
qed

text \<open>C31. Every gate that the Bestagon library returns for a tile is an array of 60 x 46 cells with
  nothing but dangling bonds. It has a bond at the corner cell of each port of the tile, and a gate
  that is no wire has one at no other corner if it has inputs and outputs; the exceptions are the
  empty gate of a wire in the crossing layer and the mirrored straight wire.\<close>

theorem sidb_gate_fits_ports:
  assumes "sidb_set_up_gate l t = Inr g"
  shows "sidb_gate g \<and>
    (g = sidb_MIRRORED_STRAIGHT_WIRE \<or> is_buf l (get_node_of_tile l t) \<and> \<not> lyt_is_ground_layer l t \<or>
     list_all (has_bond g) (pl_inp (sidb_determine_port_routing l t) @ pl_out (sidb_determine_port_routing l t))) \<and>
    (\<not> is_buf l (get_node_of_tile l t) \<longrightarrow> sidb_fits (sidb_determine_port_routing l t) g)"
  using assms by (rule sidb_set_up_gate_fits)

text \<open>A layout for the witnesses: an input and an inverter south-west of it.\<close>

definition inv_layout :: "nat gate_level_layout" where
  "inv_layout = snd (create_not (u64_of_ucoord (ucoord3 1 0 0)) (ucoord3 1 1 0) (snd (create_pi ''a'' (ucoord3 1 0 0)
     (make_gate_level_layout sample_kitty (Hexagonal even_row_hex) (ucoord3 3 3 0)
       (row_clocking (Hexagonal even_row_hex) FOUR) []))))"

lemma inv_layout_routing:
  "gn_function (node_at inv_layout (get_node_of_tile inv_layout (ucoord3 1 1 0))) = 3 \<and>
   sidb_determine_port_routing inv_layout (ucoord3 1 1 0) = direction_ports [port_direction NORTH_EAST] []"
  by code_simp

lemma inv_layout_set_up: "sidb_set_up_gate inv_layout (ucoord3 1 1 0) = Inr sidb_MIRRORED_STRAIGHT_INVERTER"
proof -
  have "sidb_at sidb_INVERTER_MAP (direction_ports [port_direction NORTH_EAST] []) = Some sidb_MIRRORED_STRAIGHT_INVERTER"
    unfolding sidb_at_def sidb_INVERTER_MAP_def
    by (simp add: direction_ports_def make_port_list_def port_list_eq_def port_direction_eq_def port_direction_def)
  then show ?thesis
    using inv_layout_routing
    by (simp add: sidb_set_up_gate_def is_fanout_def is_wire_def is_buf_def is_inv_def or_throw_def)
qed

lemma sidb_gate_fits_ports_witness:
  "has_bond sidb_MIRRORED_STRAIGHT_INVERTER (port_direction NORTH_EAST) \<and> sidb_gate sidb_MIRRORED_STRAIGHT_INVERTER"
  using sidb_gate_fits_ports [OF inv_layout_set_up] inv_layout_routing
  by (simp add: is_buf_def sidb_fits_def direction_ports_def make_port_list_def)

text \<open>C32. The tiles that the Bestagon library can realize: fan-outs with one input and two outputs, wires
  in the crossing layer, crossing wires with one input and one output each that share no port, other
  wires with at most one input and one output, inverters with at most one of each and at least one,
  and the six two-input gates with two inputs and one output. Everything else is reported as an
  unsupported orientation or, for other functions, as an unsupported type.\<close>

theorem sidb_supported_tiles:
  "let n = get_node_of_tile l t; p = sidb_determine_port_routing l t; r = sidb_set_up_gate l t;
       above = lyt_above l t;
       two_inputs = (is_and l n \<or> is_or l n \<or> is_nand l n \<or> is_nor l n \<or> is_xor l n \<or> is_xnor l n);
       supported =
         (if is_fanout l n \<and> fanout_size l n = 2 then routed 1 2 p
          else if is_buf l n then
            (if lyt_is_ground_layer l t then
               (if t \<noteq> above \<and> is_wire_tile l above then crossed p (sidb_determine_port_routing l above)
                else wired p \<or> routed 0 0 p)
             else True)
          else if is_inv l n then wired p
          else two_inputs \<and> routed 2 1 p)
   in if supported then \<exists>g. r = Inr g
      else if is_buf l n \<or> is_inv l n \<or> two_inputs then r = Inl (unsupported_gate_orientation t p)
      else r = Inl (unsupported_gate_type t)"
proof -
  let ?n = "get_node_of_tile l t"
  define F where "F = (is_fanout l ?n \<and> fanout_size l ?n = 2)"
  have fan: "F \<Longrightarrow> is_buf l ?n" by (simp add: F_def is_fanout_def is_wire_def)
  consider "F" | "\<not> F" "is_buf l ?n" | "\<not> F" "\<not> is_buf l ?n" "is_inv l ?n"
    | "\<not> F" "\<not> is_buf l ?n" "\<not> is_inv l ?n"
    using fan by blast
  then show ?thesis
    unfolding sidb_set_up_gate_def Let_def F_def [symmetric]
    by cases (use fan in \<open>simp_all add: or_throw_iff(1,2) sidb_tables_None crossing_at_None del: not_None_eq\<close>)
qed

text \<open>The mirrored gates of the Bestagon library are the reflections of their originals at column 29,
  apart from the straight wire: its mirrored version has its end cells in rows 7 and 39, where every
  other gate has them in rows 6 and 38, and is not its reflection.\<close>

theorem sidb_mirrored_gates:
  "sidb_MIRRORED_DIAGONAL_WIRE = mirror sidb_DIAGONAL_WIRE \<and>
   sidb_MIRRORED_STRAIGHT_INVERTER = mirror sidb_STRAIGHT_INVERTER \<and>
   sidb_MIRRORED_DIAGONAL_INVERTER = mirror sidb_DIAGONAL_INVERTER \<and>
   sidb_MIRRORED_CONJUNCTION = mirror sidb_CONJUNCTION \<and>
   sidb_MIRRORED_DISJUNCTION = mirror sidb_DISJUNCTION \<and>
   sidb_MIRRORED_NEGATED_CONJUNCTION = mirror sidb_NEGATED_CONJUNCTION \<and>
   sidb_MIRRORED_NEGATED_DISJUNCTION = mirror sidb_NEGATED_DISJUNCTION \<and>
   sidb_MIRRORED_EXCLUSIVE_DISJUNCTION = mirror sidb_EXCLUSIVE_DISJUNCTION \<and>
   sidb_MIRRORED_NEGATED_EXCLUSIVE_DISJUNCTION = mirror sidb_NEGATED_EXCLUSIVE_DISJUNCTION \<and>
   sidb_MIRRORED_FANOUT_1_2 = mirror sidb_FANOUT_1_2 \<and>
   gate_at sidb_MIRRORED_STRAIGHT_WIRE 6 42 = SIDB_EMPTY \<and> gate_at sidb_MIRRORED_STRAIGHT_WIRE 7 42 = SIDB_NORMAL \<and>
   gate_at sidb_MIRRORED_STRAIGHT_WIRE 38 42 = SIDB_EMPTY \<and> gate_at sidb_MIRRORED_STRAIGHT_WIRE 39 42 = SIDB_NORMAL \<and>
   gate_at (mirror sidb_STRAIGHT_WIRE) 6 42 = SIDB_NORMAL"
  using mirrors mirrored_straight_wire by simp

end
