(* ===== verification/Bestagon_Layout.thy ===== *)
theory Bestagon_Layout
  imports Bestagon_Library Apply_Gate_Library
begin

text \<open>
  The Bestagon library as an instance of \<open>gate_library\<close>, applied to hexagonal layouts. The rows of a
  hexagonal layout are shifted against each other by half a gate, but the cell-level layout is made
  as wide as a row that is not shifted: the theorem shows that the cells of the last tile of a
  shifted row lie outside the cell-level layout.
\<close>

section \<open>The library\<close>

definition sidb_bestagon_library :: "(unit, 'tt, port_direction gate_error) gate_library" where
  "sidb_bestagon_library =
     \<lparr>lib_technology = sidb_technology, lib_gate_x_size = 60, lib_gate_y_size = 46,
      lib_set_up_gate = sidb_set_up_gate, lib_post_layout_optimization = Some\<rparr>"

lemma sidb_lib_simps [simp]:
  "lib_technology sidb_bestagon_library = sidb_technology" "lib_gate_x_size sidb_bestagon_library = 60"
  "lib_gate_y_size sidb_bestagon_library = 46" "lib_set_up_gate sidb_bestagon_library = sidb_set_up_gate"
  "lib_post_layout_optimization sidb_bestagon_library = Some"
  by (simp_all add: sidb_bestagon_library_def)

section \<open>Rows that are shifted\<close>

definition shifted_row :: "hex_arrangement \<Rightarrow> ucoord_t \<Rightarrow> bool" where
  "shifted_row arr t \<longleftrightarrow> (arr = odd_row_hex \<and> hex_is_in_odd_row t) \<or> (arr = even_row_hex \<and> hex_is_in_even_row t)"

lemma row_origin_y:
  assumes "shifted_row arr t" and "Suc (unat (uy t)) * 46 < 2 ^ 31"
  shows "unat (uy (gate_origin (Hexagonal arr) 60 46 t)) = unat (uy t) * 34"
proof -
  have "unat (uy (gate_origin Cartesian 0 34 t)) = unat (uy t) * unat (34 :: u16)"
    using assms(2) by (intro gate_origin_Cartesian) simp_all
  then have "unat (ucast (ucast (uy t) * 34 :: u64) :: 31 word) = unat (uy t) * 34"
    by (simp add: gate_origin_def ucoord3_def)
  then show ?thesis
    using assms(1) by (auto simp: shifted_row_def gate_origin_def shift_right_def ucoord3_def)
qed

lemma sidb_set_up_gate_array: "sidb_set_up_gate gl t = Inr g \<Longrightarrow> is_gate_array 60 46 g"
  using sidb_set_up_gate_fits [of gl t g] by (simp add: sidb_gate_def)

text \<open>C40. When the Bestagon library is applied to a hexagonal layout with shifted rows, every dangling
  bond in the right half of a gate on the last tile of a shifted row becomes a cell beyond the eastern
  border of the cell-level layout.\<close>

theorem bestagon_cells_leave_layout:
  assumes "lyt_topology gl = Hexagonal arr" and "apply_gate_library sidb_bestagon_library topo gl = Some (Inr l)"
    and "t \<in> tiles_of gl (foreach_node gl)" and "shifted_row arr t" and "ux t = ux (lyt_dimension gl)"
    and "sidb_set_up_gate gl t = Inr g" and "gate_at g y x \<noteq> SIDB_EMPTY" and "30 \<le> x" and "x < 60" and "y < 46"
    and "Suc (unat (ux t)) * 60 + 30 < 2 ^ 31" and "Suc (unat (uy t)) * 46 < 2 ^ 31"
    and "Suc (unat (uy (lyt_dimension gl))) * 46 < 2 ^ 31"
  shows "\<exists>p. get_cell_type sidb_technology l p \<noteq> SIDB_EMPTY \<and> ux p > ux (lyt_dimension l)"
proof -
  let ?L = "sidb_bestagon_library :: (unit, 'a, port_direction gate_error) gate_library"
  let ?o = "gate_origin (Hexagonal arr) 60 46 t"
  let ?p = "gate_pos ?o x y"
  from assms(2) obtain cl where cl: "apply_gates ?L gl (foreach_node gl) (new_cell_layout ?L topo gl) = Inr cl"
    and l: "l = cell_set_layout_name (get_layout_name gl) cl"
    by (auto simp: apply_gate_library_def split: sum.splits)
  have o: "unat (ux ?o) = unat (ux t) * 60 + 30" "unat (uy ?o) = unat (uy t) * 34"
    using shifted_row_origin [of arr t 60 46] assms(4,11) row_origin_y [OF assms(4,12)]
    by (simp_all add: shifted_row_def)
  then have fits: "gate_fits 60 46 ?o"
    using assms(11,12) by (simp add: gate_fits_def)
  have "get_cell_type sidb_technology cl ?p \<noteq> SIDB_EMPTY"
    using sidb.library_cells_nonempty [OF _ cl assms(3) _ sidb_set_up_gate_array [OF assms(6)]] assms(1,6-10) fits
    by simp
  moreover have "lyt_dimension l = lyt_dimension (new_cell_layout ?L topo gl)"
    using apply_gates_dimension [OF cl] by (simp add: l cell_set_layout_name_def)
  moreover have "ux (lyt_dimension (new_cell_layout ?L topo gl)) < ux ?p"
    using new_cell_layout_dimension(1) [of ?L gl topo] gate_pos_simps(1) [OF fits assms(9,10)] o assms(5,8,11,13)
    by (simp add: word_less_nat_alt)
  ultimately show ?thesis
    by (intro exI [of _ ?p]) (simp add: l cell_set_layout_name_def get_cell_type_def)
qed

text \<open>A column of an input and an inverter below it.\<close>

definition column_layout :: "nat gate_level_layout" where
  "column_layout = snd (create_not (u64_of_ucoord (ucoord3 0 0 0)) (ucoord3 0 1 0) (snd (create_pi ''a'' (ucoord3 0 0 0)
     (make_gate_level_layout sample_kitty (Hexagonal even_row_hex) (ucoord3 0 1 0)
       (row_clocking (Hexagonal even_row_hex) FOUR) []))))"

lemma column_layout_facts:
  "let l = column_layout in
   lyt_topology l = Hexagonal even_row_hex \<and> lyt_dimension l = ucoord3 0 1 0 \<and>
   map (get_tile l) (filter (\<lambda>n. \<not> is_constant n) (foreach_node l)) = [ucoord3 0 0 0, ucoord3 0 1 0] \<and>
   gn_function (node_at l (get_node_of_tile l (ucoord3 0 0 0))) = 2 \<and>
   fanout_size l (get_node_of_tile l (ucoord3 0 0 0)) = 1 \<and>
   gn_function (node_at l (get_node_of_tile l (ucoord3 0 1 0))) = 3 \<and>
   sidb_determine_port_routing l (ucoord3 0 0 0) = direction_ports [] [port_direction SOUTH_WEST] \<and>
   sidb_determine_port_routing l (ucoord3 0 1 0) = direction_ports [port_direction NORTH_EAST] [] \<and>
   lyt_above l (ucoord3 0 0 0) = ucoord3 0 0 0"
  by code_simp

lemmas column_facts = column_layout_facts [unfolded Let_def]

lemma column_gates:
  "sidb_set_up_gate column_layout (ucoord3 0 0 0) = Inr sidb_STRAIGHT_WIRE"
  "sidb_set_up_gate column_layout (ucoord3 0 1 0) = Inr sidb_MIRRORED_STRAIGHT_INVERTER"
proof -
  have "sidb_at sidb_WIRE_MAP (direction_ports [] [port_direction SOUTH_WEST]) = Some sidb_STRAIGHT_WIRE"
    unfolding sidb_at_def sidb_WIRE_MAP_def
    by (simp add: direction_ports_def make_port_list_def port_list_eq_def port_direction_eq_def port_direction_def)
  then show "sidb_set_up_gate column_layout (ucoord3 0 0 0) = Inr sidb_STRAIGHT_WIRE"
    using column_facts
    by (simp add: sidb_set_up_gate_def is_fanout_def is_wire_def is_buf_def or_throw_def lyt_is_ground_layer_def
        hex_is_ground_layer_def Let_def) (simp add: ucoord3_def)
  have "sidb_at sidb_INVERTER_MAP (direction_ports [port_direction NORTH_EAST] []) = Some sidb_MIRRORED_STRAIGHT_INVERTER"
    unfolding sidb_at_def sidb_INVERTER_MAP_def
    by (simp add: direction_ports_def make_port_list_def port_list_eq_def port_direction_eq_def port_direction_def)
  then show "sidb_set_up_gate column_layout (ucoord3 0 1 0) = Inr sidb_MIRRORED_STRAIGHT_INVERTER"
    using column_facts
    by (simp add: sidb_set_up_gate_def is_fanout_def is_wire_def is_buf_def is_inv_def or_throw_def)
qed

lemma bestagon_cells_leave_layout_witness:
  "\<exists>l. apply_gate_library sidb_bestagon_library Cartesian column_layout = Some (Inr l) \<and>
     (\<exists>p. get_cell_type sidb_technology l p \<noteq> SIDB_EMPTY \<and> ux p > ux (lyt_dimension l))"
proof -
  have "set (map (get_tile column_layout) (filter (\<lambda>n. \<not> is_constant n) (foreach_node column_layout))) =
      {ucoord3 0 0 0, ucoord3 0 1 0}"
    using column_facts by (simp only: list.set) 
  then have tiles: "tiles_of column_layout (foreach_node column_layout) = {ucoord3 0 0 0, ucoord3 0 1 0}"
    by (simp add: tiles_of_def)
  then have "\<not> isl (apply_gates sidb_bestagon_library column_layout (foreach_node column_layout)
      (new_cell_layout sidb_bestagon_library Cartesian column_layout))"
    by (simp add: apply_gates_fails column_gates)
  then obtain cl where "apply_gates sidb_bestagon_library column_layout (foreach_node column_layout)
      (new_cell_layout sidb_bestagon_library Cartesian column_layout) = Inr cl"
    using sum.collapse(2) by metis
  then obtain l where l: "apply_gate_library sidb_bestagon_library Cartesian column_layout = Some (Inr l)"
    by (simp add: apply_gate_library_def)
  have "gate_at sidb_STRAIGHT_WIRE 6 32 \<noteq> SIDB_EMPTY" by code_simp
  then have "\<exists>p. get_cell_type sidb_technology l p \<noteq> SIDB_EMPTY \<and> ux p > ux (lyt_dimension l)"
    using column_facts tiles
    by (intro bestagon_cells_leave_layout [of column_layout even_row_hex Cartesian l "ucoord3 0 0 0" sidb_STRAIGHT_WIRE 6 32])
      (simp_all add: l column_gates shifted_row_def hex_is_in_even_row_def, simp_all add: ucoord3_def)
  with l show ?thesis by blast
qed

end
