(* ===== verification/INML_Library.thy ===== *)
theory INML_Library
  imports Gate_Library
begin

text \<open>
  Model of \<open>technology/inml_topolinano_library.hpp\<close>: the gates and tables of the ToPoliNano library of
  4 x 4 magnets, the port routing of a tile and \<open>set_up_gate\<close>. The post-layout optimization is in
  \<open>INML_Optimization\<close>.

  The lemmas show that every gate is a 4 x 4 array of magnets, that the wires of the tables have
  magnets at their ports, and which ports the tables cover.
\<close>

definition inml_ports :: "port_position list \<Rightarrow> port_position list \<Rightarrow> port_position port_list" where
  "inml_ports inp out = make_port_list port_position_less inp out"

section \<open>Gates\<close>

definition inml_CONJUNCTION :: fcn_gate where
  "inml_CONJUNCTION = cell_list_to_gate
    [''d   '',
     ''dxxx'',
     ''d   '',
     ''    '']"

definition inml_DISJUNCTION :: fcn_gate where
  "inml_DISJUNCTION = cell_list_to_gate
    [''u   '',
     ''uxxx'',
     ''u   '',
     ''    '']"

definition inml_MAJORITY :: fcn_gate where
  "inml_MAJORITY = cell_list_to_gate
    [''xx  '',
     '' x  '',
     ''xxxx'',
     '' x  '']"

definition inml_LOWER_STRAIGHT_INVERTER :: fcn_gate where
  "inml_LOWER_STRAIGHT_INVERTER = cell_list_to_gate
    [''    '',
     ''    '',
     ''nnnn'',
     ''    '']"

definition inml_BOTTOM_LOWER_STRAIGHT_INVERTER :: fcn_gate where
  "inml_BOTTOM_LOWER_STRAIGHT_INVERTER = cell_list_to_gate
    [''    '',
     ''    '',
     ''nnnn'',
     ''x   '']"

definition inml_UPPER_STRAIGHT_INVERTER :: fcn_gate where
  "inml_UPPER_STRAIGHT_INVERTER = cell_list_to_gate
    [''nnnn'',
     ''    '',
     ''    '',
     ''    '']"

definition inml_TOP_DOWN_BENT_INVERTER :: fcn_gate where
  "inml_TOP_DOWN_BENT_INVERTER = cell_list_to_gate
    [''x   '',
     ''x   '',
     ''nnnn'',
     ''    '']"

definition inml_BOTTOM_UP_BENT_INVERTER :: fcn_gate where
  "inml_BOTTOM_UP_BENT_INVERTER = cell_list_to_gate
    [''nnnn'',
     ''x   '',
     ''x   '',
     ''    '']"

definition inml_BOTTOM_LOWER_UP_BENT_INVERTER :: fcn_gate where
  "inml_BOTTOM_LOWER_UP_BENT_INVERTER = cell_list_to_gate
    [''nnnn'',
     ''x   '',
     ''x   '',
     ''x   '']"

definition inml_CROSSWIRE :: fcn_gate where
  "inml_CROSSWIRE = cell_list_to_gate
    [''c cx'',
     '' c  '',
     ''c cx'',
     ''    '']"

definition inml_COUPLER :: fcn_gate where
  "inml_COUPLER = cell_list_to_gate
    [''ffxx'',
     ''f   '',
     ''ffxx'',
     ''    '']"

definition inml_LOWER_WIRE :: fcn_gate where
  "inml_LOWER_WIRE = cell_list_to_gate
    [''    '',
     ''    '',
     ''xxxx'',
     ''    '']"

definition inml_UPPER_WIRE :: fcn_gate where
  "inml_UPPER_WIRE = cell_list_to_gate
    [''xxxx'',
     ''    '',
     ''    '',
     ''    '']"

definition inml_TOP_DOWN_BENT_WIRE :: fcn_gate where
  "inml_TOP_DOWN_BENT_WIRE = cell_list_to_gate
    [''x   '',
     ''xxx '',
     ''  xx'',
     ''    '']"

definition inml_BOTTOM_UP_BENT_WIRE :: fcn_gate where
  "inml_BOTTOM_UP_BENT_WIRE = cell_list_to_gate
    [''   x'',
     ''xxxx'',
     ''x   '',
     ''    '']"

definition inml_TOP_DOWN_STAIRCASE_WIRE :: fcn_gate where
  "inml_TOP_DOWN_STAIRCASE_WIRE = cell_list_to_gate
    [''x   '',
     ''xxx '',
     ''  x '',
     ''  xx'']"

definition inml_BOTTOM_UP_STAIRCASE_WIRE :: fcn_gate where
  "inml_BOTTOM_UP_STAIRCASE_WIRE = cell_list_to_gate
    [''  xx'',
     ''  x '',
     ''xxx '',
     ''x   '']"

definition inml_BOTTOM_DOWN_BENT_WIRE :: fcn_gate where
  "inml_BOTTOM_DOWN_BENT_WIRE = cell_list_to_gate
    [''    '',
     ''    '',
     ''xxx '',
     ''  xx'']"

definition inml_MAJORITY_WIRE :: fcn_gate where
  "inml_MAJORITY_WIRE = cell_list_to_gate
    [''xx  '',
     ''    '',
     ''    '',
     ''    '']"

definition inml_COUPLER_WIRE :: fcn_gate where
  "inml_COUPLER_WIRE = cell_list_to_gate
    [''    '',
     ''    '',
     ''xxxx'',
     ''x   '']"

section \<open>Tables\<close>

definition inml_WIRE_MAP :: "port_position gate_table" where
  "inml_WIRE_MAP =
    [
     (inml_ports [port_position 0 2] [port_position 3 2], inml_LOWER_WIRE),
     (inml_ports [] [port_position 3 2], inml_LOWER_WIRE),
     (inml_ports [port_position 0 2] [], inml_LOWER_WIRE),
     (inml_ports [port_position 0 0] [port_position 3 0], inml_UPPER_WIRE),
     (inml_ports [] [port_position 3 0], inml_UPPER_WIRE),
     (inml_ports [port_position 0 0] [], inml_UPPER_WIRE),
     (inml_ports [port_position 0 3] [port_position 3 3], rotate_180 inml_UPPER_WIRE),
     (inml_ports [] [port_position 3 3], rotate_180 inml_UPPER_WIRE),
     (inml_ports [port_position 0 3] [], rotate_180 inml_UPPER_WIRE),
     (inml_ports [port_position 0 0] [port_position 3 2], inml_TOP_DOWN_BENT_WIRE),
     (inml_ports [port_position 0 2] [port_position 3 0], inml_BOTTOM_UP_BENT_WIRE),
     (inml_ports [port_position 0 2] [port_position 3 3], inml_BOTTOM_DOWN_BENT_WIRE),
     (inml_ports [port_position 0 0] [port_position 3 3], inml_TOP_DOWN_STAIRCASE_WIRE),
     (inml_ports [port_position 0 3] [port_position 3 0], inml_BOTTOM_UP_STAIRCASE_WIRE),
     (inml_ports [port_position 0 0] [port_position 1 0], inml_MAJORITY_WIRE),
     (inml_ports [port_position 0 3] [port_position 3 2], inml_COUPLER_WIRE)]"

definition inml_INVERTER_MAP :: "port_position gate_table" where
  "inml_INVERTER_MAP =
    [
     (inml_ports [port_position 0 2] [port_position 3 2], inml_LOWER_STRAIGHT_INVERTER),
     (inml_ports [port_position 0 3] [port_position 3 2], inml_BOTTOM_LOWER_STRAIGHT_INVERTER),
     (inml_ports [port_position 0 0] [port_position 3 0], inml_UPPER_STRAIGHT_INVERTER),
     (inml_ports [port_position 0 2] [], inml_LOWER_STRAIGHT_INVERTER),
     (inml_ports [port_position 0 0] [], inml_UPPER_STRAIGHT_INVERTER),
     (inml_ports [] [port_position 3 2], inml_LOWER_STRAIGHT_INVERTER),
     (inml_ports [] [port_position 3 0], inml_UPPER_STRAIGHT_INVERTER),
     (inml_ports [port_position 0 0] [port_position 3 2], inml_TOP_DOWN_BENT_INVERTER),
     (inml_ports [port_position 0 2] [port_position 3 0], inml_BOTTOM_UP_BENT_INVERTER),
     (inml_ports [port_position 0 3] [port_position 3 0], inml_BOTTOM_LOWER_UP_BENT_INVERTER)]"

text \<open>The port at the other end of a row.\<close>

definition opposite_map :: "(port_position \<times> port_position) list" where
  "opposite_map =
    [(port_position 0 0, port_position 3 0), (port_position 0 1, port_position 3 1),
     (port_position 0 2, port_position 3 2), (port_position 0 3, port_position 3 3),
     (port_position 3 0, port_position 0 0), (port_position 3 1, port_position 0 1),
     (port_position 3 2, port_position 0 2), (port_position 3 3, port_position 0 3)]"

definition opposite :: "port_position \<Rightarrow> port_position option" where
  "opposite p = table_at port_position_eq opposite_map p"

section \<open>Ports of a tile\<close>

definition has_and_or_maj_fanin :: "'tt gate_level_layout \<Rightarrow> node \<Rightarrow> bool" where
  "has_and_or_maj_fanin l n =
     list_ex (\<lambda>fi. let fin = get_node l fi in is_and l fin \<or> is_or l fin \<or> is_maj l fin) (foreach_fanin l n)"

definition has_fanout_fanout :: "'tt gate_level_layout \<Rightarrow> node \<Rightarrow> bool" where
  "has_fanout_fanout l n = list_ex (is_fanout l) (foreach_fanout l n)"

abbreviation "add_in x y \<equiv> add_inp port_position_less (port_position x y)"
abbreviation "add_out' x y \<equiv> add_out port_position_less (port_position x y)"

text \<open>Wires within the circuit.\<close>

definition inml_wire_routing :: "'tt gate_level_layout \<Rightarrow> ucoord_t \<Rightarrow> port_position port_list" where
  "inml_wire_routing l t =
     (let n = get_node_of_tile l t;
          p = empty_port_list;
          p = (if has_northern_incoming_signal l t then add_in 0 0 p
               else if has_southern_incoming_signal l t then add_in 0 3 p
               else if has_north_western_incoming_signal l t then add_in 0 0 p
               else if has_south_western_incoming_signal l t then
                 (if has_and_or_maj_fanin l n then add_in 0 3 p else add_in 0 2 p)
               else add_in 0 0 p)
      in if has_northern_outgoing_signal l t then
           (if is_maj l (get_node_of_tile l (lyt_north l t)) then add_out' 1 0 p else add_out' 3 0 p)
         else if has_southern_outgoing_signal l t then add_out' 3 3 p
         else if has_north_eastern_outgoing_signal l t then add_out' 3 0 p
         else if has_south_eastern_outgoing_signal l t then
           (if has_fanout_fanout l n then add_out' 3 3 p else add_out' 3 2 p)
         else add_out' 3 2 p)"

text \<open>Everything else. The output of a primary output is set from its input first; the steps after it
  are those of all these tiles.\<close>

definition inml_po_output :: "'tt gate_level_layout \<Rightarrow> ucoord_t \<Rightarrow> port_position port_list \<Rightarrow> port_position port_list" where
  "inml_po_output l t p =
     (let n = get_node_of_tile l t in
      if is_po l n \<and> \<not> has_and_or_maj_fanin l n then
        (if has_north_western_incoming_signal l t then add_out' 3 0 p
         else if has_south_western_incoming_signal l t then add_out' 3 2 p
         else p)
      else p)"

definition inml_inputs :: "'tt gate_level_layout \<Rightarrow> ucoord_t \<Rightarrow> port_position port_list \<Rightarrow> port_position port_list" where
  "inml_inputs l t p =
     (let n = get_node_of_tile l t;
          p = (if has_north_western_incoming_signal l t then add_in 0 0 p else p)
      in if has_south_western_incoming_signal l t then
           (if is_po l n \<or> is_inv l n then
              (if has_and_or_maj_fanin l n then add_in 0 3 p else add_in 0 2 p)
            else add_in 0 2 p)
         else p)"

definition inml_pi_input :: "'tt gate_level_layout \<Rightarrow> ucoord_t \<Rightarrow> port_position port_list \<Rightarrow> port_position port_list" where
  "inml_pi_input l t p =
     (if is_pi l (get_node_of_tile l t) then
        (if has_north_eastern_outgoing_signal l t then add_in 0 0 p
         else if has_south_eastern_outgoing_signal l t then add_in 0 2 p
         else p)
      else p)"

definition inml_outputs :: "'tt gate_level_layout \<Rightarrow> ucoord_t \<Rightarrow> port_position port_list \<Rightarrow> port_position port_list" where
  "inml_outputs l t p =
     (let n = get_node_of_tile l t;
          p = (if has_north_eastern_outgoing_signal l t then
                 (if is_and l n \<or> is_or l n \<or> is_maj l n then add_out' 3 1 p else add_out' 3 0 p)
               else p)
      in if has_south_eastern_outgoing_signal l t then add_out' 3 2 p else p)"

definition inml_determine_port_routing :: "'tt gate_level_layout \<Rightarrow> ucoord_t \<Rightarrow> port_position port_list" where
  "inml_determine_port_routing l t =
     (let n = get_node_of_tile l t in
      if is_buf l n \<and> \<not> is_pi l n \<and> \<not> is_po l n then inml_wire_routing l t
      else if is_po l n \<and> has_and_or_maj_fanin l n \<and> has_south_western_incoming_signal l t then
        add_out' 3 3 (add_in 0 3 empty_port_list)
      else
        (let p = inml_inputs l t (inml_po_output l t empty_port_list) in
         if is_pi l n \<and> has_fanout_fanout l n then add_out' 3 3 (add_in 0 3 p)
         else inml_outputs l t (inml_pi_input l t p)))"

section \<open>Gates of a tile\<close>

definition inml_at :: "port_position gate_table \<Rightarrow> port_position port_list \<Rightarrow> fcn_gate option" where
  "inml_at m p = table_at (port_list_eq port_position_eq) m p"

text \<open>Marking the input and the output. \<open>opposite\<close> may throw \<open>std::out_of_range\<close>, hence the option.\<close>

definition mark_input :: "port_position port_list \<Rightarrow> fcn_gate \<Rightarrow> fcn_gate option" where
  "mark_input p wire =
     map_option (\<lambda>pos. mark_cell inml_mark wire pos MARK_INPUT)
       (if pl_inp p = [] then opposite (hd (pl_out p)) else Some (hd (pl_inp p)))"

definition mark_output :: "port_position port_list \<Rightarrow> fcn_gate \<Rightarrow> fcn_gate option" where
  "mark_output p wire =
     map_option (\<lambda>pos. mark_cell inml_mark wire pos MARK_OUTPUT)
       (if pl_out p = [] then opposite (hd (pl_inp p)) else Some (hd (pl_out p)))"

definition inml_wire :: "'tt gate_level_layout \<Rightarrow> ucoord_t \<Rightarrow> port_position port_list \<Rightarrow> fcn_gate option" where
  "inml_wire l t p =
     (let n = get_node_of_tile l t; a = lyt_above l t in
      if t \<noteq> a \<and> is_wire_tile l a then Some inml_CROSSWIRE
      else Option.bind (inml_at inml_WIRE_MAP p) (\<lambda>wire.
           Option.bind (if is_pi l n then mark_input p wire else Some wire) (\<lambda>wire.
           if is_po l n then mark_output p wire else Some wire)))"

definition inml_set_up_gate ::
    "'tt gate_level_layout \<Rightarrow> ucoord_t \<Rightarrow> (port_position, fcn_gate) gate_result" where
  "inml_set_up_gate l t =
     (let n = get_node_of_tile l t in
      if is_fanout l n then Inr inml_COUPLER
      else if is_and l n then Inr inml_CONJUNCTION
      else if is_or l n then Inr inml_DISJUNCTION
      else if is_maj l n then Inr inml_MAJORITY
      else
        (let p = inml_determine_port_routing l t;
             orientation = unsupported_gate_orientation t p
         in if is_inv l n then or_throw orientation (inml_at inml_INVERTER_MAP p)
            else if is_buf l n then or_throw orientation (inml_wire l t p)
            else Inl (unsupported_gate_type t)))"

section \<open>The ports of a tile\<close>

definition inml_inps :: "port_position list" where
  "inml_inps = [port_position 0 0, port_position 0 2, port_position 0 3]"

definition inml_outs :: "port_position list" where
  "inml_outs = [port_position 1 0, port_position 3 0, port_position 3 1, port_position 3 2, port_position 3 3]"

interpretation inml_ports: port_routing port_position_less port_position_eq inml_inps inml_outs
  by unfold_locales (code_simp+)

abbreviation "edge_routing \<equiv> within_ports port_position_less inml_inps inml_outs"

lemma edges_mem:
  "port_position 0 0 \<in> set inml_inps" "port_position 0 2 \<in> set inml_inps" "port_position 0 3 \<in> set inml_inps"
  "port_position 1 0 \<in> set inml_outs" "port_position 3 0 \<in> set inml_outs" "port_position 3 1 \<in> set inml_outs"
  "port_position 3 2 \<in> set inml_outs" "port_position 3 3 \<in> set inml_outs"
  by (simp_all add: inml_inps_def inml_outs_def)

lemmas edge_adds = edges_mem(1-3) [THEN inml_ports.within_add(1)] edges_mem(4-8) [THEN inml_ports.within_add(2)]

lemma edge_steps:
  "edge_routing p \<Longrightarrow> edge_routing (inml_po_output l t p)"
  "edge_routing p \<Longrightarrow> edge_routing (inml_inputs l t p)"
  "edge_routing p \<Longrightarrow> edge_routing (inml_pi_input l t p)"
  "edge_routing p \<Longrightarrow> edge_routing (inml_outputs l t p)"
  by (simp_all add: inml_po_output_def inml_inputs_def inml_pi_input_def inml_outputs_def Let_def edge_adds)

lemma inml_routing_edges: "edge_routing (inml_determine_port_routing l t)"
  by (simp add: inml_determine_port_routing_def inml_wire_routing_def Let_def edge_steps edge_adds
      inml_ports.within_empty)

section \<open>Checking the tables\<close>

definition inml_types :: "cell_type list" where
  "inml_types = [INML_EMPTY, INML_NORMAL, INML_INPUT, INML_OUTPUT, SLANTED_EDGE_UP_MAGNET,
     SLANTED_EDGE_DOWN_MAGNET, INVERTER_MAGNET, CROSSWIRE_MAGNET, FANOUT_COUPLER_MAGNET]"

definition inml_gate :: "fcn_gate \<Rightarrow> bool" where
  "inml_gate g = (is_gate_array 4 4 g \<and> list_all (list_all (\<lambda>c. c \<in> set inml_types)) g)"

definition has_magnet :: "fcn_gate \<Rightarrow> port_position \<Rightarrow> bool" where
  "has_magnet g p = (\<not> inml_is_empty_cell (gate_at g (unat (pp_y p)) (unat (pp_x p))))"

definition inml_connects :: "port_position port_list \<Rightarrow> fcn_gate \<Rightarrow> bool" where
  "inml_connects p g = list_all (has_magnet g) (pl_inp p @ pl_out p)"

lemma inml_tables_fit:
  "list_all (\<lambda>(p, g). inml_gate g \<and> inml_connects p g) inml_WIRE_MAP"
  "list_all (\<lambda>(p, g). inml_gate g \<and> inml_connects p g) inml_INVERTER_MAP"
  by code_simp+

lemma inml_gates_ok:
  "list_all inml_gate [inml_COUPLER, inml_CONJUNCTION, inml_DISJUNCTION, inml_MAJORITY, inml_CROSSWIRE]"
  by code_simp

abbreviation "edge_list_eq \<equiv> port_list_eq port_position_eq"

text \<open>A wire within the circuit has one input and one output; the tables lack the wires from the lower
  two inputs to the upper left output, which leads to a majority gate in the north.\<close>

lemma inml_wire_keys:
  "on_all_ports inml_inps inml_outs (\<lambda>p.
     list_ex (\<lambda>k. edge_list_eq k p) (map fst inml_WIRE_MAP) =
     (routed 1 1 p \<and> pl_out p \<noteq> [port_position 3 1] \<and>
        (pl_out p = [port_position 1 0] \<longrightarrow> pl_inp p = [port_position 0 0]) \<or>
      routed 1 0 p \<or> routed 0 1 p \<and> pl_out p \<noteq> [port_position 1 0] \<and> pl_out p \<noteq> [port_position 3 1]))"
  unfolding inml_WIRE_MAP_def list.map fst_conv by code_simp

lemma inml_table_fit:
  assumes "list_all (\<lambda>(p, g). inml_gate g \<and> inml_connects p g) m" and "inml_at m p = Some g"
  shows "inml_gate g \<and> inml_connects p g"
proof (rule table_at_fit [of "\<lambda>p g. inml_gate g \<and> inml_connects p g" m edge_list_eq])
  have cong: "list_all2 port_position_eq xs ys \<Longrightarrow> list_all (has_magnet g) xs = list_all (has_magnet g) ys" for xs ys
    by (induction rule: list_all2_induct) (auto simp: port_position_eq_def has_magnet_def)
  show "(inml_gate g \<and> inml_connects k g) = (inml_gate g \<and> inml_connects p g)" if "edge_list_eq k p" for k
    using that cong [of "pl_inp k" "pl_inp p"] cong [of "pl_out k" "pl_out p"]
    unfolding inml_connects_def port_list_eq_def by simp
qed (use assms in \<open>simp_all add: inml_at_def\<close>)

section \<open>Marks\<close>

definition in_tile :: "port_position \<Rightarrow> bool" where
  "in_tile p \<longleftrightarrow> unat (pp_x p) < 4 \<and> unat (pp_y p) < 4"

definition has_cell :: "cell_type \<Rightarrow> fcn_gate \<Rightarrow> bool" where
  "has_cell c g = list_ex (list_ex (\<lambda>d. d = c)) g"

lemma mark_cell_gate:
  assumes "inml_gate g" and "in_tile p"
  shows "inml_gate (mark_cell inml_mark g p m)" and "has_cell (inml_mark m) (mark_cell inml_mark g p m)"
proof -
  let ?g = "mark_cell inml_mark g p m"
  have arr: "is_gate_array 4 4 g" using assms(1) by (simp add: inml_gate_def)
  then have arr': "is_gate_array 4 4 ?g" by (simp add: mark_cell_def)
  have mark: "inml_mark m \<in> set inml_types" by (cases m) (simp_all add: inml_types_def)
  have at: "gate_at ?g i j = (if i = unat (pp_y p) \<and> j = unat (pp_x p) then inml_mark m else gate_at g i j)" for i j
    using assms(2) gate_at_set [OF arr, of "unat (pp_y p)" "unat (pp_x p)"] by (simp add: mark_cell_def in_tile_def)
  have "gate_at ?g i j \<in> set inml_types" if "i < 4" "j < 4" for i j
    using assms(1) that mark unfolding at by (auto simp: inml_gate_def is_gate_array_def gate_at_def list_all_length)
  then show "inml_gate ?g"
    using arr' by (auto simp: inml_gate_def is_gate_array_def gate_at_def list_all_length)
  have "gate_at ?g (unat (pp_y p)) (unat (pp_x p)) = inml_mark m" by (simp add: at)
  then show "has_cell (inml_mark m) ?g"
    using arr' assms(2) unfolding has_cell_def list_ex_iff in_tile_def is_gate_array_def gate_at_def list_all_length
    by (metis nth_mem)
qed

lemma edges_in_tile: "list_all in_tile (inml_inps @ inml_outs)" "list_all (\<lambda>(a, b). in_tile b) opposite_map"
  by code_simp+

lemma opposite_in_tile: "opposite p = Some q \<Longrightarrow> in_tile q"
  using table_at_mem [of port_position_eq opposite_map p q] edges_in_tile(2)
  by (auto simp: opposite_def list_all_iff)

lemma mark_gate:
  assumes "edge_routing p" and "inml_gate w"
  shows "mark_input p w = Some g \<Longrightarrow> inml_gate g \<and> has_cell INML_INPUT g"
    and "mark_output p w = Some g \<Longrightarrow> inml_gate g \<and> has_cell INML_OUTPUT g"
proof -
  have "in_tile q" if "q \<in> set (pl_inp p @ pl_out p)" for q
    using that assms(1) edges_in_tile(1) by (auto simp: within_ports_def list_all_iff)
  then have hd: "pl_inp p \<noteq> [] \<Longrightarrow> in_tile (hd (pl_inp p))" "pl_out p \<noteq> [] \<Longrightarrow> in_tile (hd (pl_out p))"
    by simp_all
  show "inml_gate g \<and> has_cell INML_INPUT g" if "mark_input p w = Some g"
    using that mark_cell_gate [OF assms(2), of _ MARK_INPUT] hd opposite_in_tile
    by (auto simp: mark_input_def split: if_splits)
  show "inml_gate g \<and> has_cell INML_OUTPUT g" if "mark_output p w = Some g"
    using that mark_cell_gate [OF assms(2), of _ MARK_OUTPUT] hd opposite_in_tile
    by (auto simp: mark_output_def split: if_splits)
qed

section \<open>Properties\<close>

text \<open>C33. Every gate that the ToPoliNano library returns is a 4 x 4 array of iNML magnets. The tile of a
  primary output that is no fan-out and has no wire above it gets an output magnet, and that of a
  primary input that is not also an output gets an input magnet.\<close>

theorem inml_gate_types:
  assumes "inml_set_up_gate l t = Inr g"
  shows "let n = get_node_of_tile l t in inml_gate g \<and>
    (is_buf l n \<and> \<not> is_fanout l n \<and> \<not> (t \<noteq> lyt_above l t \<and> is_wire_tile l (lyt_above l t)) \<longrightarrow>
       (is_po l n \<longrightarrow> has_cell INML_OUTPUT g) \<and> (is_pi l n \<and> \<not> is_po l n \<longrightarrow> has_cell INML_INPUT g))"
proof -
  define n where "n = get_node_of_tile l t"
  let ?p = "inml_determine_port_routing l t"
  note marks = mark_gate [OF inml_routing_edges [of l t]]
  have wire: "inml_gate w" if "inml_at inml_WIRE_MAP ?p = Some w" for w
    using inml_table_fit [OF inml_tables_fit(1) that] by blast
  have inv: "inml_gate w" if "inml_at inml_INVERTER_MAP ?p = Some w" for w
    using inml_table_fit [OF inml_tables_fit(2) that] by blast
  define crossing where "crossing \<longleftrightarrow> t \<noteq> lyt_above l t \<and> is_wire_tile l (lyt_above l t)"
  have "inml_gate g \<and>
      (\<not> crossing \<longrightarrow> (is_po l n \<longrightarrow> has_cell INML_OUTPUT g) \<and> (is_pi l n \<and> \<not> is_po l n \<longrightarrow> has_cell INML_INPUT g))"
    if w: "inml_wire l t ?p = Some g"
  proof (cases crossing)
    case True
    then have "g = inml_CROSSWIRE" using w by (simp add: inml_wire_def crossing_def)
    then show ?thesis using True inml_gates_ok by simp
  next
    case False
    then obtain w1 w2 where "inml_gate w1"
      and w2: "(if is_pi l n then mark_input ?p w1 else Some w1) = Some w2"
      and g: "(if is_po l n then mark_output ?p w2 else Some w2) = Some g"
      using w wire unfolding inml_wire_def Let_def crossing_def [symmetric] n_def [symmetric]
      by (auto simp: bind_eq_Some_conv)
    then have "inml_gate w2 \<and> (is_pi l n \<longrightarrow> has_cell INML_INPUT w2)"
      using marks(1) [of w1 w2] by (cases "is_pi l n") simp_all
    then show ?thesis using g marks(2) [of w2 g] by (cases "is_po l n") simp_all
  qed
  then have "inml_gate g \<and> (is_buf l n \<and> \<not> is_fanout l n \<and> \<not> crossing \<longrightarrow>
      (is_po l n \<longrightarrow> has_cell INML_OUTPUT g) \<and> (is_pi l n \<and> \<not> is_po l n \<longrightarrow> has_cell INML_INPUT g))"
    using assms(1) inv inml_gates_ok unfolding inml_set_up_gate_def Let_def n_def [symmetric]
    by (cases "is_fanout l n"; cases "is_and l n"; cases "is_or l n"; cases "is_maj l n"; cases "is_inv l n";
        cases "is_buf l n")
      (simp_all add: or_throw_iff is_buf_def is_inv_def is_and_def is_or_def is_maj_def)
  then show ?thesis unfolding crossing_def n_def Let_def by blast
qed

lemma maj_layout_inml: "inml_set_up_gate maj_layout (ucoord3 1 1 0) = Inr inml_MAJORITY"
  by (simp add: inml_set_up_gate_def Let_def is_fanout_def is_wire_def is_buf_def is_and_def
      is_or_def is_maj_def maj_layout_function)

lemma inml_gate_types_witness: "inml_gate inml_MAJORITY"
  using inml_gate_types [OF maj_layout_inml] by (simp add: Let_def)

text \<open>A wire within the circuit that is no fan-out and has no wire above it can be realized, with a
  magnet at each of its ports, unless it leads from a southern or south-western tile to a majority
  gate in the north, which is reported as an unsupported orientation.\<close>

theorem inml_wires_supported:
  assumes "is_buf l (get_node_of_tile l t)" and "\<not> is_fanout l (get_node_of_tile l t)"
    and "\<not> is_pi l (get_node_of_tile l t)" and "\<not> is_po l (get_node_of_tile l t)"
    and "\<not> (t \<noteq> lyt_above l t \<and> is_wire_tile l (lyt_above l t))"
  shows "let p = inml_determine_port_routing l t in
    if pl_out p = [port_position 1 0] \<and> pl_inp p \<noteq> [port_position 0 0]
    then inml_set_up_gate l t = Inl (unsupported_gate_orientation t p)
    else \<exists>g. inml_set_up_gate l t = Inr g \<and> inml_connects p g"
proof -
  let ?p = "inml_determine_port_routing l t"
  have kind: "\<not> is_inv l (get_node_of_tile l t)" "\<not> is_and l (get_node_of_tile l t)"
    "\<not> is_or l (get_node_of_tile l t)" "\<not> is_maj l (get_node_of_tile l t)"
    using assms(1) by (simp_all add: is_buf_def is_inv_def is_and_def is_or_def is_maj_def)
  have set_up: "inml_set_up_gate l t = or_throw (unsupported_gate_orientation t ?p) (inml_at inml_WIRE_MAP ?p)"
    using assms(1-4) kind by (simp add: inml_set_up_gate_def inml_wire_def Let_def if_not_P [OF assms(5)])
  have "routed 1 1 ?p \<and> pl_out ?p \<noteq> [port_position 3 1]"
    using assms(1,3,4)
    by (simp add: inml_determine_port_routing_def inml_wire_routing_def Let_def routed_def empty_port_list_def
        add_inp_def add_out_def port_position_def)
  then have "inml_at inml_WIRE_MAP ?p = None \<longleftrightarrow>
      pl_out ?p = [port_position 1 0] \<and> pl_inp ?p \<noteq> [port_position 0 0]"
    using inml_ports.table_None [OF inml_wire_keys inml_routing_edges [of l t]]
    unfolding inml_at_def by (auto simp: routed_def)
  then show ?thesis
    using set_up inml_table_fit [OF inml_tables_fit(1), of ?p]
    by (cases "inml_at inml_WIRE_MAP ?p") (auto simp: or_throw_def Let_def)
qed

definition buf_layout :: "nat gate_level_layout" where
  "buf_layout = snd (create_buf 1 (ucoord3 1 1 0)
     (make_gate_level_layout sample_kitty Cartesian (ucoord3 3 3 0) (open_clocking Cartesian THREE) []))"

lemma buf_layout_facts:
  "let l = buf_layout; t = ucoord3 1 1 0; n = get_node_of_tile l t in
   gn_function (node_at l n) = 2 \<and> \<not> is_fanout l n \<and> \<not> is_pi l n \<and> \<not> is_po l n \<and>
   lyt_above l t = t \<and> pl_out (inml_determine_port_routing l t) = [port_position 3 2]"
  by code_simp

lemma inml_wires_supported_witness:
  "\<exists>g. inml_set_up_gate buf_layout (ucoord3 1 1 0) = Inr g \<and>
     inml_connects (inml_determine_port_routing buf_layout (ucoord3 1 1 0)) g"
  using inml_wires_supported [of buf_layout "ucoord3 1 1 0"] buf_layout_facts unfolding Let_def
  by (simp add: is_buf_def port_position_def)

end
