(* ===== verification/INML_Optimization.thy ===== *)
theory INML_Optimization
  imports INML_Library Apply_Gate_Library
begin

text \<open>
  \<open>post_layout_optimization\<close> of \<open>technology/inml_topolinano_library.hpp\<close>: each pass scans the ground
  layer row by row with a state machine that collects sequences of magnets, and merges a sequence
  with the row below or above if it is a hump; passes are repeated while one of them finds a hump.

  The merging test looks at the range from \<open>hump.begin() + 1\<close> to \<open>hump.end() - 2\<close>, which for two cells
  is not a range: the behaviour is undefined, and \<open>None\<close> in the model. The repetition is a partial
  function whose value is \<open>None\<close> if it does not end. The theorem shows that it always ends, because
  a merge leaves fewer magnets, and that its result is not changed by optimizing it again.
\<close>

type_synonym inml_layout = "unit cell_level_layout"

section \<open>Humps\<close>

abbreviation inml_type :: "inml_layout \<Rightarrow> ucoord_t \<Rightarrow> cell_type" where
  "inml_type \<equiv> get_cell_type inml_technology"

text \<open>\<open>std::all_of(hump.begin() + 1, hump.end() - 2, ...)\<close> on a sequence of at least two cells.\<close>

definition all_of_inner :: "(ucoord_t \<Rightarrow> bool) \<Rightarrow> ucoord_t list \<Rightarrow> bool option" where
  "all_of_inner P hump =
     (if length hump = 2 then None else Some (list_all P (take (length hump - 3) (drop 1 hump))))"

definition merge_down_cell :: "ucoord_t \<Rightarrow> inml_layout \<Rightarrow> inml_layout" where
  "merge_down_cell hc l =
     (let s = lyt_south l hc;
          l1 = (if inml_type l s \<noteq> INVERTER_MAGNET then
                  (let a = assign_cell_type inml_technology s (inml_type l hc) l;
                       b = assign_cell_mode inml_technology s (get_cell_mode inml_technology a hc) a
                   in assign_cell_name s (get_cell_name b hc) b)
                else l);
          l2 = assign_cell_type inml_technology hc INML_EMPTY l1
      in assign_cell_name hc [] l2)"

definition merge_up_cell :: "ucoord_t \<Rightarrow> inml_layout \<Rightarrow> inml_layout" where
  "merge_up_cell hc l =
     (let n = lyt_north l hc;
          a = assign_cell_type inml_technology n (inml_type l hc) l;
          b = assign_cell_mode inml_technology n (get_cell_mode inml_technology a hc) a;
          l1 = assign_cell_name n (get_cell_name b hc) b;
          l2 = assign_cell_type inml_technology hc INML_EMPTY l1
      in assign_cell_name hc [] l2)"

text \<open>The new layout, and whether an improvement was found.\<close>

definition handle_hump :: "ucoord_t list \<Rightarrow> inml_layout \<Rightarrow> (inml_layout \<times> bool) option" where
  "handle_hump hump l =
     (if 1 < length hump then
        (let inp = inml_type l (hd hump); out = inml_type l (last hump);
             fts = inml_type l (lyt_south l (hd hump)); bts = inml_type l (lyt_south l (last hump))
         in if (inp = INML_INPUT \<or> fts = INML_NORMAL) \<and>
               (bts = INML_NORMAL \<or> out = INML_OUTPUT \<or> bts = INVERTER_MAGNET)
            then map_option (\<lambda>b. if b then (fold merge_down_cell hump l, True) else (l, False))
                   (all_of_inner (\<lambda>hc. cell_is_empty_cell inml_technology l (lyt_south l (lyt_south l hc))) hump)
            else
              (let ftn = inml_type l (lyt_north l (hd hump)); btn = inml_type l (lyt_north l (last hump))
               in if (inp = INML_INPUT \<or> ftn = INML_NORMAL) \<and> (btn = INML_NORMAL \<or> out = INML_OUTPUT)
                  then map_option (\<lambda>b. if b then (fold merge_up_cell hump l, True) else (l, False))
                         (all_of_inner (\<lambda>hc. cell_is_empty_cell inml_technology l (lyt_north l (lyt_north l hc))) hump)
                  else Some (l, False)))
      else Some (l, False))"

section \<open>The state machine\<close>

datatype hump_status = SEARCH | COLLECT | SKIP

type_synonym hump_state = "hump_status \<times> ucoord_t list \<times> inml_layout \<times> bool"

definition hump_step :: "ucoord_t \<Rightarrow> hump_state \<Rightarrow> hump_state option" where
  "hump_step c s =
     (case s of (st, hump, l, found) \<Rightarrow>
        (let t = inml_type l c in
         case st of
           SEARCH \<Rightarrow>
             if t = INML_NORMAL \<or> t = INML_INPUT \<or> t = INVERTER_MAGNET then Some (COLLECT, hump @ [c], l, found)
             else if t = INML_EMPTY then Some (SEARCH, hump, l, found)
             else Some (SKIP, hump, l, found)
         | COLLECT \<Rightarrow>
             if t = INML_NORMAL \<or> t = INVERTER_MAGNET then Some (COLLECT, hump @ [c], l, found)
             else if t = INML_EMPTY \<or> t = INML_OUTPUT then
               map_option (\<lambda>(l', b). (SEARCH, [], l', found \<or> b)) (handle_hump hump l)
             else Some (SKIP, [], l, found)
         | SKIP \<Rightarrow>
             if t = INML_EMPTY then Some (SEARCH, hump, l, found) else Some (SKIP, hump, l, found)))"

text \<open>The status lives on from row to row; the collected cells do not.\<close>

definition hump_row :: "nat \<Rightarrow> hump_status \<times> inml_layout \<times> bool \<Rightarrow> (hump_status \<times> inml_layout \<times> bool) option" where
  "hump_row row s =
     (case s of (st, l, found) \<Rightarrow>
        map_option (\<lambda>(st', hump, l', found'). (st', l', found'))
          (fold_option (\<lambda>column. hump_step (ucoord2 (of_nat column) (of_nat row)))
             [0..<Suc (unat (ux (lyt_dimension l)))] (st, [], l, found)))"

definition hump_pass :: "inml_layout \<Rightarrow> (inml_layout \<times> bool) option" where
  "hump_pass l =
     map_option (\<lambda>(st, l', found). (l', found))
       (fold_option hump_row [0..<Suc (unat (uy (lyt_dimension l)))] (SEARCH, l, False))"

text \<open>\<open>None\<close> if the passes do not end, \<open>Some None\<close> if the behaviour is undefined.\<close>

partial_function (option) hump_passes :: "inml_layout \<Rightarrow> inml_layout option option" where
  "hump_passes l =
     (case hump_pass l of
        None \<Rightarrow> Some None
      | Some (l', found) \<Rightarrow> if found then hump_passes l' else Some (Some l'))"

declare hump_passes.simps [code]

definition inml_post_layout_optimization :: "inml_layout \<Rightarrow> inml_layout option" where
  "inml_post_layout_optimization l = Option.bind (hump_passes l) (\<lambda>r. r)"

definition inml_topolinano_library :: "(unit, 'tt, port_position gate_error) gate_library" where
  "inml_topolinano_library =
     \<lparr>lib_technology = inml_technology, lib_gate_x_size = 4, lib_gate_y_size = 4,
      lib_set_up_gate = inml_set_up_gate, lib_post_layout_optimization = inml_post_layout_optimization\<rparr>"

section \<open>Merging leaves fewer magnets\<close>

definition magnets :: "inml_layout \<Rightarrow> ucoord_t set" where
  "magnets l = {c. inml_type l c \<noteq> INML_EMPTY}"

lemma finite_magnets [simp]: "finite (magnets l)"
proof -
  have "magnets l \<subseteq> fst ` set (cll_cell_type_map l)"
    by (auto simp: magnets_def get_cell_type_def split: option.splits dest: map_of_SomeD intro: rev_image_eqI)
  then show ?thesis by (rule finite_subset) simp
qed

text \<open>A step that erases a cell \<open>c\<close> after moving it to \<open>mv c\<close>, unless that cell is kept.\<close>

definition moves_cell :: "(ucoord_t \<Rightarrow> ucoord_t) \<Rightarrow> (ucoord_t \<Rightarrow> inml_layout \<Rightarrow> inml_layout) \<Rightarrow> ucoord_t \<Rightarrow> inml_layout \<Rightarrow> bool" where
  "moves_cell mv f c l \<longleftrightarrow>
     (\<exists>keep. (keep \<longrightarrow> inml_type l (mv c) \<noteq> INML_EMPTY) \<and>
       (\<forall>p. inml_type (f c l) p =
          (if p = c then INML_EMPTY else if p = mv c \<and> \<not> keep then inml_type l c else inml_type l p)))"

lemma magnets_moved:
  assumes "moves_cell mv f c l"
  shows "card (magnets (f c l)) \<le> card (magnets l)"
    and "c \<in> magnets l \<Longrightarrow> mv c \<in> magnets l \<Longrightarrow> card (magnets (f c l)) < card (magnets l)"
    and "\<And>p. p \<noteq> c \<Longrightarrow> p \<noteq> mv c \<Longrightarrow> inml_type (f c l) p = inml_type l p"
proof -
  obtain keep where k: "keep \<Longrightarrow> mv c \<in> magnets l"
    and t: "\<And>p. inml_type (f c l) p =
      (if p = c then INML_EMPTY else if p = mv c \<and> \<not> keep then inml_type l c else inml_type l p)"
    using assms by (auto simp: moves_cell_def magnets_def)
  show "inml_type (f c l) p = inml_type l p" if "p \<noteq> c" "p \<noteq> mv c" for p
    using that by (simp add: t)
  have sub: "magnets (f c l) \<subseteq> (if c \<in> magnets l then insert (mv c) (magnets l) - {c} else magnets l)"
    by (auto simp: magnets_def t split: if_splits)
  then show less: "card (magnets (f c l)) < card (magnets l)" if "c \<in> magnets l" "mv c \<in> magnets l"
    using that psubset_card_mono [of "magnets l" "magnets (f c l)"] by (auto simp: insert_absorb)
  show "card (magnets (f c l)) \<le> card (magnets l)"
  proof (cases "c \<in> magnets l \<and> mv c \<notin> magnets l")
    case True
    then have "card (magnets (f c l)) \<le> card (insert (mv c) (magnets l) - {c})"
      using sub by (intro card_mono) auto
    also have "\<dots> = card (magnets l)" using True by (simp add: card.insert_remove card_Diff_singleton)
    finally show ?thesis .
  next
    case False
    then have "magnets (f c l) \<subseteq> magnets l" using sub by (auto split: if_splits)
    then show ?thesis by (simp add: card_mono)
  qed
qed

lemma fold_moves:
  assumes "\<And>c l. c \<in> set cs \<Longrightarrow> dim l \<Longrightarrow> moves_cell mv f c l \<and> dim (f c l)" and "dim l"
  shows "card (magnets (fold f cs l)) \<le> card (magnets l) \<and> dim (fold f cs l) \<and>
    (\<forall>p. p \<notin> set cs \<longrightarrow> p \<notin> mv ` set cs \<longrightarrow> inml_type (fold f cs l) p = inml_type l p)"
  using assms
proof (induction cs arbitrary: l)
  case (Cons c cs)
  have c: "moves_cell mv f c l" "dim (f c l)" using Cons.prems by simp_all
  have "card (magnets (fold f cs (f c l))) \<le> card (magnets (f c l)) \<and> dim (fold f cs (f c l)) \<and>
    (\<forall>p. p \<notin> set cs \<longrightarrow> p \<notin> mv ` set cs \<longrightarrow> inml_type (fold f cs (f c l)) p = inml_type (f c l) p)"
    using Cons.prems c(2) by (intro Cons.IH) simp_all
  then show ?case
    using magnets_moved(1,3) [OF c(1)] by auto
qed simp

text \<open>The last cell of the sequence is moved onto a magnet.\<close>

lemma fold_moves_less:
  assumes "\<And>c l. c \<in> set cs \<Longrightarrow> dim l \<Longrightarrow> moves_cell mv f c l \<and> dim (f c l)" and "dim l"
    and "cs \<noteq> []" and "distinct cs" and "last cs \<in> magnets l" and "mv (last cs) \<in> magnets l"
    and "(\<forall>c\<in>set cs. mv c = c) \<or> (mv ` set cs \<inter> set cs = {} \<and> inj_on mv (set cs))"
  shows "card (magnets (fold f cs l)) < card (magnets l)"
proof -
  define z where "z = last cs"
  obtain bs where cs: "cs = bs @ [z]" using assms(3) by (metis append_butlast_last_id z_def)
  have bs: "card (magnets (fold f bs l)) \<le> card (magnets l) \<and> dim (fold f bs l) \<and>
    (\<forall>p. p \<notin> set bs \<longrightarrow> p \<notin> mv ` set bs \<longrightarrow> inml_type (fold f bs l) p = inml_type l p)"
    using assms(1,2) by (intro fold_moves) (simp_all add: cs)
  have "z \<notin> set bs" "mv z \<notin> set bs" "z \<notin> mv ` set bs" "mv z \<notin> mv ` set bs"
    using assms(4,7) by (auto simp: cs inj_on_def)
  then have "z \<in> magnets (fold f bs l)" "mv z \<in> magnets (fold f bs l)"
    using bs assms(5,6) by (simp_all add: magnets_def z_def [symmetric])
  then have "card (magnets (f z (fold f bs l))) < card (magnets (fold f bs l))"
    using assms(1) bs by (intro magnets_moved(2) [of mv f z]) (auto simp: cs)
  then show ?thesis using bs by (simp add: cs)
qed

section \<open>Humps are merged\<close>

text \<open>The cells of a hump: magnets of one row, outputs excluded.\<close>

definition is_hump :: "inml_layout \<Rightarrow> u64 \<Rightarrow> ucoord_t list \<Rightarrow> bool" where
  "is_hump l row hump \<longleftrightarrow> distinct hump \<and>
     (\<forall>c\<in>set hump. uy c = ucast row \<and> uy c \<le> uy (lyt_dimension l) \<and>
        inml_type l c \<noteq> INML_EMPTY \<and> inml_type l c \<noteq> INML_OUTPUT)"

definition same_base :: "inml_layout \<Rightarrow> inml_layout \<Rightarrow> bool" where
  "same_base l l' \<longleftrightarrow> lyt_topology l' = lyt_topology l \<and> lyt_dimension l' = lyt_dimension l \<and>
     (cell_wf inml_technology l \<longrightarrow> cell_wf inml_technology l')"

lemma same_base_refl [simp]: "same_base l l"
  by (simp add: same_base_def)

lemma same_base_trans: "same_base a b \<Longrightarrow> same_base b c \<Longrightarrow> same_base a c"
  by (simp add: same_base_def)

lemma assign_ops_wf:
  "cell_wf inml_technology l \<Longrightarrow> cell_wf inml_technology (assign_cell_type inml_technology c ct l)"
  "cell_wf inml_technology l \<Longrightarrow> cell_wf inml_technology (assign_cell_mode inml_technology c m l)"
  "cell_wf inml_technology l \<Longrightarrow> cell_wf inml_technology (assign_cell_name c n l)"
  using inml.apply_wf [of l "Assign_Type c ct"] inml.apply_wf [of l "Assign_Mode c m"]
    inml.apply_wf [of l "Assign_Name c n"] by simp_all

lemma assign_ops_base [simp]:
  "lyt_topology (assign_cell_mode T c m l) = lyt_topology l" "lyt_dimension (assign_cell_mode T c m l) = lyt_dimension l"
  "lyt_topology (assign_cell_name c n l) = lyt_topology l" "lyt_dimension (assign_cell_name c n l) = lyt_dimension l"
  by (simp_all add: assign_cell_mode_def assign_cell_name_def)

lemma merge_cells_base:
  "same_base l (merge_down_cell hc l)" "same_base l (merge_up_cell hc l)"
  by (simp_all add: same_base_def merge_down_cell_def merge_up_cell_def Let_def assign_ops_wf)

lemma merge_cells_move:
  "moves_cell (lyt_south l) merge_down_cell hc l" "moves_cell (lyt_north l) merge_up_cell hc l"
proof -
  have "INVERTER_MAGNET \<noteq> INML_EMPTY" by (simp add: inml_cell_defs)
  then show "moves_cell (lyt_south l) merge_down_cell hc l"
    unfolding moves_cell_def
    by (intro exI [of _ "inml_type l (lyt_south l hc) = INVERTER_MAGNET"])
      (simp add: merge_down_cell_def Let_def inml.get_assign_cell_type)
  show "moves_cell (lyt_north l) merge_up_cell hc l"
    unfolding moves_cell_def
    by (intro exI [of _ False]) (simp add: merge_up_cell_def Let_def inml.get_assign_cell_type)
qed

lemma rows_apart:
  assumes "is_hump l row hump" and "lyt_topology l = Cartesian"
  shows "(\<forall>c\<in>set hump. lyt_south l c = c) \<or> (lyt_south l ` set hump \<inter> set hump = {} \<and> inj_on (lyt_south l) (set hump))"
    and "(\<forall>c\<in>set hump. lyt_north l c = c) \<or> (lyt_north l ` set hump \<inter> set hump = {} \<and> inj_on (lyt_north l) (set hump))"
proof -
  let ?r = "ucast row :: 31 word"
  have r: "?r + 1 \<noteq> ?r" "?r - 1 \<noteq> ?r" by simp_all
  have h: "uy c = ?r \<and> ?r \<le> uy (lyt_dimension l)" if "c \<in> set hump" for c
    using assms(1) that by (auto simp: is_hump_def)
  have inj: "c = d" if "c\<lparr>uy := a\<rparr> = d\<lparr>uy := a\<rparr>" "c \<in> set hump" "d \<in> set hump" for a c d
    using that h by (cases c; cases d) fastforce
  show "(\<forall>c\<in>set hump. lyt_south l c = c) \<or> (lyt_south l ` set hump \<inter> set hump = {} \<and> inj_on (lyt_south l) (set hump))"
  proof (cases "?r < uy (lyt_dimension l)")
    case True
    then have s: "lyt_south l c = c\<lparr>uy := ?r + 1\<rparr>" if "c \<in> set hump" for c
      using h [OF that] assms(2) by (simp add: lyt_south_def cart_south_def cart_y_def)
    have "lyt_south l c \<notin> set hump" if "c \<in> set hump" for c
      using h [of "lyt_south l c"] r by (auto simp: s [OF that])
    moreover have "inj_on (lyt_south l) (set hump)"
      by (rule inj_onI) (use inj s in auto)
    ultimately show ?thesis by blast
  next
    case False
    then have "lyt_south l c = c" if "c \<in> set hump" for c
      using h [OF that] assms(2) by (simp add: lyt_south_def cart_south_def cart_y_def)
    then show ?thesis by blast
  qed
  show "(\<forall>c\<in>set hump. lyt_north l c = c) \<or> (lyt_north l ` set hump \<inter> set hump = {} \<and> inj_on (lyt_north l) (set hump))"
  proof (cases "?r = 0")
    case False
    then have s: "lyt_north l c = c\<lparr>uy := ?r - 1\<rparr>" if "c \<in> set hump" for c
      using h [OF that] assms(2) by (simp add: lyt_north_def cart_north_def)
    have "lyt_north l c \<notin> set hump" if "c \<in> set hump" for c
      using h [of "lyt_north l c"] r by (auto simp: s [OF that])
    moreover have "inj_on (lyt_north l) (set hump)"
      by (rule inj_onI) (use inj s in auto)
    ultimately show ?thesis by blast
  next
    case True
    then have "lyt_north l c = c" if "c \<in> set hump" for c
      using h [OF that] assms(2) by (simp add: lyt_north_def cart_north_def)
    then show ?thesis by blast
  qed
qed

lemma merge_hump:
  assumes "is_hump l row hump" and "lyt_topology l = Cartesian" and "hump \<noteq> []"
  shows "inml_type l (lyt_south l (last hump)) \<noteq> INML_EMPTY \<Longrightarrow>
      card (magnets (fold merge_down_cell hump l)) < card (magnets l)"
    and "inml_type l (lyt_north l (last hump)) \<noteq> INML_EMPTY \<Longrightarrow>
      card (magnets (fold merge_up_cell hump l)) < card (magnets l)"
    and "same_base l (fold merge_down_cell hump l)" "same_base l (fold merge_up_cell hump l)"
proof -
  have move: "lyt_south l' = lyt_south l" "lyt_north l' = lyt_north l" if "same_base l l'" for l'
    using that assms(2) by (auto simp: same_base_def lyt_south_def lyt_north_def fun_eq_iff)
  have step: "moves_cell (lyt_south l) merge_down_cell c l' \<and> same_base l (merge_down_cell c l')"
    "moves_cell (lyt_north l) merge_up_cell c l' \<and> same_base l (merge_up_cell c l')"
    if "same_base l l'" for c l'
    using merge_cells_move [of l' c] merge_cells_base [of l' c] same_base_trans [OF that] move [OF that] by simp_all
  have last: "last hump \<in> magnets l" "distinct hump"
    using assms(1,3) by (simp_all add: is_hump_def magnets_def)
  show "card (magnets (fold merge_down_cell hump l)) < card (magnets l)"
    if "inml_type l (lyt_south l (last hump)) \<noteq> INML_EMPTY"
    using that step last assms(3) rows_apart [OF assms(1,2)]
    by (intro fold_moves_less [of hump "same_base l" "lyt_south l"]) (simp_all add: magnets_def)
  show "card (magnets (fold merge_up_cell hump l)) < card (magnets l)"
    if "inml_type l (lyt_north l (last hump)) \<noteq> INML_EMPTY"
    using that step last assms(3) rows_apart [OF assms(1,2)]
    by (intro fold_moves_less [of hump "same_base l" "lyt_north l"]) (simp_all add: magnets_def)
  show "same_base l (fold merge_down_cell hump l)" "same_base l (fold merge_up_cell hump l)"
    using fold_moves [of hump "same_base l" "lyt_south l" merge_down_cell l]
      fold_moves [of hump "same_base l" "lyt_north l" merge_up_cell l] step by simp_all
qed

lemma handle_hump_less:
  assumes "is_hump l row hump" and "lyt_topology l = Cartesian" and "handle_hump hump l = Some (l', found)"
  shows "same_base l l' \<and> (if found then card (magnets l') < card (magnets l) else l' = l)"
proof -
  have "last hump \<in> set hump" if "1 < length hump" using that by (cases hump) auto
  then have out: "1 < length hump \<Longrightarrow> inml_type l (last hump) \<noteq> INML_OUTPUT"
    using assms(1) by (auto simp: is_hump_def)
  have "hump \<noteq> []" if "1 < length hump" using that by auto
  note m = merge_hump [OF assms(1,2) this]
  have "INVERTER_MAGNET \<noteq> INML_EMPTY" "INML_NORMAL \<noteq> INML_EMPTY" by (simp_all add: inml_cell_defs)
  then show ?thesis
    using assms(3) out m unfolding handle_hump_def Let_def
    by (auto split: if_splits)
qed

section \<open>A pass leaves fewer magnets or nothing changed\<close>

definition improves :: "inml_layout \<Rightarrow> inml_layout \<Rightarrow> bool \<Rightarrow> bool" where
  "improves l l' found \<longleftrightarrow> same_base l l' \<and> (if found then card (magnets l') < card (magnets l) else l' = l)"

lemma improves_refl [simp]: "improves l l False"
  by (simp add: improves_def)

lemma improves_trans: "improves a b x \<Longrightarrow> improves b c y \<Longrightarrow> improves a c (x \<or> y)"
  by (auto simp: improves_def intro: same_base_trans split: if_splits)

definition in_row :: "inml_layout \<Rightarrow> u64 \<Rightarrow> nat \<Rightarrow> hump_state \<Rightarrow> bool" where
  "in_row l0 row column s \<longleftrightarrow> (case s of (st, hump, l, found) \<Rightarrow>
     is_hump l row hump \<and> improves l0 l found \<and> (\<forall>c\<in>set hump. unat (ux c) < column))"

lemma is_hump_Nil [simp]: "is_hump l row []"
  by (simp add: is_hump_def)

lemma ucoord2_sel: "ux (ucoord2 a b) = ucast a" "uy (ucoord2 a b) = ucast b"
  by (simp_all add: ucoord2_def)

lemma hump_step_in_row:
  assumes "in_row l0 (of_nat row) column s" and "lyt_topology l0 = Cartesian"
    and "row \<le> unat (uy (lyt_dimension l0))" and "column \<le> unat (ux (lyt_dimension l0))"
    and "hump_step (ucoord2 (of_nat column) (of_nat row)) s = Some s'"
  shows "in_row l0 (of_nat row) (Suc column) s'"
proof -
  obtain st hump l found where s: "s = (st, hump, l, found)" by (metis surj_pair)
  let ?c = "ucoord2 (of_nat column) (of_nat row)"
  have h: "is_hump l (of_nat row) hump" and i: "improves l0 l found"
    and cols: "\<And>c. c \<in> set hump \<Longrightarrow> unat (ux c) < column"
    using assms(1) by (auto simp: in_row_def s)
  have base: "lyt_topology l = Cartesian" "lyt_dimension l = lyt_dimension l0"
    using i assms(2) by (auto simp: improves_def same_base_def)
  have x: "unat (ux ?c) = column" and y: "uy ?c = ucast (of_nat row :: u64)" "unat (uy ?c) = row"
    using assms(3,4) unat_31_less [of "ux (lyt_dimension l0)"] unat_31_less [of "uy (lyt_dimension l0)"]
    by (simp_all add: ucoord2_sel unat_31_of_u64)
  have push: "is_hump l (of_nat row) (hump @ [?c])"
    if "inml_type l ?c \<noteq> INML_EMPTY" "inml_type l ?c \<noteq> INML_OUTPUT"
    using h that cols [of ?c] x y assms(3) by (auto simp: is_hump_def base word_le_nat_alt)
  have handle: "in_row l0 (of_nat row) (Suc column) (SEARCH, [], l', found \<or> b)"
    if "handle_hump hump l = Some (l', b)" for l' b
    using handle_hump_less [OF h base(1) that] improves_trans [OF i, of l' b]
    by (simp add: in_row_def improves_def)
  have t: "INML_NORMAL \<noteq> INML_OUTPUT" "INVERTER_MAGNET \<noteq> INML_OUTPUT" "INML_INPUT \<noteq> INML_OUTPUT"
    "INML_NORMAL \<noteq> INML_EMPTY" "INVERTER_MAGNET \<noteq> INML_EMPTY" "INML_INPUT \<noteq> INML_EMPTY"
    by (simp_all add: inml_cell_defs)
  have keep: "in_row l0 (of_nat row) (Suc column) (st', hump, l, found)" for st'
    using h i cols by (auto simp: in_row_def less_Suc_eq)
  have add: "in_row l0 (of_nat row) (Suc column) (st', hump @ [?c], l, found)"
    if "inml_type l ?c \<noteq> INML_EMPTY" "inml_type l ?c \<noteq> INML_OUTPUT" for st'
    using push [OF that] i cols x by (auto simp: in_row_def less_Suc_eq)
  have drop: "in_row l0 (of_nat row) (Suc column) (st', [], l, found)" for st'
    using i by (simp add: in_row_def)
  show ?thesis
    using assms(5) handle add keep drop t
    by (auto simp: s hump_step_def Let_def split: if_splits hump_status.splits)
qed

lemma fold_option_invariant:
  assumes "fold_option f [i..<j] s = Some s'" and "P i s" and "i \<le> j"
    and "\<And>k s s'. i \<le> k \<Longrightarrow> k < j \<Longrightarrow> P k s \<Longrightarrow> f k s = Some s' \<Longrightarrow> P (Suc k) s'"
  shows "P j s'"
  using assms
proof (induction "j - i" arbitrary: i s)
  case (Suc n)
  then have "i < j" by simp
  then have up: "[i..<j] = i # [Suc i..<j]" by (simp add: upt_conv_Cons)
  obtain s1 where s1: "f i s = Some s1" "fold_option f [Suc i..<j] s1 = Some s'"
    using Suc.prems(1) by (auto simp: up bind_eq_Some_conv)
  show ?case
    using Suc.hyps(2) s1 Suc.prems(2,4) \<open>i < j\<close>
    by (intro Suc.hyps(1) [OF _ s1(2)]) (simp_all add: Suc_leD)
qed simp

lemma hump_row_improves:
  assumes "improves l0 l found" and "lyt_topology l0 = Cartesian" and "row \<le> unat (uy (lyt_dimension l0))"
    and "hump_row row (st, l, found) = Some (st', l', found')"
  shows "improves l0 l' found'"
proof -
  have dim: "lyt_dimension l = lyt_dimension l0" using assms(1) by (simp add: improves_def same_base_def)
  obtain hump where f: "fold_option (\<lambda>column. hump_step (ucoord2 (of_nat column) (of_nat row)))
      [0..<Suc (unat (ux (lyt_dimension l0)))] (st, [], l, found) = Some (st', hump, l', found')"
    using assms(4) unfolding hump_row_def by (auto simp: dim simp del: upt_Suc)
  have "in_row l0 (of_nat row) (Suc (unat (ux (lyt_dimension l0)))) (st', hump, l', found')"
    by (rule fold_option_invariant [OF f])
      (use assms(1-3) hump_step_in_row in \<open>auto simp: in_row_def less_Suc_eq_le\<close>)
  then show ?thesis by (simp add: in_row_def)
qed

lemma hump_pass_improves:
  assumes "lyt_topology l = Cartesian" and "hump_pass l = Some (l', found)"
  shows "improves l l' found"
proof -
  obtain st where f: "fold_option hump_row [0..<Suc (unat (uy (lyt_dimension l)))] (SEARCH, l, False) = Some (st, l', found)"
    using assms(2) unfolding hump_pass_def by (auto simp del: upt_Suc)
  have "case (st, l', found) of (st, l', found) \<Rightarrow> improves l l' found"
    by (rule fold_option_invariant [OF f, where P = "\<lambda>_ (st, l', found). improves l l' found"])
      (use assms(1) hump_row_improves in \<open>auto simp: less_Suc_eq_le\<close>)
  then show ?thesis by simp
qed

lemma hump_passes_end:
  assumes "lyt_topology l = Cartesian"
  shows "\<exists>r. hump_passes l = Some r \<and> (\<forall>l'. r = Some l' \<longrightarrow>
    same_base l l' \<and> card (magnets l') \<le> card (magnets l) \<and> hump_pass l' = Some (l', False))"
  using assms
proof (induction "card (magnets l)" arbitrary: l rule: less_induct)
  case less
  show ?case
  proof (cases "hump_pass l")
    case None
    then show ?thesis by (simp add: hump_passes.simps [of l])
  next
    case (Some p)
    obtain l1 found where p: "p = (l1, found)" by (cases p)
    note i = hump_pass_improves [OF less.prems Some [unfolded p]]
    show ?thesis
    proof (cases found)
      case True
      then have l1: "card (magnets l1) < card (magnets l)" "lyt_topology l1 = Cartesian" "same_base l l1"
        using i less.prems by (auto simp: improves_def same_base_def)
      from less.hyps [OF l1(1,2)] l1(1,3) same_base_trans [OF l1(3)] show ?thesis
        by (auto simp: hump_passes.simps [of l] Some p True dest: order_trans [rotated, OF less_imp_le])
    next
      case False
      then have "l1 = l" using i by (simp add: improves_def)
      then show ?thesis using Some p False by (simp add: hump_passes.simps [of l])
    qed
  qed
qed

section \<open>Properties\<close>

text \<open>C36. The optimization of ToPoliNano layouts always ends, unless it runs into a sequence of two
  magnets whose test is undefined. Its result has at most as many magnets as the layout had, is
  well formed if the layout was, and is left unchanged when it is optimized again.\<close>

theorem inml_optimization_ends:
  assumes "lyt_topology l = Cartesian"
  shows "\<exists>r. hump_passes l = Some r \<and> (case r of
      None \<Rightarrow> True
    | Some l' \<Rightarrow> card {c. \<not> cell_is_empty_cell inml_technology l' c} \<le> card {c. \<not> cell_is_empty_cell inml_technology l c} \<and>
        (if cell_wf inml_technology l then cell_wf inml_technology l' else True) \<and>
        lyt_dimension l' = lyt_dimension l \<and> inml_post_layout_optimization l' = Some l')"
proof -
  obtain r where r: "hump_passes l = Some r"
    and l': "\<And>l'. r = Some l' \<Longrightarrow>
      same_base l l' \<and> card (magnets l') \<le> card (magnets l) \<and> hump_pass l' = Some (l', False)"
    using hump_passes_end [OF assms] by blast
  have m: "{c. \<not> cell_is_empty_cell inml_technology k c} = magnets k" for k
    by (simp add: magnets_def inml.is_empty_iff)
  show ?thesis
  proof (intro exI conjI)
    show "hump_passes l = Some r" by (rule r)
    show "case r of None \<Rightarrow> True
      | Some l' \<Rightarrow> card {c. \<not> cell_is_empty_cell inml_technology l' c} \<le> card {c. \<not> cell_is_empty_cell inml_technology l c} \<and>
          (if cell_wf inml_technology l then cell_wf inml_technology l' else True) \<and>
          lyt_dimension l' = lyt_dimension l \<and> inml_post_layout_optimization l' = Some l'"
    proof (cases r)
      case (Some k)
      then show ?thesis
        using l' [OF Some] hump_passes.simps [of k] unfolding m
        by (simp add: same_base_def inml_post_layout_optimization_def)
    qed simp
  qed
qed

definition hump_layout :: "ucoord_t \<Rightarrow> ucoord_t list \<Rightarrow> inml_layout" where
  "hump_layout dim cs =
     fold (\<lambda>c. assign_cell_type inml_technology c INML_NORMAL) cs
       (make_cell_level_layout Cartesian dim (columnar_clocking Cartesian THREE) [] 4 4)"

text \<open>An upper hump of three magnets over a gap becomes a straight wire.\<close>

definition sample_hump :: inml_layout where
  "sample_hump = hump_layout (ucoord2 3 2) [ucoord2 0 0, ucoord2 1 0, ucoord2 2 0, ucoord2 0 1, ucoord2 2 1]"

lemma sample_hump_merged:
  "map_option (map_option (\<lambda>l. map fst (cll_cell_type_map l))) (hump_passes sample_hump) =
     Some (Some [ucoord2 0 1, ucoord2 2 1, ucoord2 1 1])"
  by code_simp

lemma inml_optimization_ends_witness:
  "\<exists>l'. hump_passes sample_hump = Some (Some l') \<and>
     card {c. \<not> cell_is_empty_cell inml_technology l' c} \<le> card {c. \<not> cell_is_empty_cell inml_technology sample_hump c} \<and>
     inml_post_layout_optimization l' = Some l'"
proof -
  have "lyt_topology sample_hump = Cartesian" by code_simp
  from inml_optimization_ends [OF this] sample_hump_merged show ?thesis by auto
qed

text \<open>At the borders, where a cell is its own southern or northern neighbour, three magnets in a row
  are taken for a hump and erased; two magnets in parallel to two others lead to undefined behaviour.\<close>

theorem border_wire_erased:
  "map_option (map_option num_cells) (hump_passes (hump_layout (ucoord2 3 0) [ucoord2 0 0, ucoord2 1 0, ucoord2 2 0])) =
     Some (Some 0) \<and>
   map_option (map_option num_cells)
     (hump_passes (hump_layout (ucoord2 3 1) [ucoord2 0 0, ucoord2 1 0, ucoord2 0 1, ucoord2 1 1])) = Some None"
  by code_simp

end
