(* ===== verification/Aspect_Ratio_Iterator.thy ===== *)
theory Aspect_Ratio_Iterator
  imports Coordinates
begin

text \<open>
  Model of \<open>algorithms/iter/aspect_ratio_iterator.hpp\<close>: an iterator over the aspect ratios of \<open>n\<close>
  faces, then those of \<open>n + 1\<close>, and so on. The position \<open>it\<close> in the vector of factors is an index.
  The test \<open>i <= std::sqrt(num)\<close> compares with a rounded square root; the model says \<open>i * i \<le> num\<close>,
  which is the same for all numbers below \<open>2 ^ 52\<close>.

  A copy of an iterator keeps a position in the vector of the original. After the postfix increment
  that position is invalid if the vector was filled anew, and the returned copy is \<open>None\<close>.

  The lemmas show that the factors of a number are exactly the aspect ratios with so many faces,
  and that the iterator reaches every aspect ratio.
\<close>

section \<open>Factorization\<close>

function factor_loop :: "nat \<Rightarrow> nat \<Rightarrow> ucoord_t list \<Rightarrow> ucoord_t list" where
  "factor_loop num i factors =
     (if i * i \<le> num \<and> 0 < i then
        (if num mod i = 0 then
           (let x = i - 1;
                y = num div i - 1;
                factors' = factors @ [ucoord2 (of_nat x) (of_nat y)]
            in factor_loop num (Suc i) (if x \<noteq> y then factors' @ [ucoord2 (of_nat y) (of_nat x)] else factors'))
         else factor_loop num (Suc i) factors)
      else factors)"
  by pat_completeness auto
termination
proof (relation "measure (\<lambda>(num, i, _). Suc num - i)")
  fix num i :: nat
  assume "i * i \<le> num \<and> 0 < i"
  then have "i \<le> num" by (metis le_square le_trans)
  then show "((num, Suc i, f), num, i, g) \<in> measure (\<lambda>(num, i, _). Suc num - i)"
    "((num, Suc i, f), num, i, g) \<in> measure (\<lambda>(num, i, _). Suc num - i)" for f g :: "ucoord_t list"
    by simp_all
qed simp_all

declare factor_loop.simps [simp del]

definition factorize :: "u64 \<Rightarrow> ucoord_t list" where
  "factorize num = factor_loop (unat num) 1 []"

section \<open>The iterator\<close>

record aspect_ratio_iterator =
  ar_num :: u64
  ar_factors :: "ucoord_t list"
  ar_it :: nat

text \<open>The loop of \<open>next\<close> repeats until there are factors.\<close>

partial_function (option) ar_next :: "u64 \<Rightarrow> aspect_ratio_iterator option" where
  "ar_next num =
     (let n = num + 1;
          factors = factorize n
      in if factors = [] then ar_next n else Some \<lparr>ar_num = n, ar_factors = factors, ar_it = 0\<rparr>)"

declare ar_next.simps [code]

definition new_aspect_ratio_iterator :: "u64 \<Rightarrow> aspect_ratio_iterator option" where
  "new_aspect_ratio_iterator n = ar_next (if n \<noteq> 0 then n - 1 else 0)"

definition ar_increment :: "aspect_ratio_iterator \<Rightarrow> aspect_ratio_iterator option" where
  "ar_increment s =
     (let it = Suc (ar_it s)
      in if it = length (ar_factors s) then ar_next (ar_num s) else Some (s\<lparr>ar_it := it\<rparr>))"

definition ar_post_increment :: "aspect_ratio_iterator \<Rightarrow> (aspect_ratio_iterator option \<times> aspect_ratio_iterator) option" where
  "ar_post_increment s =
     map_option (\<lambda>s'. (if Suc (ar_it s) = length (ar_factors s) then None else Some s, s')) (ar_increment s)"

definition ar_deref :: "aspect_ratio_iterator \<Rightarrow> ucoord_t" where
  "ar_deref s = ar_factors s ! ar_it s"

definition ar_eq_num :: "aspect_ratio_iterator \<Rightarrow> u64 \<Rightarrow> bool" where
  "ar_eq_num s m = (ar_num s = m)"

definition ar_eq :: "aspect_ratio_iterator \<Rightarrow> aspect_ratio_iterator \<Rightarrow> bool" where
  "ar_eq s other = (ar_num s = ar_num other \<and> ucoord_eq (ar_deref s) (ar_deref other))"

definition ar_neq_num :: "aspect_ratio_iterator \<Rightarrow> u64 \<Rightarrow> bool" where
  "ar_neq_num s m = (ar_num s \<noteq> m)"

definition ar_neq :: "aspect_ratio_iterator \<Rightarrow> aspect_ratio_iterator \<Rightarrow> bool" where
  "ar_neq s other = (\<not> ar_eq s other)"

definition ar_less_num :: "aspect_ratio_iterator \<Rightarrow> u64 \<Rightarrow> bool" where
  "ar_less_num s m = (ar_num s < m)"

definition ar_less :: "aspect_ratio_iterator \<Rightarrow> aspect_ratio_iterator \<Rightarrow> bool" where
  "ar_less s other = (ar_num s < ar_num other \<or> ar_num s = ar_num other \<and> ucoord_less (ar_deref s) (ar_deref other))"

definition ar_le_num :: "aspect_ratio_iterator \<Rightarrow> u64 \<Rightarrow> bool" where
  "ar_le_num s m = (ar_num s \<le> m)"

definition ar_le :: "aspect_ratio_iterator \<Rightarrow> aspect_ratio_iterator \<Rightarrow> bool" where
  "ar_le s other = (ar_num s \<le> ar_num other \<or> ar_num s = ar_num other \<and> ucoord_le (ar_deref s) (ar_deref other))"

section \<open>The factors of a number\<close>

definition faces :: "ucoord_t \<Rightarrow> nat" where
  "faces c = Suc (unat (ux c)) * Suc (unat (uy c))"

abbreviation ratio :: "nat \<Rightarrow> nat \<Rightarrow> ucoord_t" where
  "ratio x y \<equiv> ucoord2 (of_nat x) (of_nat y)"

lemma factors_split_at:
  fixes a b i num :: nat
  assumes "0 < i" and "i * i \<le> num"
  shows "(a * b = num \<and> i \<le> a \<and> i \<le> b) \<longleftrightarrow> (a * b = num \<and> Suc i \<le> a \<and> Suc i \<le> b) \<or>
    (num mod i = 0 \<and> (a = i \<and> b = num div i \<or> b = i \<and> a = num div i))"
proof -
  have ge: "i \<le> num div i" using assms by (simp add: less_eq_div_iff_mult_less_eq)
  have "a * b = num \<and> i \<le> a \<and> i \<le> b" if "num mod i = 0" "a = i \<and> b = num div i \<or> b = i \<and> a = num div i"
    using that ge by (auto simp: mult.commute)
  moreover have "num mod i = 0 \<and> b = num div i" if "a * b = num" "a = i" using that assms(1) by auto
  moreover have "num mod i = 0 \<and> a = num div i" if "a * b = num" "b = i" using that assms(1) by auto
  ultimately show ?thesis by (auto simp: Suc_le_eq le_less)
qed

lemma factors_split:
  assumes "0 < i" and "i * i \<le> num"
  shows "(Suc x * Suc y = num \<and> i \<le> Suc x \<and> i \<le> Suc y) \<longleftrightarrow>
    (Suc x * Suc y = num \<and> Suc i \<le> Suc x \<and> Suc i \<le> Suc y) \<or>
    (num mod i = 0 \<and> (x = i - 1 \<and> y = num div i - 1 \<or> y = i - 1 \<and> x = num div i - 1))"
proof -
  have "i \<le> num div i" using assms by (simp add: less_eq_div_iff_mult_less_eq)
  then have eqs: "Suc x = i \<longleftrightarrow> x = i - 1" "Suc y = i \<longleftrightarrow> y = i - 1"
    "Suc x = num div i \<longleftrightarrow> x = num div i - 1" "Suc y = num div i \<longleftrightarrow> y = num div i - 1"
    using assms(1) by linarith+
  show ?thesis using factors_split_at [OF assms, of "Suc x" "Suc y"] by (simp only: eqs)
qed

lemma factor_loop_set:
  assumes "0 < i"
  shows "set (factor_loop num i factors) =
    set factors \<union> {ratio x y |x y. Suc x * Suc y = num \<and> i \<le> Suc x \<and> i \<le> Suc y}"
  using assms
proof (induction num i factors rule: factor_loop.induct)
  case (1 num i factors)
  let ?S = "\<lambda>i. {ratio x y |x y. Suc x * Suc y = num \<and> i \<le> Suc x \<and> i \<le> Suc y}"
  show ?case
  proof (cases "i * i \<le> num")
    case True
    note split = factors_split [OF 1(3) True]
    show ?thesis
    proof (cases "num mod i = 0")
      case t: True
      define a b where "a = i - 1" and "b = num div i - 1"
      have "?S i = ?S (Suc i) \<union> {ratio a b, ratio b a}"
        unfolding split a_def [symmetric] b_def [symmetric] by (auto simp: t simp del: mult_Suc mult_Suc_right)
      moreover have "set (factor_loop num (Suc i) (if a \<noteq> b then (factors @ [ratio a b]) @ [ratio b a] else factors @ [ratio a b])) =
          set factors \<union> {ratio a b, ratio b a} \<union> ?S (Suc i)"
        using True 1(3) by (subst 1(1) [OF _ t a_def b_def refl]) auto
      ultimately show ?thesis
        using True 1(3) by (subst factor_loop.simps) (simp only: Let_def t a_def b_def simp_thms if_True Un_ac)
    next
      case f: False
      have "?S i = ?S (Suc i)" unfolding split by (auto simp: f)
      then show ?thesis
        using 1(2) [OF _ f] True 1(3) f by (subst factor_loop.simps) simp
    qed
  next
    case False
    then have "Suc x * Suc y \<noteq> num" if "i \<le> Suc x" "i \<le> Suc y" for x y
      using mult_le_mono [OF that] by auto
    then have e: "?S i = {}" by blast
    have "factor_loop num i factors = factors" using False by (subst factor_loop.simps) simp
    then show ?thesis unfolding e by simp
  qed
qed

lemma ratio_inject:
  assumes "x < 2 ^ 31" "y < 2 ^ 31" "x' < 2 ^ 31" "y' < 2 ^ 31" and "ratio x y = ratio x' y'"
  shows "x = x' \<and> y = y'"
proof -
  have "ux (ratio x y) = ux (ratio x' y')" "uy (ratio x y) = uy (ratio x' y')" using assms(5) by simp_all
  then have "unat (ux (ratio x y)) = unat (ux (ratio x' y'))" "unat (uy (ratio x y)) = unat (uy (ratio x' y'))"
    by simp_all
  then show ?thesis using assms(1-4) by (simp add: ucoord2_def unat_31_of_u64)
qed

lemma factor_below:
  fixes num :: nat
  assumes "Suc x * Suc y = num" and "num \<le> 2 ^ 31"
  shows "x < 2 ^ 31" "y < 2 ^ 31"
proof -
  have "Suc x \<le> num" "Suc y \<le> num" using assms(1) by auto
  then show "x < 2 ^ 31" "y < 2 ^ 31" using assms(2) by simp_all
qed

lemma factor_loop_distinct:
  assumes "0 < i" and "num \<le> 2 ^ 31" and "distinct factors"
    and "\<forall>c\<in>set factors. \<exists>x y. c = ratio x y \<and> Suc x * Suc y = num \<and> (Suc x < i \<or> Suc y < i)"
  shows "distinct (factor_loop num i factors)"
  using assms
proof (induction num i factors rule: factor_loop.induct)
  case (1 num i factors)
  show ?case
  proof (cases "i * i \<le> num")
    case True
    have weak: "\<forall>c\<in>set factors. \<exists>x y. c = ratio x y \<and> Suc x * Suc y = num \<and> (Suc x < Suc i \<or> Suc y < Suc i)"
      using 1(6) less_Suc_eq by blast
    show ?thesis
    proof (cases "num mod i = 0")
      case f: False
      then show ?thesis using 1(2) [OF _ f] 1(3-5) weak True by (subst factor_loop.simps) simp
    next
      case t: True
      define x where "x = i - 1"
      define y where "y = num div i - 1"
      have xy: "Suc x = i" "Suc x * Suc y = num" "i \<le> Suc y"
        using factors_split [OF 1(3) True, of x y] t 1(3) by (auto simp: x_def y_def)
      note b = factor_below [OF xy(2) 1(4)]
      have new: "ratio x y \<notin> set factors" "ratio y x \<notin> set factors"
      proof -
        have old: "Suc a < i \<or> Suc c < i" "a < 2 ^ 31" "c < 2 ^ 31" if "ratio x y = ratio a c \<or> ratio y x = ratio a c"
            "Suc a * Suc c = num" "Suc a < i \<or> Suc c < i" for a c
          using that factor_below [OF that(2) 1(4)] by simp_all
        have "False" if "ratio x y = ratio a c \<or> ratio y x = ratio a c" "Suc a * Suc c = num" "Suc a < i \<or> Suc c < i" for a c
          using that(1) ratio_inject [OF b old(2,3) [OF that]] ratio_inject [OF b(2,1) old(2,3) [OF that]] that(3) xy by auto
        then show "ratio x y \<notin> set factors" "ratio y x \<notin> set factors" using 1(6) by blast+
      qed
      have "ratio x y \<noteq> ratio y x" if "x \<noteq> y" using ratio_inject [OF b b(2,1)] that by auto
      with new have "distinct (if x \<noteq> y then (factors @ [ratio x y]) @ [ratio y x] else factors @ [ratio x y])"
        using 1(5) by (cases "x = y") simp_all
      moreover have "\<exists>a b. ratio x y = ratio a b \<and> Suc a * Suc b = num \<and> (Suc a < Suc i \<or> Suc b < Suc i)"
        "\<exists>a b. ratio y x = ratio a b \<and> Suc a * Suc b = num \<and> (Suc a < Suc i \<or> Suc b < Suc i)"
        using xy by (metis lessI mult.commute)+
      ultimately have "distinct (factor_loop num (Suc i)
          (if x \<noteq> y then (factors @ [ratio x y]) @ [ratio y x] else factors @ [ratio x y]))"
        using weak True 1(3,4) by (intro 1(1) [OF _ t x_def y_def refl]) auto
      then show ?thesis
        using True 1(3) by (subst factor_loop.simps) (simp only: Let_def t x_def y_def simp_thms if_True)
    qed
  next
    case False
    then show ?thesis using 1(5) by (subst factor_loop.simps) simp
  qed
qed

lemma faces_ratio: "Suc x * Suc y = num \<Longrightarrow> num \<le> 2 ^ 31 \<Longrightarrow> faces (ratio x y) = num"
  using factor_below [of x y num] by (simp add: faces_def ucoord2_def unat_31_of_u64)

lemma factorize_set:
  assumes "num \<noteq> 0" and "unat num \<le> 2 ^ 31"
  shows "set (factorize num) = {c. \<not> ud c \<and> uz c = 0 \<and> faces c = unat num}"
proof -
  have "set (factorize num) = {ratio x y |x y. Suc x * Suc y = unat num}"
    by (simp add: factorize_def factor_loop_set)
  also have "\<dots> = {c. \<not> ud c \<and> uz c = 0 \<and> faces c = unat num}"
  proof (intro set_eqI iffI)
    fix c
    assume "c \<in> {ratio x y |x y. Suc x * Suc y = unat num}"
    then show "c \<in> {c. \<not> ud c \<and> uz c = 0 \<and> faces c = unat num}"
      using faces_ratio [OF _ assms(2)] by (auto simp: ucoord2_def simp del: mult_Suc mult_Suc_right)
  next
    fix c
    assume c: "c \<in> {c. \<not> ud c \<and> uz c = 0 \<and> faces c = unat num}"
    then have "c = ratio (unat (ux c)) (unat (uy c))"
      using unat_31_less [of "ux c"] unat_31_less [of "uy c"]
      by (intro ucoord_t.equality) (simp_all add: ucoord2_def ucast_31)
    moreover have "Suc (unat (ux c)) * Suc (unat (uy c)) = unat num" using c by (simp add: faces_def)
    ultimately show "c \<in> {ratio x y |x y. Suc x * Suc y = unat num}" by blast
  qed
  finally show ?thesis .
qed

lemma factorize_nonempty: "num \<noteq> 0 \<Longrightarrow> factorize num \<noteq> []"
proof -
  assume "num \<noteq> 0"
  then have "Suc 0 * Suc (unat num - 1) = unat num" by (simp add: unat_gt_0)
  then have "ratio 0 (unat num - 1) \<in> {ratio x y |x y. Suc x * Suc y = unat num \<and> 1 \<le> Suc x \<and> 1 \<le> Suc y}"
    by (intro CollectI exI [of _ 0] exI [of _ "unat num - 1"]) simp
  then have "ratio 0 (unat num - 1) \<in> set (factorize num)"
    unfolding factorize_def factor_loop_set [OF zero_less_one] by blast
  then show ?thesis by auto
qed

section \<open>Iteration\<close>

definition at_ratio :: "u64 \<Rightarrow> nat \<Rightarrow> aspect_ratio_iterator" where
  "at_ratio num i = \<lparr>ar_num = num, ar_factors = factorize num, ar_it = i\<rparr>"

definition ar_steps :: "nat \<Rightarrow> aspect_ratio_iterator option \<Rightarrow> aspect_ratio_iterator option" where
  "ar_steps k s = ((\<lambda>s. Option.bind s ar_increment) ^^ k) s"

lemma ar_steps_add: "ar_steps (j + k) s = ar_steps j (ar_steps k s)"
  by (simp add: ar_steps_def funpow_add)

lemma ar_next_Some: "num + 1 \<noteq> 0 \<Longrightarrow> ar_next num = Some (at_ratio (num + 1) 0)"
  by (subst ar_next.simps) (simp add: factorize_nonempty at_ratio_def Let_def)

lemma ar_steps_within: "i < length (factorize num) \<Longrightarrow> ar_steps i (Some (at_ratio num 0)) = Some (at_ratio num i)"
  by (induction i) (simp_all add: ar_steps_def ar_increment_def at_ratio_def Let_def)

lemma ar_steps_next:
  assumes "num \<noteq> 0" and "num + 1 \<noteq> 0"
  shows "ar_steps (length (factorize num)) (Some (at_ratio num 0)) = Some (at_ratio (num + 1) 0)"
proof -
  obtain m where m: "length (factorize num) = Suc m"
    using factorize_nonempty [OF assms(1)] by (cases "factorize num") auto
  have "ar_steps (1 + m) (Some (at_ratio num 0)) = ar_steps 1 (Some (at_ratio num m))"
    using ar_steps_within [of m num] by (simp only: ar_steps_add m lessI)
  also have "\<dots> = Some (at_ratio (num + 1) 0)"
    using ar_next_Some [OF assms(2)] m by (simp add: ar_steps_def ar_increment_def at_ratio_def)
  finally show ?thesis by (simp add: m)
qed

lemma ar_steps_reach:
  assumes "n \<noteq> 0" and "unat n + k < 2 ^ 64"
  shows "\<exists>j. ar_steps j (Some (at_ratio n 0)) = Some (at_ratio (n + of_nat k) 0)"
  using assms(2)
proof (induction k)
  case 0
  show ?case by (intro exI [of _ 0]) (simp add: ar_steps_def)
next
  case (Suc k)
  then obtain j where j: "ar_steps j (Some (at_ratio n 0)) = Some (at_ratio (n + of_nat k) 0)" by auto
  have "unat (n + of_nat k) = unat n + k" "unat (n + of_nat k + 1) = unat n + k + 1"
    using Suc.prems by (simp_all add: unat_word_ariths unat_of_nat)
  then have "n + of_nat k \<noteq> 0" "n + of_nat k + 1 \<noteq> 0"
    using assms(1) by (auto simp: unat_eq_0 unat_gt_0)
  from ar_steps_next [OF this] j have
    "ar_steps (length (factorize (n + of_nat k)) + j) (Some (at_ratio n 0)) = Some (at_ratio (n + of_nat (Suc k)) 0)"
    unfolding ar_steps_add j by (simp add: ac_simps)
  then show ?case by blast
qed

section \<open>Properties\<close>

text \<open>C37. The factors that the iterator computes for a number are, without repetition, exactly the
  aspect ratios with so many faces.\<close>

theorem factors_exact:
  assumes "num \<noteq> 0" and "unat num \<le> 2 ^ 31"
  shows "distinct (factorize num) \<and> set (factorize num) = {c. \<not> ud c \<and> uz c = 0 \<and> faces c = unat num}"
  using factor_loop_distinct [of 1 "unat num" "[]"] factorize_set [OF assms] assms(2)
  by (simp add: factorize_def)

lemma factors_exact_witness:
  "distinct (factorize 6) \<and> set (factorize 6) = {c. \<not> ud c \<and> uz c = 0 \<and> faces c = 6} \<and>
   factorize 6 = [ucoord2 0 5, ucoord2 5 0, ucoord2 1 2, ucoord2 2 1]"
proof -
  have "factorize 6 = [ucoord2 0 5, ucoord2 5 0, ucoord2 1 2, ucoord2 2 1]" by code_simp
  then show ?thesis using factors_exact [of 6] by simp
qed

text \<open>C38. Incrementing an iterator that was started with \<open>n\<close> faces reaches every aspect ratio with \<open>n\<close> or
  more faces, up to the \<open>2 ^ 31\<close> faces whose sides a coordinate can hold.\<close>

theorem every_aspect_ratio_reached:
  assumes "n \<noteq> 0" and "\<not> ud c" and "uz c = 0" and "unat n \<le> faces c" and "faces c \<le> 2 ^ 31"
  shows "\<exists>k s. ar_steps k (new_aspect_ratio_iterator n) = Some s \<and> ar_deref s = c \<and> unat (ar_num s) = faces c"
proof -
  define m where "m = n + of_nat (faces c - unat n)"
  have start: "new_aspect_ratio_iterator n = Some (at_ratio n 0)"
    using ar_next_Some [of "n - 1"] assms(1) by (simp add: new_aspect_ratio_iterator_def)
  obtain j where j: "ar_steps j (Some (at_ratio n 0)) = Some (at_ratio m 0)"
    using ar_steps_reach [OF assms(1), of "faces c - unat n"] assms(4,5) by (auto simp: m_def)
  have m: "unat m = faces c"
    using assms(4,5) unfolding m_def by (simp add: unat_word_ariths unat_of_nat)
  have "m \<noteq> 0" using m by (auto simp: faces_def)
  then have "c \<in> set (factorize m)"
    using factorize_set [of m] assms(2,3,5) m by simp
  then obtain i where i: "i < length (factorize m)" "factorize m ! i = c"
    by (auto simp: in_set_conv_nth)
  have "ar_steps (i + j) (new_aspect_ratio_iterator n) = Some (at_ratio m i)"
    using ar_steps_within [OF i(1)] by (simp add: ar_steps_add start j)
  then show ?thesis
    using i(2) m by (intro exI [of _ "i + j"] exI [of _ "at_ratio m i"]) (simp add: ar_deref_def at_ratio_def)
qed

lemma every_aspect_ratio_reached_witness:
  "\<exists>k s. ar_steps k (new_aspect_ratio_iterator 4) = Some s \<and> ar_deref s = ucoord2 2 1 \<and> unat (ar_num s) = 6"
  using every_aspect_ratio_reached [of 4 "ucoord2 2 1"] by (simp add: faces_def ucoord2_def)

text \<open>The order of iterators with the same number of faces is lost in \<open>operator<=\<close>, and the copy that
  the postfix increment returns is unusable at the last factor of a number.\<close>

theorem iterator_quirks:
  "ar_le (at_ratio 6 0) (at_ratio 6 1) \<and> ar_less (at_ratio 6 1) (at_ratio 6 0) \<and>
   map_option (\<lambda>(r, s). (map_option ar_deref r, ar_deref s)) (ar_post_increment (at_ratio 6 2)) =
     Some (Some (ucoord2 1 2), ucoord2 2 1) \<and>
   map_option (\<lambda>(r, s). (map_option ar_deref r, ar_deref s)) (ar_post_increment (at_ratio 6 3)) =
     Some (None, ucoord2 0 6)"
  by code_simp

end
