(* ===== verification/Design_Rules.thy ===== *)
theory Design_Rules
  imports Gate_Level_Flow
begin

text \<open>
  Model of \<open>algorithms/verification/design_rule_violations.hpp\<close>, the checker of gate-level layouts.
  A layout may connect tiles that are not adjacent or not clocked consecutively; the checker counts
  such violations and warnings.

  The JSON report is a list of named sections, each with what was logged to it in order. The stream
  of \<open>gate_level_drv_params\<close> is the list of the lines written, in which a summary keeps its message
  and its two flags instead of colours. Layouts of this model have no synchronization elements, so a
  tile is logged with the element 0. What two of the checks also
  print on the standard output is left out. The counters are natural numbers: a \<open>size_t\<close> cannot overflow
  before the layout exhausts the memory. The check of dead nodes walks over all tiles, which need
  not end (see \<open>Coordinate_Layout\<close>), so it has an optional result.

  The theorems show what a layout without violations satisfies, and that its connections are the
  data flow of the layout.
\<close>

section \<open>Parameters and statistics\<close>

record gate_level_drv_params =
  ps_unplaced_nodes :: bool
  ps_placed_dead_nodes :: bool
  ps_non_adjacent_connections :: bool
  ps_missing_connections :: bool
  ps_crossing_gates :: bool
  ps_clocked_data_flow :: bool
  ps_has_io :: bool
  ps_empty_io :: bool
  ps_io_pins :: bool
  ps_border_io :: bool

definition default_drv_params :: gate_level_drv_params where
  "default_drv_params =
     \<lparr>ps_unplaced_nodes = True, ps_placed_dead_nodes = True, ps_non_adjacent_connections = True,
      ps_missing_connections = True, ps_crossing_gates = True, ps_clocked_data_flow = True,
      ps_has_io = True, ps_empty_io = True, ps_io_pins = True, ps_border_io = True\<rparr>"

text \<open>The entry of a tile: its node, clock number, synchronization element, the directions of its
  incoming and outgoing signals, and whether it is an input or output.\<close>

datatype drv_entry =
  Tile_Entry ucoord_t "u32 option" u8 u32 string string bool bool
| Node_Entry node u32
| Count_Entry string nat

datatype drv_line = Heading string | Summary string bool bool | Totals nat nat

record gate_level_drv_stats =
  st_report :: "(string \<times> drv_entry list) list"
  st_drvs :: nat
  st_warnings :: nat

definition empty_drv_stats :: gate_level_drv_stats where
  "empty_drv_stats = \<lparr>st_report = [], st_drvs = 0, st_warnings = 0\<rparr>"

text \<open>The local variables of a check and the statistics.\<close>

record drv_state =
  dv_ok :: bool
  dv_report :: "drv_entry list"
  dv_stats :: gate_level_drv_stats

definition start_check :: "gate_level_drv_stats \<Rightarrow> drv_state" where
  "start_check st = \<lparr>dv_ok = True, dv_report = [], dv_stats = st\<rparr>"

definition violation :: "drv_entry list \<Rightarrow> drv_state \<Rightarrow> drv_state" where
  "violation es s = s\<lparr>dv_ok := False, dv_report := dv_report s @ es,
     dv_stats := (dv_stats s)\<lparr>st_drvs := st_drvs (dv_stats s) + 1\<rparr>\<rparr>"

definition warning :: "drv_entry list \<Rightarrow> drv_state \<Rightarrow> drv_state" where
  "warning es s = s\<lparr>dv_ok := False, dv_report := dv_report s @ es,
     dv_stats := (dv_stats s)\<lparr>st_warnings := st_warnings (dv_stats s) + 1\<rparr>\<rparr>"

definition end_check :: "string \<Rightarrow> string \<Rightarrow> bool \<Rightarrow> drv_state \<Rightarrow> drv_line \<times> gate_level_drv_stats" where
  "end_check name msg brk s =
     (Summary msg (dv_ok s) brk, (dv_stats s)\<lparr>st_report := st_report (dv_stats s) @ [(name, dv_report s)]\<rparr>)"

section \<open>Logging\<close>

definition log_tile :: "'tt gate_level_layout \<Rightarrow> ucoord_t \<Rightarrow> drv_entry" where
  "log_tile l t =
     Tile_Entry t (if is_empty_tile l t then None else Some (ucast (get_node_of_tile l t))) (get_clock_number l t) 0
       ((if has_northern_incoming_signal l t then ''N'' else '''') @ (if has_eastern_incoming_signal l t then ''E'' else '''') @
        (if has_southern_incoming_signal l t then ''S'' else '''') @ (if has_western_incoming_signal l t then ''W'' else ''''))
       ((if has_northern_outgoing_signal l t then ''N'' else '''') @ (if has_eastern_outgoing_signal l t then ''E'' else '''') @
        (if has_southern_outgoing_signal l t then ''S'' else '''') @ (if has_western_outgoing_signal l t then ''W'' else ''''))
       (is_pi_tile l t) (is_po_tile l t)"

definition log_node :: "node \<Rightarrow> drv_entry" where
  "log_node n = Node_Entry n (ucast n)"

section \<open>The checks\<close>

definition lyt_is_adjacent_elevation_of :: "'a coordinate_layout_scheme \<Rightarrow> ucoord_t \<Rightarrow> ucoord_t \<Rightarrow> bool" where
  "lyt_is_adjacent_elevation_of l c1 c2 = (case hex_base (lyt_topology l) of
     None \<Rightarrow> cart_is_adjacent_elevation_of (lyt_dimension l) c1 c2
   | Some arr \<Rightarrow> hex_is_adjacent_elevation_of arr (lyt_dimension l) c1 c2)"

definition unplaced_nodes_check ::
    "'tt gate_level_layout \<Rightarrow> gate_level_drv_stats \<Rightarrow> drv_line \<times> gate_level_drv_stats" where
  "unplaced_nodes_check l st =
     end_check ''Unplaced nodes'' ''all nodes are properly placed'' False
       (fold (\<lambda>n s. if \<not> is_constant n then
                      if is_dead (get_tile l n) then warning [log_node n] s else s
                    else s)
          (foreach_node l) (start_check st))"

definition placed_dead_nodes_check ::
    "'tt gate_level_layout \<Rightarrow> gate_level_drv_stats \<Rightarrow> (drv_line \<times> gate_level_drv_stats) option" where
  "placed_dead_nodes_check l st =
     map_option (\<lambda>ts.
       end_check ''Dead placed nodes'' ''all placed nodes are alive'' False
         (fold (\<lambda>t s. if \<not> is_empty_tile l t then
                        if node_is_dead l (get_node_of_tile l t) then warning [log_tile l t] s else s
                      else s)
            ts (start_check st)))
       (lyt_coordinates l ucoord_default ucoord_default)"

definition non_adjacent_connections_check ::
    "'tt gate_level_layout \<Rightarrow> gate_level_drv_stats \<Rightarrow> drv_line \<times> gate_level_drv_stats" where
  "non_adjacent_connections_check l st =
     end_check ''Non adjacent connections'' ''all tiles are adjacently connected'' True
       (fold (\<lambda>n s. if \<not> is_constant n then
                      (let t = get_tile l n
                       in fold (\<lambda>child s.
                            (let ct = get_tile l (get_node l child)
                             in if \<not> lyt_is_adjacent_elevation_of l t ct
                                then violation [log_tile l ct, log_tile l t] s else s))
                            (gn_children (node_at l n)) s)
                    else s)
          (foreach_node l) (start_check st))"

definition missing_connections_check ::
    "'tt gate_level_layout \<Rightarrow> gate_level_drv_stats \<Rightarrow> drv_line \<times> gate_level_drv_stats" where
  "missing_connections_check l st =
     end_check ''Missing connections'' ''all occupied tiles are properly connected'' True
       (fold (\<lambda>n s. if \<not> is_constant n then
                      (let t = get_tile l n;
                           r_t = t\<lparr>ux := ux t + 1\<rparr>;
                           dangling_inp_connection = (incoming_set l t = [] \<and> \<not> is_pi_tile l t \<and> \<not> is_ro_tile l t);
                           dangling_out_connection =
                             (outgoing_set l t = [] \<and> \<not> is_po_tile l t \<and> \<not> is_ri_tile l t \<and> \<not> is_ro_tile l r_t)
                       in if dangling_out_connection \<or> dangling_inp_connection then violation [log_tile l t] s else s)
                    else s)
          (foreach_node l) (start_check st))"

definition crossing_gates_check ::
    "'tt gate_level_layout \<Rightarrow> gate_level_drv_stats \<Rightarrow> drv_line \<times> gate_level_drv_stats" where
  "crossing_gates_check l st =
     end_check ''Wires crossing gates'' ''all wire crossings cross over other wires only'' True
       (fold (\<lambda>w s. (let t = get_tile l w
                     in if lyt_is_crossing_layer l t then
                          if \<not> is_wire_tile l (lyt_below l t) then violation [log_tile l t] s else s
                        else s))
          (foreach_wire l) (start_check st))"

definition clocked_data_flow_check ::
    "'tt gate_level_layout \<Rightarrow> gate_level_drv_stats \<Rightarrow> drv_line \<times> gate_level_drv_stats" where
  "clocked_data_flow_check l st =
     end_check ''Improperly clocked tiles'' ''all connected tiles are properly clocked'' True
       (fold (\<lambda>n s. if \<not> is_constant n then
                      (let t = get_tile l n
                       in fold (\<lambda>child s.
                            (let ct = get_tile l (get_node l child)
                             in if \<not> is_incoming_clocked l t ct
                                then violation [log_tile l ct, log_tile l t] s else s))
                            (gn_children (node_at l n)) s)
                    else s)
          (foreach_node l) (start_check st))"

text \<open>The counts are written to the report whether or not they differ.\<close>

definition has_io_check ::
    "'tt gate_level_layout \<Rightarrow> gate_level_drv_stats \<Rightarrow> drv_line \<times> gate_level_drv_stats" where
  "has_io_check l st =
     (let s0 = start_check st;
          num_io = of_nat (length (foreach_pi l)) :: u32;
          s1 = s0\<lparr>dv_report := [Count_Entry ''Specified PIs'' (unat (num_pis l)), Count_Entry ''Counted PIs'' (unat num_io)]\<rparr>;
          s2 = (if num_pis l \<noteq> num_io \<or> num_pis l = 0 \<or> num_io = 0 then violation [] s1 else s1);
          num_io' = of_nat (length (foreach_po l)) :: u32;
          s3 = s2\<lparr>dv_report := dv_report s2 @
                 [Count_Entry ''Specified POs'' (unat (num_pos l)), Count_Entry ''Counted POs'' (unat num_io')]\<rparr>;
          s4 = (if num_pos l \<noteq> num_io' \<or> num_pos l = 0 \<or> num_io' = 0 then violation [] s3 else s3)
      in end_check ''I/O counts'' ''all I/O are properly specified'' True s4)"

text \<open>The nodes of the inputs and outputs, in the order in which the last three checks visit them.\<close>

definition io_nodes :: "'tt gate_level_layout \<Rightarrow> node list" where
  "io_nodes l = foreach_pi l @ map (get_node l) (foreach_po l)"

definition empty_io_check ::
    "'tt gate_level_layout \<Rightarrow> gate_level_drv_stats \<Rightarrow> drv_line \<times> gate_level_drv_stats" where
  "empty_io_check l st =
     end_check ''Empty I/O ports'' ''all I/O ports are assigned to a non-empty tile'' True
       (fold (\<lambda>io s. (let iot = get_tile l io in if is_empty_tile l iot then violation [log_tile l iot] s else s))
          (io_nodes l) (start_check st))"

definition io_pin_check ::
    "'tt gate_level_layout \<Rightarrow> gate_level_drv_stats \<Rightarrow> drv_line \<times> gate_level_drv_stats" where
  "io_pin_check l st =
     end_check ''Gate I/O ports'' ''all I/O ports are realized by designated pins'' False
       (fold (\<lambda>io s. (let iot = get_tile l io in if \<not> is_buf l io then warning [log_tile l iot] s else s))
          (io_nodes l) (start_check st))"

definition border_io_check ::
    "'tt gate_level_layout \<Rightarrow> gate_level_drv_stats \<Rightarrow> drv_line \<times> gate_level_drv_stats" where
  "border_io_check l st =
     end_check ''Border I/O ports'' ''all I/O ports are located at the layout's borders'' False
       (fold (\<lambda>io s. (let iot = get_tile l io in if \<not> lyt_is_at_any_border l iot then warning [log_tile l iot] s else s))
          (io_nodes l) (start_check st))"

section \<open>The checker\<close>

text \<open>\<open>checked b c\<close> runs the check \<open>c\<close> and writes its summary if the parameter \<open>b\<close> is set.\<close>

type_synonym drv_output = "drv_line list \<times> gate_level_drv_stats"

definition checked ::
    "bool \<Rightarrow> (gate_level_drv_stats \<Rightarrow> drv_line \<times> gate_level_drv_stats) \<Rightarrow> drv_output \<Rightarrow> drv_output" where
  "checked b c s = (if b then (let (line, st) = c (snd s) in (fst s @ [line], st)) else s)"

definition heading :: "string \<Rightarrow> drv_output \<Rightarrow> drv_output" where
  "heading h s = (fst s @ [Heading h], snd s)"

definition totals :: "drv_output \<Rightarrow> drv_output" where
  "totals s =
     (let st = snd s
      in (fst s @ [Totals (st_drvs st) (st_warnings st)],
          st\<lparr>st_report := st_report st @ [(''DRVs'', [Count_Entry ''DRVs'' (st_drvs st)]),
            (''Warnings'', [Count_Entry ''Warnings'' (st_warnings st)])]\<rparr>))"

definition gate_level_drvs :: "'tt gate_level_layout \<Rightarrow> gate_level_drv_params \<Rightarrow> drv_output option" where
  "gate_level_drvs l ps =
     (let s1 = checked (ps_unplaced_nodes ps) (unplaced_nodes_check l) (heading ''Topology'' ([], empty_drv_stats));
          r2 = (if ps_placed_dead_nodes ps then
                  map_option (\<lambda>(line, st). (fst s1 @ [line], st)) (placed_dead_nodes_check l (snd s1))
                else Some s1)
      in map_option (\<lambda>s2.
           (let s3 = checked (ps_non_adjacent_connections ps) (non_adjacent_connections_check l) s2;
                s4 = checked (ps_missing_connections ps) (missing_connections_check l) s3;
                s5 = checked (ps_crossing_gates ps) (crossing_gates_check l) s4;
                s6 = checked (ps_clocked_data_flow ps) (clocked_data_flow_check l) (heading ''Clocking'' s5);
                s7 = checked (ps_has_io ps) (has_io_check l) (heading ''I/O ports'' s6);
                s8 = checked (ps_empty_io ps) (empty_io_check l) s7;
                s9 = checked (ps_io_pins ps) (io_pin_check l) s8;
                s10 = checked (ps_border_io ps) (border_io_check l) s9
            in totals s10)) r2)"

section \<open>What the checks count\<close>

lemma fold_conj:
  assumes "\<And>x s. V (f x s) \<longleftrightarrow> V s \<and> Q x"
  shows "V (fold f xs s) \<longleftrightarrow> V s \<and> (\<forall>x\<in>set xs. Q x)"
  by (induction xs arbitrary: s) (auto simp: assms)

definition no_drvs :: "gate_level_drv_stats \<Rightarrow> bool" where
  "no_drvs st = (st_drvs st = 0)"

definition no_warnings :: "gate_level_drv_stats \<Rightarrow> bool" where
  "no_warnings st = (st_warnings st = 0)"

lemma violation_simps [simp]:
  "no_drvs (dv_stats (violation es s)) = False"
  "no_warnings (dv_stats (violation es s)) = no_warnings (dv_stats s)"
  "no_drvs (dv_stats (warning es s)) = no_drvs (dv_stats s)"
  "no_warnings (dv_stats (warning es s)) = False"
  by (simp_all add: no_drvs_def no_warnings_def violation_def warning_def)

lemma end_check_simps [simp]:
  "no_drvs (snd (end_check name msg brk s)) = no_drvs (dv_stats s)"
  "no_warnings (snd (end_check name msg brk s)) = no_warnings (dv_stats s)"
  "dv_stats (start_check st) = st" "dv_stats (s\<lparr>dv_report := r\<rparr>) = dv_stats s"
  by (simp_all add: end_check_def no_drvs_def no_warnings_def start_check_def)

text \<open>The tiles that are connected: the tile of a node and the tile of one of its children.\<close>

definition nodes_of :: "'tt gate_level_layout \<Rightarrow> node set" where
  "nodes_of l = {n \<in> set (foreach_node l). \<not> is_constant n}"

definition child_tiles :: "'tt gate_level_layout \<Rightarrow> node \<Rightarrow> ucoord_t set" where
  "child_tiles l n = (\<lambda>child. get_tile l (get_node l child)) ` set (gn_children (node_at l n))"

definition dangling :: "'tt gate_level_layout \<Rightarrow> ucoord_t \<Rightarrow> bool" where
  "dangling l t \<longleftrightarrow>
     incoming_set l t = [] \<and> \<not> is_pi_tile l t \<and> \<not> is_ro_tile l t \<or>
     outgoing_set l t = [] \<and> \<not> is_po_tile l t \<and> \<not> is_ri_tile l t \<and> \<not> is_ro_tile l (t\<lparr>ux := ux t + 1\<rparr>)"

lemma no_drvs_checks:
  "no_drvs (snd (unplaced_nodes_check l st)) \<longleftrightarrow> no_drvs st"
  "no_drvs (snd (non_adjacent_connections_check l st)) \<longleftrightarrow>
     no_drvs st \<and> (\<forall>n\<in>nodes_of l. \<forall>ct\<in>child_tiles l n. lyt_is_adjacent_elevation_of l (get_tile l n) ct)"
  "no_drvs (snd (missing_connections_check l st)) \<longleftrightarrow>
     no_drvs st \<and> (\<forall>n\<in>nodes_of l. \<not> dangling l (get_tile l n))"
  "no_drvs (snd (crossing_gates_check l st)) \<longleftrightarrow> no_drvs st \<and>
     (\<forall>w\<in>set (foreach_wire l). lyt_is_crossing_layer l (get_tile l w) \<longrightarrow> is_wire_tile l (lyt_below l (get_tile l w)))"
  "no_drvs (snd (clocked_data_flow_check l st)) \<longleftrightarrow>
     no_drvs st \<and> (\<forall>n\<in>nodes_of l. \<forall>ct\<in>child_tiles l n. is_incoming_clocked l (get_tile l n) ct)"
  "no_drvs (snd (empty_io_check l st)) \<longleftrightarrow>
     no_drvs st \<and> (\<forall>io\<in>set (io_nodes l). \<not> is_empty_tile l (get_tile l io))"
  "no_drvs (snd (io_pin_check l st)) \<longleftrightarrow> no_drvs st"
  "no_drvs (snd (border_io_check l st)) \<longleftrightarrow> no_drvs st"
proof -
  show "no_drvs (snd (unplaced_nodes_check l st)) \<longleftrightarrow> no_drvs st"
    unfolding unplaced_nodes_check_def end_check_simps
    by (subst fold_conj [where V = "\<lambda>s. no_drvs (dv_stats s)" and Q = "\<lambda>_. True"]) (simp_all add: Let_def)
  show "no_drvs (snd (io_pin_check l st)) \<longleftrightarrow> no_drvs st"
    unfolding io_pin_check_def end_check_simps
    by (subst fold_conj [where V = "\<lambda>s. no_drvs (dv_stats s)" and Q = "\<lambda>_. True"]) (simp_all add: Let_def)
  show "no_drvs (snd (border_io_check l st)) \<longleftrightarrow> no_drvs st"
    unfolding border_io_check_def end_check_simps
    by (subst fold_conj [where V = "\<lambda>s. no_drvs (dv_stats s)" and Q = "\<lambda>_. True"]) (simp_all add: Let_def)
  show "no_drvs (snd (missing_connections_check l st)) \<longleftrightarrow>
     no_drvs st \<and> (\<forall>n\<in>nodes_of l. \<not> dangling l (get_tile l n))"
    unfolding missing_connections_check_def end_check_simps
    by (subst fold_conj [where V = "\<lambda>s. no_drvs (dv_stats s)" and Q = "\<lambda>n. is_constant n \<or> \<not> dangling l (get_tile l n)"])
      (auto simp: Let_def dangling_def nodes_of_def)
  show "no_drvs (snd (crossing_gates_check l st)) \<longleftrightarrow> no_drvs st \<and>
     (\<forall>w\<in>set (foreach_wire l). lyt_is_crossing_layer l (get_tile l w) \<longrightarrow> is_wire_tile l (lyt_below l (get_tile l w)))"
    unfolding crossing_gates_check_def end_check_simps
    by (subst fold_conj [where V = "\<lambda>s. no_drvs (dv_stats s)" and
          Q = "\<lambda>w. lyt_is_crossing_layer l (get_tile l w) \<longrightarrow> is_wire_tile l (lyt_below l (get_tile l w))"])
      (auto simp: Let_def)
  show "no_drvs (snd (empty_io_check l st)) \<longleftrightarrow>
     no_drvs st \<and> (\<forall>io\<in>set (io_nodes l). \<not> is_empty_tile l (get_tile l io))"
    unfolding empty_io_check_def end_check_simps
    by (subst fold_conj [where V = "\<lambda>s. no_drvs (dv_stats s)" and Q = "\<lambda>io. \<not> is_empty_tile l (get_tile l io)"])
      (auto simp: Let_def)
  have inner: "no_drvs (dv_stats (fold (\<lambda>child s. (let ct = get_tile l (get_node l child)
        in if \<not> R t ct then violation [log_tile l ct, log_tile l t] s else s)) cs s)) \<longleftrightarrow>
      no_drvs (dv_stats s) \<and> (\<forall>child\<in>set cs. R t (get_tile l (get_node l child)))" for R t cs s
    by (rule fold_conj [where V = "\<lambda>s. no_drvs (dv_stats s)" and Q = "\<lambda>child. R t (get_tile l (get_node l child))"])
      (auto simp: Let_def)
  have outer: "no_drvs (dv_stats (fold (\<lambda>n s. if \<not> is_constant n then
        (let t = get_tile l n in fold (\<lambda>child s. (let ct = get_tile l (get_node l child)
          in if \<not> R t ct then violation [log_tile l ct, log_tile l t] s else s)) (gn_children (node_at l n)) s)
        else s) (foreach_node l) (start_check st))) \<longleftrightarrow>
      no_drvs st \<and> (\<forall>n\<in>nodes_of l. \<forall>ct\<in>child_tiles l n. R (get_tile l n) ct)" for R
    by (subst fold_conj [where V = "\<lambda>s. no_drvs (dv_stats s)" and
          Q = "\<lambda>n. is_constant n \<or> (\<forall>ct\<in>child_tiles l n. R (get_tile l n) ct)"])
      (auto simp: Let_def inner [unfolded Let_def] child_tiles_def nodes_of_def)
  show "no_drvs (snd (non_adjacent_connections_check l st)) \<longleftrightarrow>
     no_drvs st \<and> (\<forall>n\<in>nodes_of l. \<forall>ct\<in>child_tiles l n. lyt_is_adjacent_elevation_of l (get_tile l n) ct)"
    unfolding non_adjacent_connections_check_def end_check_simps by (rule outer)
  show "no_drvs (snd (clocked_data_flow_check l st)) \<longleftrightarrow>
     no_drvs st \<and> (\<forall>n\<in>nodes_of l. \<forall>ct\<in>child_tiles l n. is_incoming_clocked l (get_tile l n) ct)"
    unfolding clocked_data_flow_check_def end_check_simps by (rule outer)
qed

lemma no_drvs_has_io:
  "no_drvs (snd (has_io_check l st)) \<longleftrightarrow> no_drvs st \<and>
     num_pis l \<noteq> 0 \<and> num_pis l = of_nat (length (foreach_pi l)) \<and>
     num_pos l \<noteq> 0 \<and> num_pos l = of_nat (length (foreach_po l))"
  by (simp add: has_io_check_def Let_def) auto

lemma no_warnings_checks:
  "no_warnings (snd (unplaced_nodes_check l st)) \<longleftrightarrow>
     no_warnings st \<and> (\<forall>n\<in>nodes_of l. \<not> is_dead (get_tile l n))"
  "no_warnings (snd (io_pin_check l st)) \<longleftrightarrow> no_warnings st \<and> (\<forall>io\<in>set (io_nodes l). is_buf l io)"
  "no_warnings (snd (border_io_check l st)) \<longleftrightarrow>
     no_warnings st \<and> (\<forall>io\<in>set (io_nodes l). lyt_is_at_any_border l (get_tile l io))"
proof -
  show "no_warnings (snd (unplaced_nodes_check l st)) \<longleftrightarrow>
     no_warnings st \<and> (\<forall>n\<in>nodes_of l. \<not> is_dead (get_tile l n))"
    unfolding unplaced_nodes_check_def end_check_simps
    by (subst fold_conj [where V = "\<lambda>s. no_warnings (dv_stats s)" and Q = "\<lambda>n. is_constant n \<or> \<not> is_dead (get_tile l n)"])
      (auto simp: nodes_of_def)
  show "no_warnings (snd (io_pin_check l st)) \<longleftrightarrow> no_warnings st \<and> (\<forall>io\<in>set (io_nodes l). is_buf l io)"
    unfolding io_pin_check_def end_check_simps
    by (subst fold_conj [where V = "\<lambda>s. no_warnings (dv_stats s)" and Q = "is_buf l"]) (auto simp: Let_def)
  show "no_warnings (snd (border_io_check l st)) \<longleftrightarrow>
     no_warnings st \<and> (\<forall>io\<in>set (io_nodes l). lyt_is_at_any_border l (get_tile l io))"
    unfolding border_io_check_def end_check_simps
    by (subst fold_conj [where V = "\<lambda>s. no_warnings (dv_stats s)" and Q = "\<lambda>io. lyt_is_at_any_border l (get_tile l io)"])
      (auto simp: Let_def)
qed

text \<open>The other checks give no warnings.\<close>

lemma fold_same:
  assumes "\<And>x s. V (f x s) = V s"
  shows "V (fold f xs s) = V s"
  by (induction xs arbitrary: s) (simp_all add: assms)

lemma no_warnings_violations [simp]:
  "no_warnings (snd (non_adjacent_connections_check l st)) = no_warnings st"
  "no_warnings (snd (missing_connections_check l st)) = no_warnings st"
  "no_warnings (snd (crossing_gates_check l st)) = no_warnings st"
  "no_warnings (snd (clocked_data_flow_check l st)) = no_warnings st"
  "no_warnings (snd (has_io_check l st)) = no_warnings st"
  "no_warnings (snd (empty_io_check l st)) = no_warnings st"
proof -
  note same = fold_same [where V = "\<lambda>s. no_warnings (dv_stats s)"]
  show "no_warnings (snd (non_adjacent_connections_check l st)) = no_warnings st"
    unfolding non_adjacent_connections_check_def end_check_simps
    by (subst same) (simp_all add: Let_def same)
  show "no_warnings (snd (clocked_data_flow_check l st)) = no_warnings st"
    unfolding clocked_data_flow_check_def end_check_simps
    by (subst same) (simp_all add: Let_def same)
  show "no_warnings (snd (missing_connections_check l st)) = no_warnings st"
    unfolding missing_connections_check_def end_check_simps by (subst same) (simp_all add: Let_def)
  show "no_warnings (snd (crossing_gates_check l st)) = no_warnings st"
    unfolding crossing_gates_check_def end_check_simps by (subst same) (simp_all add: Let_def)
  show "no_warnings (snd (empty_io_check l st)) = no_warnings st"
    unfolding empty_io_check_def end_check_simps by (subst same) (simp_all add: Let_def)
  show "no_warnings (snd (has_io_check l st)) = no_warnings st"
    by (simp add: has_io_check_def Let_def)
qed

lemma placed_dead_nodes:
  assumes "lyt_enumerable l"
  shows "\<exists>line st'. placed_dead_nodes_check l st = Some (line, st') \<and> no_drvs st' = no_drvs st \<and>
    (no_warnings st' \<longleftrightarrow> no_warnings st \<and>
      (\<forall>t. lyt_in_grid l t \<longrightarrow> is_empty_tile l t \<or> \<not> node_is_dead l (get_node_of_tile l t)))"
proof -
  obtain ts where ts: "lyt_coordinates l ucoord_default ucoord_default = Some ts" "set ts = {t. lyt_in_grid l t}"
    using lyt_coordinates_all [OF assms, of ucoord_default ucoord_default] by (auto simp: ucoord_default_def)
  let ?f = "fold (\<lambda>t s. if \<not> is_empty_tile l t then
      if node_is_dead l (get_node_of_tile l t) then warning [log_tile l t] s else s else s) ts (start_check st)"
  have "no_drvs (dv_stats ?f) = no_drvs st"
    by (subst fold_same [where V = "\<lambda>s. no_drvs (dv_stats s)"]) simp_all
  moreover have "no_warnings (dv_stats ?f) \<longleftrightarrow> no_warnings st \<and>
      (\<forall>t. lyt_in_grid l t \<longrightarrow> is_empty_tile l t \<or> \<not> node_is_dead l (get_node_of_tile l t))"
    by (subst fold_conj [where V = "\<lambda>s. no_warnings (dv_stats s)" and
          Q = "\<lambda>t. is_empty_tile l t \<or> \<not> node_is_dead l (get_node_of_tile l t)"]) (auto simp: ts(2))
  ultimately show ?thesis
    unfolding placed_dead_nodes_check_def ts(1) by (auto simp del: end_check_simps simp: end_check_simps(1,2) prod_eq_iff)
qed

lemma checked_simps:
  "V (snd (checked b c s)) \<longleftrightarrow> (if b then V (snd (c (snd s))) else V (snd s))"
  "snd (heading h s) = snd s" "no_drvs (snd (totals s)) = no_drvs (snd s)" "no_warnings (snd (totals s)) = no_warnings (snd s)"
  by (simp_all add: checked_def heading_def totals_def Let_def no_drvs_def no_warnings_def split: prod.split)

section \<open>Layouts without violations\<close>

text \<open>What the enabled checks require.\<close>

definition drv_rules :: "gate_level_drv_params \<Rightarrow> 'tt gate_level_layout \<Rightarrow> bool" where
  "drv_rules ps l \<longleftrightarrow>
     (ps_non_adjacent_connections ps \<longrightarrow>
       (\<forall>n\<in>nodes_of l. \<forall>ct\<in>child_tiles l n. lyt_is_adjacent_elevation_of l (get_tile l n) ct)) \<and>
     (ps_missing_connections ps \<longrightarrow> (\<forall>n\<in>nodes_of l. \<not> dangling l (get_tile l n))) \<and>
     (ps_crossing_gates ps \<longrightarrow> (\<forall>w\<in>set (foreach_wire l).
       lyt_is_crossing_layer l (get_tile l w) \<longrightarrow> is_wire_tile l (lyt_below l (get_tile l w)))) \<and>
     (ps_clocked_data_flow ps \<longrightarrow>
       (\<forall>n\<in>nodes_of l. \<forall>ct\<in>child_tiles l n. is_incoming_clocked l (get_tile l n) ct)) \<and>
     (ps_has_io ps \<longrightarrow> num_pis l \<noteq> 0 \<and> num_pis l = of_nat (length (foreach_pi l)) \<and>
       num_pos l \<noteq> 0 \<and> num_pos l = of_nat (length (foreach_po l))) \<and>
     (ps_empty_io ps \<longrightarrow> (\<forall>io\<in>set (io_nodes l). \<not> is_empty_tile l (get_tile l io)))"

definition drv_practices :: "gate_level_drv_params \<Rightarrow> 'tt gate_level_layout \<Rightarrow> bool" where
  "drv_practices ps l \<longleftrightarrow>
     (ps_unplaced_nodes ps \<longrightarrow> (\<forall>n\<in>nodes_of l. \<not> is_dead (get_tile l n))) \<and>
     (ps_placed_dead_nodes ps \<longrightarrow>
       (\<forall>t. lyt_in_grid l t \<longrightarrow> is_empty_tile l t \<or> \<not> node_is_dead l (get_node_of_tile l t))) \<and>
     (ps_io_pins ps \<longrightarrow> (\<forall>io\<in>set (io_nodes l). is_buf l io)) \<and>
     (ps_border_io ps \<longrightarrow> (\<forall>io\<in>set (io_nodes l). lyt_is_at_any_border l (get_tile l io)))"

lemma gate_level_drvs_counts:
  assumes "lyt_enumerable l"
  shows "\<exists>out st. gate_level_drvs l ps = Some (out, st) \<and> (no_drvs st \<longleftrightarrow> drv_rules ps l) \<and>
    (no_warnings st \<longleftrightarrow> drv_practices ps l)"
proof -
  define s1 where "s1 = checked (ps_unplaced_nodes ps) (unplaced_nodes_check l) (heading ''Topology'' ([], empty_drv_stats))"
  have e: "no_drvs empty_drv_stats" "no_warnings empty_drv_stats"
    by (simp_all add: no_drvs_def no_warnings_def empty_drv_stats_def)
  have s1: "no_drvs (snd s1)" "no_warnings (snd s1) \<longleftrightarrow> (ps_unplaced_nodes ps \<longrightarrow> (\<forall>n\<in>nodes_of l. \<not> is_dead (get_tile l n)))"
    by (simp_all add: s1_def checked_simps no_drvs_checks no_warnings_checks heading_def e)
  obtain s2 where s2: "(if ps_placed_dead_nodes ps then
        map_option (\<lambda>(line, st). (fst s1 @ [line], st)) (placed_dead_nodes_check l (snd s1)) else Some s1) = Some s2"
    and s2': "no_drvs (snd s2)" "no_warnings (snd s2) \<longleftrightarrow> no_warnings (snd s1) \<and> (ps_placed_dead_nodes ps \<longrightarrow>
       (\<forall>t. lyt_in_grid l t \<longrightarrow> is_empty_tile l t \<or> \<not> node_is_dead l (get_node_of_tile l t)))"
  proof (cases "ps_placed_dead_nodes ps")
    case True
    obtain line st' where "placed_dead_nodes_check l (snd s1) = Some (line, st')" "no_drvs st' = no_drvs (snd s1)"
      "no_warnings st' \<longleftrightarrow> no_warnings (snd s1) \<and>
        (\<forall>t. lyt_in_grid l t \<longrightarrow> is_empty_tile l t \<or> \<not> node_is_dead l (get_node_of_tile l t))"
      using placed_dead_nodes [OF assms] by blast
    then show ?thesis using that [of "(fst s1 @ [line], st')"] s1(1) True by simp
  qed (use that [of s1] s1(1) in simp)
  show ?thesis
    unfolding gate_level_drvs_def Let_def s1_def [symmetric] s2
    by (simp add: prod_eq_iff checked_simps no_drvs_checks no_drvs_has_io no_warnings_checks s2' s1 heading_def
        drv_rules_def drv_practices_def)
qed

section \<open>Connections and data flow\<close>

lemma cart_elevation_neighbour:
  assumes "lyt_topology l = Cartesian" and "lyt_in_grid l t" and "lyt_is_adjacent_elevation_of l t ct"
  shows "lyt_in_grid l ct \<and> lyt_neighbour l t (in_column ct t)"
proof -
  have "\<exists>c \<in> {t, lyt_above l t, lyt_below l t}. cart_is_adjacent_of (lyt_dimension l) c ct"
    using assms(1,3) by (auto simp: lyt_is_adjacent_elevation_of_def cart_is_adjacent_elevation_of_def lyt_above_below)
  then obtain c where c: "lyt_in_grid l c" "same_column t c" "cart_is_adjacent_of (lyt_dimension l) c ct"
    unfolding above_below_grid [OF assms(2)] by blast
  then have "lyt_in_grid l ct" "manhattan c ct = 1"
    using cart_is_adjacent_of_iff [of "lyt_dimension l" c ct] by (simp_all add: lyt_in_grid_def)
  moreover have "manhattan t (in_column ct t) = manhattan c ct"
    using c(2) by (simp add: manhattan_def same_column_def in_column_def)
  ultimately show ?thesis
    using assms(1) by (simp add: lyt_neighbour_def in_column_def)
qed

lemma tile_of_node:
  assumes "gl_wf l" and "\<not> ud (get_tile l n)"
  shows "get_node_of_tile l (get_tile l n) = n"
proof -
  obtain s where s: "gl_node_tile_map l n = Some s"
    using assms(2) by (auto simp: get_tile_def ucoord_default_def split: option.splits)
  then have "gl_tile_node_map l s = Some n"
    using assms(1) by (simp add: gl_wf_def placed_wf_def maps_inverse_def)
  then show ?thesis using s by (simp add: get_node_of_tile_def get_node_def get_tile_def)
qed

lemma child_tile_word:
  assumes "gl_wf l" and "\<not> ud (get_tile l (get_node l child))"
  shows "u64_of_ucoord (get_tile l (get_node l child)) = child"
proof (cases "gl_tile_node_map l child")
  case (Some n)
  then have "gl_node_tile_map l n = Some child"
    using assms(1) by (simp add: gl_wf_def placed_wf_def maps_inverse_def)
  then show ?thesis using Some by (simp add: get_node_def get_tile_def)
next
  case None
  then have n: "get_node l child = 0" by (simp add: get_node_def)
  show ?thesis
  proof (cases "gl_node_tile_map l 0")
    case (Some s)
    then have "gl_tile_node_map l s = Some 0"
      using assms(1) by (simp add: gl_wf_def placed_wf_def maps_inverse_def)
    then have "\<not> alive s" using assms(1) unfolding gl_wf_def placed_wf_def by force
    then show ?thesis using assms(2) n Some by (simp add: get_tile_def alive_def)
  qed (use assms(2) n in \<open>simp add: get_tile_def ucoord_default_def\<close>)
qed

lemma rules_give_flow:
  assumes wf: "gl_wf l" and en: "lyt_enumerable l" and uni: "layer_uniform l" and n: "n \<in> nodes_of l"
    and t: "lyt_in_grid l (get_tile l n)"
    and adj: "\<forall>ct\<in>child_tiles l n. lyt_in_grid l ct \<and> lyt_neighbour l (get_tile l n) (in_column ct (get_tile l n))"
    and clk: "\<forall>ct\<in>child_tiles l n. is_incoming_clocked l (get_tile l n) ct"
  shows "set (incoming_set l (get_tile l n)) = child_tiles l n"
proof -
  let ?t = "get_tile l n"
  have node: "get_node_of_tile l ?t = n"
    using tile_of_node [OF wf] t by (simp add: lyt_in_grid_def in_grid_def)
  have word: "u64_of_ucoord (get_tile l (get_node l c)) = c" if "c \<in> set (gn_children (node_at l n))" for c
  proof (rule child_tile_word [OF wf])
    have "get_tile l (get_node l c) \<in> child_tiles l n" using that by (simp add: child_tiles_def)
    then show "\<not> ud (get_tile l (get_node l c))" using adj by (auto simp: lyt_in_grid_def in_grid_def)
  qed
  have flow: "d \<in> set (incoming_set l ?t) \<longleftrightarrow> lyt_in_grid l d \<and> lyt_neighbour l ?t (in_column d ?t) \<and>
      is_incoming_clocked l ?t (in_column d ?t) \<and> u64_of_ucoord d \<in> set (gn_children (node_at l n))" for d
    by (simp add: flow_set(1) [OF en t] node is_child_def)
  show ?thesis
  proof (intro set_eqI iffI)
    fix d
    assume "d \<in> set (incoming_set l ?t)"
    then have u: "u64_of_ucoord d \<in> set (gn_children (node_at l n))" by (simp add: flow)
    have "get_tile l (get_node l (u64_of_ucoord d)) = d" using word [OF u] by simp
    then have "d = get_tile l (get_node l (u64_of_ucoord d))" by simp
    then show "d \<in> child_tiles l n" unfolding child_tiles_def using u by (rule image_eqI)
  next
    fix d
    assume d: "d \<in> child_tiles l n"
    then obtain c where c: "c \<in> set (gn_children (node_at l n))" "d = get_tile l (get_node l c)"
      by (auto simp: child_tiles_def)
    have "?t \<noteq> in_column d ?t" using adj d lyt_neighbour_irrefl by metis
    then have "is_incoming_clocked l ?t (in_column d ?t)"
      using clk d uni by (auto simp: is_incoming_clocked_def layer_uniform_def in_column_def split: if_splits)
    then show "d \<in> set (incoming_set l ?t)" using adj d c word [OF c(1)] by (simp add: flow)
  qed
qed

section \<open>Properties\<close>

declare coord_range.simps [code]

text \<open>C6. The checker returns, and it counts no violations exactly if the layout satisfies the rules of
  all enabled checks, and no warnings exactly if it follows the practices of all enabled checks.\<close>

theorem drvs_exact:
  assumes "lyt_enumerable l"
  shows "\<exists>out st. gate_level_drvs l ps = Some (out, st) \<and> (st_drvs st = 0 \<longleftrightarrow> drv_rules ps l) \<and>
    (st_warnings st = 0 \<longleftrightarrow> drv_practices ps l)"
  using gate_level_drvs_counts [OF assms] by (simp add: no_drvs_def no_warnings_def)

text \<open>C5. In a Cartesian layout without violations, clocked by a pre-defined scheme, the incoming data
  flow of a tile is exactly the tiles of the children of its node: every connection of the network is
  routed, crossing layers included.\<close>

theorem clean_layout_is_routed:
  assumes "gl_wf l" and "lyt_enumerable l" and "lyt_topology l = Cartesian"
    and "get_clocking_scheme Cartesian name = Some (cl_clocking l)"
    and "\<forall>n\<in>nodes_of l. lyt_in_grid l (get_tile l n)"
    and "gate_level_drvs l default_drv_params = Some (out, st)" and "st_drvs st = 0" and "n \<in> nodes_of l"
  shows "set (incoming_set l (get_tile l n)) = child_tiles l n"
proof -
  have "drv_rules default_drv_params l"
    using gate_level_drvs_counts [OF assms(2), of default_drv_params] assms(6,7) by (simp add: no_drvs_def)
  then have rules: "\<forall>ct\<in>child_tiles l n. lyt_is_adjacent_elevation_of l (get_tile l n) ct"
    "\<forall>ct\<in>child_tiles l n. is_incoming_clocked l (get_tile l n) ct"
    using assms(8) by (simp_all add: drv_rules_def default_drv_params_def)
  show ?thesis
    using rules cart_elevation_neighbour [OF assms(3)] assms(5,8) lookup_layer_uniform [of l name] assms(3,4)
    by (intro rules_give_flow [OF assms(1,2)]) (simp_all, blast)
qed

text \<open>A wire of an input and an output.\<close>

definition wire_layout :: "nat gate_level_layout" where
  "wire_layout = snd (create_po (u64_of_ucoord (ucoord3 0 0 0)) ''f'' (ucoord3 1 0 0) (snd (create_pi ''a'' (ucoord3 0 0 0)
     (make_gate_level_layout sample_kitty Cartesian (ucoord3 1 0 0) (twoddwave_clocking Cartesian FOUR) []))))"

lemma wire_layout_drvs:
  "let l = wire_layout in lyt_topology l = Cartesian \<and> lyt_dimension l = ucoord3 1 0 0 \<and>
    map_option (\<lambda>(out, st). (st_drvs st, st_warnings st)) (gate_level_drvs l default_drv_params) = Some (0, 0) \<and>
    map (get_tile l) (filter (\<lambda>n. \<not> is_constant n) (foreach_node l)) = [ucoord3 0 0 0, ucoord3 1 0 0]"
  by code_simp

lemma wire_layout_wf: "gl_wf wire_layout"
proof -
  let ?l0 = "make_gate_level_layout sample_kitty Cartesian (ucoord3 1 0 0) (twoddwave_clocking Cartesian FOUR) []"
  let ?l1 = "snd (create_pi ''a'' (ucoord3 0 0 0) ?l0)"
  have n1: "length (gl_nodes ?l1) = 3" by (simp add: creates_length [OF create_pi_creates] make_length)
  have "gl_wf ?l1" by (rule create_wf(1) [OF make_wf]) (simp add: room_def make_length)
  then show ?thesis unfolding wire_layout_def by (rule create_wf(3)) (simp add: room_def n1)
qed

lemma wire_layout_shape:
  "lyt_topology wire_layout = Cartesian" "lyt_dimension wire_layout = ucoord3 1 0 0"
  "cl_clocking wire_layout = twoddwave_clocking Cartesian FOUR"
proof -
  have "base_layout wire_layout = (Cartesian, ucoord3 1 0 0, twoddwave_clocking Cartesian FOUR)"
    by (simp add: wire_layout_def)
      (simp add: base_layout_def make_gate_level_layout_def initialize_truth_table_cache_def Let_def)
  then show "lyt_topology wire_layout = Cartesian" "lyt_dimension wire_layout = ucoord3 1 0 0"
    "cl_clocking wire_layout = twoddwave_clocking Cartesian FOUR" by (simp_all add: base_layout_def)
qed

lemma wire_layout_grid: "lyt_enumerable wire_layout"
  by (simp add: lyt_enumerable_def enumerable_def wire_layout_shape ucoord3_def)

lemma wire_layout_nodes:
  "foreach_node wire_layout = [0, 1, 2, 3] \<and> get_tile wire_layout 2 = ucoord3 0 0 0 \<and> get_tile wire_layout 3 = ucoord3 1 0 0"
  by code_simp

lemma wire_layout_nodes_of: "nodes_of wire_layout = {2, 3}"
  using wire_layout_nodes by (auto simp: nodes_of_def is_constant_def word_le_nat_alt)

lemma wire_layout_clean:
  obtains out st where "gate_level_drvs wire_layout default_drv_params = Some (out, st)" "st_drvs st = 0" "st_warnings st = 0"
  using wire_layout_drvs by (auto simp: Let_def)

lemma drvs_exact_witness:
  "\<exists>out st. gate_level_drvs wire_layout default_drv_params = Some (out, st) \<and>
    (st_drvs st = 0 \<longleftrightarrow> drv_rules default_drv_params wire_layout) \<and>
    (st_warnings st = 0 \<longleftrightarrow> drv_practices default_drv_params wire_layout)"
  by (rule drvs_exact [OF wire_layout_grid])

lemma clean_layout_is_routed_witness:
  "set (incoming_set wire_layout (get_tile wire_layout 3)) = child_tiles wire_layout 3"
proof -
  obtain out st where c: "gate_level_drvs wire_layout default_drv_params = Some (out, st)" "st_drvs st = 0"
    by (rule wire_layout_clean)
  show ?thesis
    by (rule clean_layout_is_routed [OF wire_layout_wf wire_layout_grid wire_layout_shape(1) _ _ c, where name = "''2DDWave''"])
      (auto simp: wire_layout_shape lookup_wave wire_layout_nodes_of lyt_in_grid_def in_grid_def wire_layout_nodes ucoord3_def)
qed

text \<open>In hexagonal layouts the test of adjacency looks the coordinate up in a \<open>std::set\<close>, whose order
  ignores that it is dead: a child that lies on no tile passes as the neighbour at the origin, in
  Cartesian layouts it does not.\<close>

definition two_rows :: "topology \<Rightarrow> unit coordinate_layout_scheme" where
  "two_rows t = \<lparr>lyt_topology = t, lyt_dimension = ucoord3 1 2 0\<rparr>"

theorem dead_child_is_missed:
  "lyt_is_adjacent_elevation_of (two_rows (Hexagonal even_row_hex)) (ucoord3 1 0 0) ucoord_default"
  "\<not> lyt_is_adjacent_elevation_of (two_rows Cartesian) (ucoord3 1 0 0) ucoord_default"
  by code_simp+

end
