(* ===== verification/Critical_Path.thy ===== *)
theory Critical_Path
  imports Design_Rules "HOL-Library.AList"
begin

text \<open>
  Model of \<open>algorithms/properties/critical_path_length_and_throughput.hpp\<close>.

  The recursion of \<open>signal_delay\<close> runs along the incoming data flow and ends only if that has no
  cycle, so it is a partial function. It is stated for a list of tiles, the range that
  \<open>std::transform\<close> passes to it; the paths to a single tile are those of the list of it alone. The
  member \<open>delay_cache\<close> is threaded through as an association list.

  \<open>std::sort\<close> leaves the order of paths of the same length open. It is a parameter here; the locale
  \<open>path_sort\<close> states what the standard promises of it.

  The theorems state that under a linear clocking scheme the computation ends, that its critical path
  is the longest chain of tiles in the data flow that ends in an output, and that delay differences are
  multiples of the number of clocks, so that the division in the throughput is exact.
\<close>

section \<open>Paths\<close>

record path_info =
  pi_length :: u64
  pi_delay :: u64
  pi_diff :: u64

record critical_path_length_and_throughput_stats =
  critical_path_length :: u64
  throughput :: u64

definition no_path :: path_info where
  "no_path = \<lparr>pi_length = 0, pi_delay = 0, pi_diff = 0\<rparr>"

type_synonym delay_cache = "(ucoord_t \<times> path_info) list"

text \<open>\<open>std::abs(static_cast<int64_t>(d))\<close>.\<close>

definition abs_diff :: "u64 \<Rightarrow> u64" where
  "abs_diff d = (if sint d < 0 then - d else d)"

text \<open>The paths to a tile from the paths to the tiles of its incoming data flow.\<close>

definition dominant_path ::
    "(path_info list \<Rightarrow> path_info list) \<Rightarrow> 'tt gate_level_layout \<Rightarrow> ucoord_t \<Rightarrow> path_info list \<Rightarrow> path_info" where
  "dominant_path srt l t infos =
     (let infos' = (if is_pi_tile l t
                    then infos @ [\<lparr>pi_length = 1,
                      pi_delay = of_int ((uint (get_clock_number l t) + (uint (num_clocks l) - 1)) mod uint (num_clocks l)),
                      pi_diff = 0\<rparr>]
                    else infos);
          dom = (if length infos' = 1 then hd infos'
                 else (let s = srt infos'
                       in \<lparr>pi_length = pi_length (last s), pi_delay = pi_delay (last s),
                           pi_diff = abs_diff (pi_delay (last s) - pi_delay (hd s))\<rparr>))
      in dom\<lparr>pi_length := pi_length dom + 1, pi_delay := pi_delay dom + 1\<rparr>)"

partial_function (option) signal_delays ::
    "(path_info list \<Rightarrow> path_info list) \<Rightarrow> 'tt gate_level_layout \<Rightarrow> ucoord_t list \<Rightarrow> delay_cache \<Rightarrow>
     (path_info list \<times> delay_cache) option" where
  "signal_delays srt l ts cache =
     (case ts of
        [] \<Rightarrow> Some ([], cache)
      | t # ts' \<Rightarrow>
          Option.bind
            (if is_empty_tile l t then Some (no_path, cache)
             else let idf = incoming_set l t
                  in if idf = [] then Some (\<lparr>pi_length = 1, pi_delay = ucast (get_clock_number l t), pi_diff = 0\<rparr>, cache)
                     else case map_of cache t of
                       Some info \<Rightarrow> Some (info, cache)
                     | None \<Rightarrow>
                         Option.bind (signal_delays srt l idf cache) (\<lambda>(infos, cache1).
                           let dom = dominant_path srt l t infos
                           in Some (dom, if \<not> is_wire_tile l t then AList.update t dom cache1 else cache1)))
            (\<lambda>(info, cache2). Option.bind (signal_delays srt l ts' cache2) (\<lambda>(infos, cache3). Some (info # infos, cache3))))"

definition signal_delay ::
    "(path_info list \<Rightarrow> path_info list) \<Rightarrow> 'tt gate_level_layout \<Rightarrow> ucoord_t \<Rightarrow> delay_cache \<Rightarrow>
     (path_info \<times> delay_cache) option" where
  "signal_delay srt l t cache = map_option (\<lambda>(infos, cache'). (hd infos, cache')) (signal_delays srt l [t] cache)"

text \<open>\<open>std::max_element\<close> of an empty cache is its end, which leaves the throughput at its initial 0.\<close>

definition critical_path_length_and_throughput ::
    "(path_info list \<Rightarrow> path_info list) \<Rightarrow> 'tt gate_level_layout \<Rightarrow> critical_path_length_and_throughput_stats option" where
  "critical_path_length_and_throughput srt l =
     map_option (\<lambda>(infos, cache).
       \<lparr>critical_path_length = fold (\<lambda>i m. max (pi_length i) m) infos 0,
        throughput = fold (\<lambda>(t, i) m. max (pi_diff i) m) cache 0 div ucast (num_clocks l) + 1\<rparr>)
       (signal_delays srt l (map ucoord_of_u64 (foreach_po l)) [])"

section \<open>Sorting\<close>

locale path_sort =
  fixes srt :: "path_info list \<Rightarrow> path_info list"
  assumes srt_set: "set (srt infos) = set infos"
    and srt_length: "length (srt infos) = length infos"
    and srt_sorted: "sorted (map pi_length (srt infos))"
begin

lemma srt_nonempty: "infos \<noteq> [] \<Longrightarrow> srt infos \<noteq> []"
  using srt_length [of infos] by auto

lemma srt_ends:
  assumes "infos \<noteq> []"
  shows "hd (srt infos) \<in> set infos" and "last (srt infos) \<in> set infos"
  using srt_nonempty [OF assms] srt_set [of infos] hd_in_set last_in_set by blast+

lemma srt_last:
  assumes "i \<in> set infos"
  shows "pi_length i \<le> pi_length (last (srt infos))"
proof -
  have "i \<in> set (srt infos)" using assms by (simp add: srt_set)
  then obtain k where k: "k < length (srt infos)" "srt infos ! k = i" by (auto simp: in_set_conv_nth)
  then have "map pi_length (srt infos) ! k \<le> map pi_length (srt infos) ! (length (srt infos) - 1)"
    by (intro sorted_nth_mono [OF srt_sorted]) auto
  moreover have "srt infos \<noteq> []" using k by auto
  ultimately show ?thesis using k by (simp add: last_conv_nth)
qed

end

interpretation stable: path_sort "sort_key pi_length"
  by unfold_locales simp_all

section \<open>Chains of tiles\<close>

text \<open>A chain is a list of occupied tiles, each in the incoming data flow of the one before it.\<close>

fun chain :: "'tt gate_level_layout \<Rightarrow> ucoord_t list \<Rightarrow> bool" where
  "chain l [] = False"
| "chain l [t] = (\<not> is_empty_tile l t)"
| "chain l (t # s # p) = (\<not> is_empty_tile l t \<and> s \<in> set (incoming_set l t) \<and> chain l (s # p))"

definition longest :: "'tt gate_level_layout \<Rightarrow> ucoord_t \<Rightarrow> nat \<Rightarrow> bool" where
  "longest l t k \<longleftrightarrow> (\<forall>p. chain l (t # p) \<longrightarrow> length (t # p) \<le> k) \<and>
     (if is_empty_tile l t then k = 0 else \<exists>p. chain l (t # p) \<and> length (t # p) = k)"

lemma chain_occupied: "chain l (t # p) \<Longrightarrow> \<not> is_empty_tile l t"
  by (cases p) simp_all

lemma longest_empty: "is_empty_tile l t \<Longrightarrow> longest l t 0"
  by (auto simp: longest_def dest: chain_occupied)

lemma longest_source: "\<not> is_empty_tile l t \<Longrightarrow> incoming_set l t = [] \<Longrightarrow> longest l t 1"
  unfolding longest_def
proof (intro conjI allI impI)
  fix p
  assume "incoming_set l t = []" "chain l (t # p)"
  then show "length (t # p) \<le> 1" by (cases p) simp_all
qed (auto intro: exI [of _ "[]"])

lemma longest_step:
  assumes "\<not> is_empty_tile l t" and "s \<in> set (incoming_set l t)" and "\<not> is_empty_tile l s" and "longest l s k"
    and "\<And>s'. s' \<in> set (incoming_set l t) \<Longrightarrow> \<exists>k' \<le> k. longest l s' k'"
  shows "longest l t (k + 1)"
  unfolding longest_def
proof (intro conjI allI impI)
  fix p
  assume p: "chain l (t # p)"
  show "length (t # p) \<le> k + 1"
  proof (cases p)
    case (Cons s' q)
    then have "s' \<in> set (incoming_set l t)" "chain l (s' # q)" using p by simp_all
    then show ?thesis using assms(5) [of s'] Cons unfolding longest_def by (auto intro: order_trans)
  qed simp
next
  obtain q where "chain l (s # q)" "length (s # q) = k" using assms(3,4) by (auto simp: longest_def)
  then have "chain l (t # s # q) \<and> length (t # s # q) = k + 1" using assms(1,2) by simp
  then have "\<exists>p. chain l (t # p) \<and> length (t # p) = k + 1" by blast
  then show "if is_empty_tile l t then k + 1 = 0 else \<exists>p. chain l (t # p) \<and> length (t # p) = k + 1"
    using assms(1) by simp
qed

section \<open>Linear schemes\<close>

text \<open>What the proofs use of a linear scheme: the position advances by one from tile to tile, and clock
  numbers are positions modulo the number of clocks.\<close>

definition linear_flow :: "'tt gate_level_layout \<Rightarrow> (ucoord_t \<Rightarrow> nat) \<Rightarrow> bool" where
  "linear_flow l pos \<longleftrightarrow> 0 < num_clocks l \<and>
     (\<forall>t. lyt_in_grid l t \<longrightarrow> pos t < 2 ^ 62 \<and> unat (get_clock_number l t) = pos t mod unat (num_clocks l)) \<and>
     (\<forall>t s. lyt_in_grid l t \<longrightarrow> s \<in> set (incoming_set l t) \<longrightarrow> lyt_in_grid l s \<and> pos t = pos s + 1)"

lemma hex_line_le: "hex_line arr x y \<le> x + y"
  by (cases arr) simp_all

lemma linear_position_less:
  assumes "lyt_enumerable l" and "lyt_in_grid l c"
  shows "linear_position t s c < 2 ^ 62"
proof -
  have "ux c \<le> ux (lyt_dimension l)" "uy c \<le> uy (lyt_dimension l)"
    using assms(2) by (simp_all add: lyt_in_grid_def in_grid_def)
  then have "unat (ux c) < 2 ^ 31" "unat (uy c) < 2 ^ 31"
    using assms(1) by (auto simp: lyt_enumerable_def enumerable_def word_le_nat_alt)
  moreover have "linear_position t s c \<le> unat (ux c) + unat (uy c)"
    using hex_line_le by (simp add: linear_position_def split: topology.split)
  ultimately show ?thesis by simp
qed

lemma linear_scheme_flow:
  assumes "lyt_enumerable l" and "get_clocking_scheme (lyt_topology l) name = Some (cl_clocking l)"
    and "is_linear_scheme (cl_clocking l)" and "linear_on (lyt_topology l) (cl_clocking l)"
  shows "linear_flow l (linear_position (lyt_topology l) (cl_clocking l))"
  unfolding linear_flow_def
proof (intro conjI allI impI)
  let ?pos = "linear_position (lyt_topology l) (cl_clocking l)"
  show "0 < num_clocks l"
  proof -
    have "cs_num_clocks (cl_clocking l) = 3 \<or> cs_num_clocks (cl_clocking l) = 4" using lookup_clocks [OF assms(2)] by blast
    then show ?thesis by (auto simp: num_clocks_def)
  qed
  fix t
  assume t: "lyt_in_grid l t"
  show "?pos t < 2 ^ 62" by (rule linear_position_less [OF assms(1) t])
  show "unat (get_clock_number l t) = ?pos t mod unat (num_clocks l)"
    using linear_clock [OF assms(2,3)] lookup_no_override [OF assms(2)]
    by (simp add: get_clock_number_def num_clocks_def)
  fix s
  assume "s \<in> set (incoming_set l t)"
  then have s: "lyt_in_grid l s" "lyt_neighbour l t (in_column s t)" "is_incoming_clocked l t (in_column s t)"
    by (simp_all add: flow_set [OF assms(1) t])
  then show "lyt_in_grid l s" by simp
  have "lyt_neighbour l (in_column s t) t" using s(2) lyt_neighbour_sym by blast
  then show "?pos t = ?pos s + 1"
    using outgoing_advances [OF assms(2-4), of "in_column s t" t] s(3)
    by (simp add: is_incoming_outgoing linear_position_column)
qed

lemma chain_length:
  assumes "linear_flow l pos" and "lyt_in_grid l t" and "chain l (t # p)"
  shows "length (t # p) \<le> pos t + 1"
  using assms(2,3)
proof (induction p arbitrary: t)
  case (Cons s p)
  then have "lyt_in_grid l s" "pos t = pos s + 1"
    using assms(1) unfolding linear_flow_def by auto
  then show ?case using Cons by auto
qed simp

lemma unat_abs_diff:
  assumes "unat a < 2 ^ 62" and "unat b < 2 ^ 62"
  shows "int (unat (abs_diff (a - b))) = \<bar>int (unat a) - int (unat b)\<bar>"
proof -
  have "int (unat a) < int (2 ^ 62)" "int (unat b) < int (2 ^ 62)" using assms by (simp_all only: of_nat_less_iff)
  then have ab: "uint a < 4611686018427387904" "uint b < 4611686018427387904" "0 \<le> uint a" "0 \<le> uint b" by simp_all
  have "sint (a - b) = sint (word_of_int (uint a - uint b) :: u64)" by simp
  also have "\<dots> = (uint a - uint b + 9223372036854775808) mod 18446744073709551616 - 9223372036854775808"
    by (simp only: int_word_sint) simp
  also have "(uint a - uint b + 9223372036854775808) mod 18446744073709551616 = uint a - uint b + 9223372036854775808"
    by (rule mod_pos_pos_trivial) (use ab in linarith)+
  also have "uint a - uint b + 9223372036854775808 - 9223372036854775808 = uint a - uint b" by simp
  finally have s: "sint (a - b) = uint a - uint b" .
  have "uint (abs_diff (a - b)) = \<bar>uint a - uint b\<bar>"
  proof (cases "uint a < uint b")
    case True
    then have "abs_diff (a - b) = b - a" by (simp add: abs_diff_def s)
    then show ?thesis using True uint_sub_lem [of a b] by simp
  next
    case False
    then have "abs_diff (a - b) = a - b" by (simp add: abs_diff_def s)
    then show ?thesis using False uint_sub_lem [of b a] by simp
  qed
  then show ?thesis by simp
qed

section \<open>The delays are right\<close>

definition good_path :: "'tt gate_level_layout \<Rightarrow> (ucoord_t \<Rightarrow> nat) \<Rightarrow> ucoord_t \<Rightarrow> path_info \<Rightarrow> bool" where
  "good_path l pos t i \<longleftrightarrow> longest l t (unat (pi_length i)) \<and> unat (num_clocks l) dvd unat (pi_diff i) \<and>
     (if is_empty_tile l t then i = no_path
      else unat (pi_delay i) mod unat (num_clocks l) = pos t mod unat (num_clocks l) \<and> unat (pi_delay i) \<le> pos t)"

lemma good_empty: "is_empty_tile l t \<Longrightarrow> good_path l pos t no_path"
  by (simp add: good_path_def no_path_def longest_empty)

lemma good_source:
  assumes "linear_flow l pos" and "lyt_in_grid l t" and "\<not> is_empty_tile l t" and "incoming_set l t = []"
  shows "good_path l pos t \<lparr>pi_length = 1, pi_delay = ucast (get_clock_number l t), pi_diff = 0\<rparr>"
proof -
  have "unat (get_clock_number l t) = pos t mod unat (num_clocks l)"
    using assms(1,2) by (simp add: linear_flow_def)
  moreover have "unat (ucast (get_clock_number l t) :: u64) = unat (get_clock_number l t)"
    using unsigned_less [of "get_clock_number l t", where ?'a = nat]
    by (simp add: unsigned_ucast_eq take_bit_nat_eq_self)
  ultimately show ?thesis
    using longest_source [OF assms(3,4)] assms(3) by (simp add: good_path_def)
qed

lemma good_length:
  assumes "linear_flow l pos" and "lyt_in_grid l t" and "good_path l pos t i" and "\<not> is_empty_tile l t"
  shows "1 \<le> unat (pi_length i)" and "unat (pi_length i) \<le> pos t + 1"
proof -
  obtain p where "chain l (t # p)" "length (t # p) = unat (pi_length i)"
    using assms(3,4) by (auto simp: good_path_def longest_def)
  then show "1 \<le> unat (pi_length i)" "unat (pi_length i) \<le> pos t + 1"
    using chain_length [OF assms(1,2)] by (metis length_Cons le_add1 plus_1_eq_Suc)+
qed

text \<open>Of the paths that lead into a tile, that of an input included.\<close>

definition good_step :: "nat \<Rightarrow> nat \<Rightarrow> path_info \<Rightarrow> bool" where
  "good_step n k i \<longleftrightarrow> 1 \<le> unat (pi_length i) \<and> unat (pi_length i) \<le> k \<and>
     (unat (pi_delay i) + 1) mod n = k mod n \<and> unat (pi_delay i) + 1 \<le> k \<and> n dvd unat (pi_diff i)"

lemma good_step_diff:
  assumes "good_step n k a" and "good_step n k b" and "k < 2 ^ 62"
  shows "n dvd unat (abs_diff (pi_delay a - pi_delay b))"
proof -
  have "unat (pi_delay a) < 2 ^ 62" "unat (pi_delay b) < 2 ^ 62"
    using assms by (simp_all add: good_step_def)
  then have d: "int (unat (abs_diff (pi_delay a - pi_delay b))) = \<bar>int (unat (pi_delay a)) - int (unat (pi_delay b))\<bar>"
    by (rule unat_abs_diff)
  have "(unat (pi_delay a) + 1) mod n = (unat (pi_delay b) + 1) mod n"
    using assms(1,2) by (simp add: good_step_def)
  then have "(int (unat (pi_delay a)) + 1) mod int n = (int (unat (pi_delay b)) + 1) mod int n"
    by (metis of_nat_1 of_nat_add of_nat_mod)
  then have "int n dvd (int (unat (pi_delay a)) + 1) - (int (unat (pi_delay b)) + 1)"
    by (simp add: mod_eq_dvd_iff)
  then have "int n dvd int (unat (abs_diff (pi_delay a - pi_delay b)))" unfolding d by simp
  then show ?thesis by (simp only: of_nat_dvd_iff)
qed

lemma good_step_input:
  assumes lin: "linear_flow l pos" and t: "lyt_in_grid l t" and k: "0 < pos t"
  shows "good_step (unat (num_clocks l)) (pos t)
    \<lparr>pi_length = 1,
     pi_delay = of_int ((uint (get_clock_number l t) + (uint (num_clocks l) - 1)) mod uint (num_clocks l)), pi_diff = 0\<rparr>"
proof -
  define n where "n = unat (num_clocks l)"
  have n: "0 < n" "n < 256"
    using lin unsigned_less [of "num_clocks l", where ?'a = nat]
    by (simp_all add: linear_flow_def n_def word_less_nat_alt)
  have clk: "unat (get_clock_number l t) = pos t mod n" using lin t by (simp add: linear_flow_def n_def)
  have u: "uint (num_clocks l) = int n" "uint (get_clock_number l t) = int (pos t mod n)"
    by (simp_all add: n_def clk [unfolded n_def, symmetric])
  have "(uint (get_clock_number l t) + (uint (num_clocks l) - 1)) mod uint (num_clocks l) =
      (int (pos t mod n) + (int n - 1)) mod int n"
    by (simp only: u)
  also have "\<dots> = int ((pos t mod n + (n - 1)) mod n)"
    using n by (simp add: zmod_int of_nat_diff diff_add_eq add_diff_eq)
  finally have "(uint (get_clock_number l t) + (uint (num_clocks l) - 1)) mod uint (num_clocks l) =
      int ((pos t mod n + (n - 1)) mod n)" .
  moreover have "(pos t mod n + (n - 1)) mod n < n" using n by simp
  moreover have "unat (of_int (int k) :: u64) = k" if "k < 256" for k
    using that by (simp add: unat_of_nat take_bit_nat_eq_self)
  ultimately have "unat (of_int ((uint (get_clock_number l t) + (uint (num_clocks l) - 1)) mod uint (num_clocks l)) :: u64) =
      (pos t mod n + (n - 1)) mod n"
    using n by (metis order_less_trans)
  moreover define w :: u64 where "w = of_int ((uint (get_clock_number l t) + (uint (num_clocks l) - 1)) mod uint (num_clocks l))"
  ultimately have d: "unat w = (pos t + (n - 1)) mod n"
    by (simp only: mod_add_left_eq)
  have "((pos t + (n - 1)) mod n + 1) mod n = (pos t + (n - 1) + 1) mod n"
    by (simp only: mod_add_left_eq)
  also have "\<dots> = pos t mod n" using n by simp
  finally have "((pos t + (n - 1)) mod n + 1) mod n = pos t mod n" .
  moreover have "(pos t + (n - 1)) mod n + 1 \<le> pos t"
  proof (cases "pos t < n")
    case True
    obtain m where m: "pos t = Suc m" using k by (cases "pos t") simp_all
    have "pos t + (n - 1) = m + n" unfolding m using n(1) by arith
    then have "(pos t + (n - 1)) mod n = m mod n" by (simp only: mod_add_self2)
    also have "\<dots> = m" using True m by simp
    finally show ?thesis using m by simp
  next
    case False
    have "(pos t + (n - 1)) mod n < n" using n by simp
    then show ?thesis using False by linarith
  qed
  ultimately have "good_step n (pos t) \<lparr>pi_length = 1, pi_delay = w, pi_diff = 0\<rparr>"
    unfolding good_step_def path_info.simps d using k by auto
  then show ?thesis by (simp only: w_def n_def)
qed

definition good_cache :: "'tt gate_level_layout \<Rightarrow> (ucoord_t \<Rightarrow> nat) \<Rightarrow> delay_cache \<Rightarrow> bool" where
  "good_cache l pos cache \<longleftrightarrow> (\<forall>(t, i)\<in>set cache. good_path l pos t i)"

lemma good_cache_update: "good_cache l pos c \<Longrightarrow> good_path l pos t i \<Longrightarrow> good_cache l pos (AList.update t i c)"
proof -
  have "set (AList.update t i c) \<subseteq> insert (t, i) (set c)" by (induction c) auto
  then show "good_cache l pos c \<Longrightarrow> good_path l pos t i \<Longrightarrow> good_cache l pos (AList.update t i c)"
    by (auto simp: good_cache_def)
qed

context path_sort
begin

lemma good_dominant:
  assumes lin: "linear_flow l pos" and t: "lyt_in_grid l t" "\<not> is_empty_tile l t" "incoming_set l t \<noteq> []"
    and occ: "\<forall>s\<in>set (incoming_set l t). \<not> is_empty_tile l s"
    and infos: "list_all2 (good_path l pos) (incoming_set l t) infos"
  shows "good_path l pos t (dominant_path srt l t infos)"
proof -
  define n where "n = unat (num_clocks l)"
  define e where "e = \<lparr>pi_length = 1,
    pi_delay = of_int ((uint (get_clock_number l t) + (uint (num_clocks l) - 1)) mod uint (num_clocks l)), pi_diff = 0 :: u64\<rparr>"
  define infos' where "infos' = (if is_pi_tile l t then infos @ [e] else infos)"
  have step: "lyt_in_grid l s \<and> pos t = pos s + 1" if "s \<in> set (incoming_set l t)" for s
    using lin t(1) that by (simp add: linear_flow_def)
  have k: "0 < pos t" using step [OF hd_in_set [OF t(3)]] by simp
  have k2: "pos t < 2 ^ 62" using lin t(1) unfolding linear_flow_def by blast
  have len: "length infos = length (incoming_set l t)" using infos by (simp add: list_all2_lengthD)
  then have ne: "infos' \<noteq> []" using t(3) by (auto simp: infos'_def)
  have tile: "\<exists>s. s \<in> set (incoming_set l t) \<and> good_path l pos s i" if "i \<in> set infos" for i
    using infos that by (fastforce simp: list_all2_conv_all_nth in_set_conv_nth)
  have real: "good_step n (pos t) i" if i: "i \<in> set infos" for i
  proof -
    obtain s where s: "s \<in> set (incoming_set l t)" "good_path l pos s i" using tile [OF i] by blast
    have "\<not> is_empty_tile l s" "lyt_in_grid l s" "pos t = pos s + 1" using s(1) occ step by auto
    then have "unat (pi_delay i) mod n = pos s mod n" "unat (pi_delay i) \<le> pos s" "n dvd unat (pi_diff i)"
      "1 \<le> unat (pi_length i)" "unat (pi_length i) \<le> pos t"
      using s(2) good_length [OF lin _ s(2)] by (simp_all add: good_path_def n_def)
    moreover have "(unat (pi_delay i) + 1) mod n = (pos s + 1) mod n"
      using calculation(1) by (rule mod_add_cong) (rule refl)
    ultimately show ?thesis unfolding good_step_def \<open>pos t = pos s + 1\<close> by simp
  qed
  have each: "good_step n (pos t) i" if "i \<in> set infos'" for i
    using that real good_step_input [OF lin t(1) k] by (auto simp: infos'_def n_def e_def split: if_splits)
  define j where "j = (if length infos' = 1 then hd infos' else last (srt infos'))"
  have j: "j \<in> set infos'" using ne srt_ends(2) by (simp add: j_def)
  have top: "pi_length i \<le> pi_length j" if "i \<in> set infos'" for i
    using that srt_last by (cases infos') (auto simp: j_def)
  define d where "d = (if length infos' = 1 then pi_diff j else abs_diff (pi_delay j - pi_delay (hd (srt infos'))))"
  have dvd: "n dvd unat d"
    using each [OF j] good_step_diff [OF each [OF j] each [OF srt_ends(1) [OF ne]] k2] by (simp add: d_def good_step_def)
  have dom: "dominant_path srt l t infos = \<lparr>pi_length = pi_length j + 1, pi_delay = pi_delay j + 1, pi_diff = d\<rparr>"
    unfolding dominant_path_def e_def [symmetric] infos'_def [symmetric] Let_def by (simp add: j_def d_def)
  have u: "unat (pi_length j + 1) = unat (pi_length j) + 1" "unat (pi_delay j + 1) = unat (pi_delay j) + 1"
    using each [OF j] k2 by (simp_all add: good_step_def unat_word_ariths)
  obtain i where i: "i \<in> set infos" "pi_length i = pi_length j"
  proof (cases "j \<in> set infos")
    case False
    then have "pi_length j = 1" using j by (auto simp: infos'_def e_def split: if_splits)
    obtain i where i: "i \<in> set infos" using t(3) len by (cases infos) auto
    then have "pi_length i \<le> 1" using top [of i] \<open>pi_length j = 1\<close> by (simp add: infos'_def)
    moreover have "1 \<le> pi_length i" using real [OF i] by (simp add: good_step_def word_le_nat_alt)
    ultimately show ?thesis using that i \<open>pi_length j = 1\<close> by simp
  qed (use that in blast)
  obtain s where s: "s \<in> set (incoming_set l t)" "good_path l pos s i" using tile [OF i(1)] by blast
  have "longest l t (unat (pi_length j) + 1)"
  proof (rule longest_step [OF t(2) s(1)])
    show "\<not> is_empty_tile l s" using occ s(1) by blast
    show "longest l s (unat (pi_length j))" using s(2) i(2) by (simp add: good_path_def)
    fix s'
    assume "s' \<in> set (incoming_set l t)"
    then obtain i' where i': "i' \<in> set infos" "good_path l pos s' i'"
      using infos by (fastforce simp: list_all2_conv_all_nth in_set_conv_nth)
    then have "i' \<in> set infos'" by (simp add: infos'_def)
    then have "unat (pi_length i') \<le> unat (pi_length j)" using top by (simp add: word_le_nat_alt)
    then show "\<exists>k'\<le>unat (pi_length j). longest l s' k'" using i'(2) by (auto simp: good_path_def)
  qed
  then show ?thesis
    using each [OF j] dvd t(2) unfolding dom good_path_def path_info.simps u n_def [symmetric]
    by (simp add: good_step_def)
qed

lemma signal_delays_good:
  assumes lin: "linear_flow l pos"
    and occ: "\<And>t s. lyt_in_grid l t \<Longrightarrow> s \<in> set (incoming_set l t) \<Longrightarrow> \<not> is_empty_tile l s"
    and "\<forall>t\<in>set ts. lyt_in_grid l t \<and> pos t < n" and "good_cache l pos cache"
  shows "\<exists>infos cache'. signal_delays srt l ts cache = Some (infos, cache') \<and> good_cache l pos cache' \<and>
    list_all2 (good_path l pos) ts infos"
  using assms(3,4)
proof (induction n arbitrary: ts cache)
  case (Suc n)
  have one: "\<exists>i c'. (if is_empty_tile l t then Some (no_path, c)
        else let idf = incoming_set l t
             in if idf = [] then Some (\<lparr>pi_length = 1, pi_delay = ucast (get_clock_number l t), pi_diff = 0\<rparr>, c)
                else case map_of c t of
                  Some info \<Rightarrow> Some (info, c)
                | None \<Rightarrow> Option.bind (signal_delays srt l idf c) (\<lambda>(infos, c1).
                    let dom = dominant_path srt l t infos
                    in Some (dom, if \<not> is_wire_tile l t then AList.update t dom c1 else c1))) = Some (i, c') \<and>
      good_path l pos t i \<and> good_cache l pos c'"
    if t: "lyt_in_grid l t" "pos t < Suc n" and c: "good_cache l pos c" for t c
  proof (cases "is_empty_tile l t \<or> incoming_set l t = [] \<or> map_of c t \<noteq> None")
    case True
    then consider "is_empty_tile l t" | "\<not> is_empty_tile l t" "incoming_set l t = []"
      | i where "\<not> is_empty_tile l t" "incoming_set l t \<noteq> []" "map_of c t = Some i" by blast
    then show ?thesis
    proof cases
      case 3
      then have "good_path l pos t i" using c by (auto simp: good_cache_def dest: map_of_SomeD)
      then show ?thesis using 3 c by simp
    qed (use good_empty good_source [OF lin t(1)] c in \<open>simp_all add: good_empty\<close>)
  next
    case False
    have "lyt_in_grid l s \<and> pos t = pos s + 1" if "s \<in> set (incoming_set l t)" for s
      using lin t(1) that by (simp add: linear_flow_def)
    then have "\<forall>s\<in>set (incoming_set l t). lyt_in_grid l s \<and> pos s < n" using t(2) by auto
    from Suc.IH [OF this c] obtain infos c1 where r: "signal_delays srt l (incoming_set l t) c = Some (infos, c1)"
      "good_cache l pos c1" "list_all2 (good_path l pos) (incoming_set l t) infos" by blast
    then have "good_path l pos t (dominant_path srt l t infos)"
      using False occ [OF t(1)] by (intro good_dominant [OF lin t(1)]) simp_all
    then show ?thesis
      using False r by (simp add: Let_def good_cache_update)
  qed
  show ?case using Suc.prems
  proof (induction ts arbitrary: cache)
    case Nil
    then show ?case by (simp add: signal_delays.simps)
  next
    case (Cons t ts)
    then obtain i c' where i: "good_path l pos t i" "good_cache l pos c'"
      and e: "(if is_empty_tile l t then Some (no_path, cache)
        else let idf = incoming_set l t
             in if idf = [] then Some (\<lparr>pi_length = 1, pi_delay = ucast (get_clock_number l t), pi_diff = 0\<rparr>, cache)
                else case map_of cache t of
                  Some info \<Rightarrow> Some (info, cache)
                | None \<Rightarrow> Option.bind (signal_delays srt l idf cache) (\<lambda>(infos, c1).
                    let dom = dominant_path srt l t infos
                    in Some (dom, if \<not> is_wire_tile l t then AList.update t dom c1 else c1))) = Some (i, c')"
      using one [of t cache] by auto
    obtain infos c2 where "signal_delays srt l ts c' = Some (infos, c2)" "good_cache l pos c2"
      "list_all2 (good_path l pos) ts infos"
      using Cons.IH [of c'] Cons.prems(1) i(2) by auto
    then show ?case using i(1) unfolding signal_delays.simps [of srt l "t # ts" cache] list.case e by simp
  qed
qed (simp add: signal_delays.simps)

end

lemma fold_max:
  fixes f :: "'a \<Rightarrow> u64"
  shows "fold (\<lambda>x m. max (f x) m) xs a \<in> insert a (f ` set xs)"
    and "b \<in> insert a (f ` set xs) \<Longrightarrow> b \<le> fold (\<lambda>x m. max (f x) m) xs a"
proof (induction xs arbitrary: a b)
  case (Cons x xs)
  { case 1 show ?case using Cons(1) [of "max (f x) a"] by (auto simp: max_def split: if_splits) }
  { case 2
    then have "b \<in> insert (max (f x) a) (f ` set xs) \<or> b \<le> max (f x) a" by (auto simp: le_max_iff_disj)
    then show ?case using Cons(2) [of b "max (f x) a"] Cons(2) [of "max (f x) a" "max (f x) a"] by fastforce }
qed simp_all

lemma unat_fold_max:
  fixes f :: "'a \<Rightarrow> u64"
  shows "unat (fold (\<lambda>x m. max (f x) m) xs 0) = Max (insert 0 ((\<lambda>x. unat (f x)) ` set xs))"
proof (rule Max_eqI [symmetric])
  show "unat (fold (\<lambda>x m. max (f x) m) xs 0) \<in> insert 0 ((\<lambda>x. unat (f x)) ` set xs)"
    using fold_max(1) [of f xs 0] by auto
  show "y \<le> unat (fold (\<lambda>x m. max (f x) m) xs 0)" if "y \<in> insert 0 ((\<lambda>x. unat (f x)) ` set xs)" for y
    using that fold_max(2) [of _ 0 f xs] by (auto simp: word_le_nat_alt)
qed simp

lemma output_delays:
  assumes "path_sort srt" and "lyt_enumerable l"
    and "get_clocking_scheme (lyt_topology l) name = Some (cl_clocking l)"
    and "is_linear_scheme (cl_clocking l)" and "linear_on (lyt_topology l) (cl_clocking l)"
    and "\<forall>t s. lyt_in_grid l t \<longrightarrow> s \<in> set (incoming_set l t) \<longrightarrow> \<not> is_empty_tile l s"
    and "\<forall>po\<in>set (foreach_po l). lyt_in_grid l (ucoord_of_u64 po)"
  obtains pos infos cache where
    "signal_delays srt l (map ucoord_of_u64 (foreach_po l)) [] = Some (infos, cache)"
    "list_all2 (good_path l pos) (map ucoord_of_u64 (foreach_po l)) infos" "good_cache l pos cache"
proof -
  let ?pos = "linear_position (lyt_topology l) (cl_clocking l)"
  have lin: "linear_flow l ?pos" by (rule linear_scheme_flow [OF assms(2-5)])
  then have "\<forall>t\<in>set (map ucoord_of_u64 (foreach_po l)). lyt_in_grid l t \<and> ?pos t < 2 ^ 62"
    using assms(7) unfolding linear_flow_def by auto
  then show ?thesis
    using that path_sort.signal_delays_good [OF assms(1) lin, of "map ucoord_of_u64 (foreach_po l)" "2 ^ 62" "[]"] assms(6)
    by (auto simp: good_cache_def)
qed

lemma critical_paths:
  assumes "list_all2 (good_path l pos) (map ucoord_of_u64 pos_sigs) infos"
  defines "m \<equiv> fold (\<lambda>i m. max (pi_length i) m) infos 0"
  shows "\<forall>po\<in>set pos_sigs. \<forall>p. chain l (ucoord_of_u64 po # p) \<longrightarrow> length (ucoord_of_u64 po # p) \<le> unat m"
    and "if \<exists>po\<in>set pos_sigs. \<not> is_empty_tile l (ucoord_of_u64 po)
      then \<exists>po\<in>set pos_sigs. \<exists>p. chain l (ucoord_of_u64 po # p) \<and> length (ucoord_of_u64 po # p) = unat m else m = 0"
proof -
  have each: "\<exists>i\<in>set infos. good_path l pos (ucoord_of_u64 po) i" if "po \<in> set pos_sigs" for po
    using that assms(1) by (fastforce simp: list_all2_conv_all_nth in_set_conv_nth)
  have origin: "\<exists>po\<in>set pos_sigs. good_path l pos (ucoord_of_u64 po) i" if "i \<in> set infos" for i
    using that assms(1) by (fastforce simp: list_all2_conv_all_nth in_set_conv_nth)
  have le: "unat (pi_length i) \<le> unat m" if "i \<in> set infos" for i
    using that fold_max(2) [of "pi_length i" 0 pi_length infos] by (simp add: m_def word_le_nat_alt)
  show "\<forall>po\<in>set pos_sigs. \<forall>p. chain l (ucoord_of_u64 po # p) \<longrightarrow> length (ucoord_of_u64 po # p) \<le> unat m"
  proof (intro ballI allI impI)
    fix po p
    assume "po \<in> set pos_sigs" "chain l (ucoord_of_u64 po # p)"
    then obtain i where "i \<in> set infos" "length (ucoord_of_u64 po # p) \<le> unat (pi_length i)"
      using each unfolding good_path_def longest_def by blast
    then show "length (ucoord_of_u64 po # p) \<le> unat m" using le order_trans by blast
  qed
  have reach: "(\<exists>po\<in>set pos_sigs. \<exists>p. chain l (ucoord_of_u64 po # p) \<and> length (ucoord_of_u64 po # p) = unat m) \<or> m = 0"
  proof (cases "m = 0")
    case False
    then obtain i where i: "i \<in> set infos" "m = pi_length i"
      using fold_max(1) [of pi_length infos 0] by (auto simp: m_def)
    then obtain po where "po \<in> set pos_sigs" "good_path l pos (ucoord_of_u64 po) i" using origin by blast
    moreover have "\<not> is_empty_tile l (ucoord_of_u64 po)"
      using calculation(2) i False by (auto simp: good_path_def no_path_def)
    ultimately show ?thesis using i(2) by (auto simp: good_path_def longest_def)
  qed simp
  have pos: "m \<noteq> 0" if occ: "po \<in> set pos_sigs" "\<not> is_empty_tile l (ucoord_of_u64 po)" for po
  proof -
    obtain i p where i: "i \<in> set infos" "length (ucoord_of_u64 po # p) = unat (pi_length i)"
      using each [OF occ(1)] occ(2) unfolding good_path_def longest_def by metis
    then have "0 < unat m" using le [OF i(1)] by simp
    then show ?thesis by auto
  qed
  have none: "m = 0" if "\<forall>po\<in>set pos_sigs. is_empty_tile l (ucoord_of_u64 po)"
    using that reach chain_occupied by blast
  show "if \<exists>po\<in>set pos_sigs. \<not> is_empty_tile l (ucoord_of_u64 po)
      then \<exists>po\<in>set pos_sigs. \<exists>p. chain l (ucoord_of_u64 po # p) \<and> length (ucoord_of_u64 po # p) = unat m else m = 0"
    using reach pos none by auto
qed

section \<open>Properties\<close>

text \<open>C9. Under a linear scheme on a topology it is meant for, the critical path is computed, and it is the
  length of the longest chain of occupied tiles in the data flow that ends in an output: none is
  longer, and one has this length.\<close>

theorem critical_path_longest:
  assumes "path_sort srt" and "lyt_enumerable l"
    and "get_clocking_scheme (lyt_topology l) name = Some (cl_clocking l)"
    and "is_linear_scheme (cl_clocking l)" and "linear_on (lyt_topology l) (cl_clocking l)"
    and "\<forall>t s. lyt_in_grid l t \<longrightarrow> s \<in> set (incoming_set l t) \<longrightarrow> \<not> is_empty_tile l s"
    and "\<forall>po\<in>set (foreach_po l). lyt_in_grid l (ucoord_of_u64 po)"
  shows "\<exists>st. critical_path_length_and_throughput srt l = Some st \<and>
    (\<forall>po\<in>set (foreach_po l). \<forall>p. chain l (ucoord_of_u64 po # p) \<longrightarrow>
       length (ucoord_of_u64 po # p) \<le> unat (critical_path_length st)) \<and>
    (if \<exists>po\<in>set (foreach_po l). \<not> is_empty_tile l (ucoord_of_u64 po)
     then \<exists>po\<in>set (foreach_po l). \<exists>p. chain l (ucoord_of_u64 po # p) \<and>
       length (ucoord_of_u64 po # p) = unat (critical_path_length st)
     else critical_path_length st = 0)"
proof -
  let ?ts = "map ucoord_of_u64 (foreach_po l)"
  obtain pos infos cache where r: "signal_delays srt l ?ts [] = Some (infos, cache)"
    "list_all2 (good_path l pos) ?ts infos" by (rule output_delays [OF assms])
  define m where "m = fold (\<lambda>i m. max (pi_length i) m) infos 0"
  obtain st where st: "critical_path_length_and_throughput srt l = Some st" "critical_path_length st = m"
    by (simp add: critical_path_length_and_throughput_def r m_def)
  note len = critical_paths [OF r(2), folded m_def]
  show ?thesis using st(1) len unfolding st(2) [symmetric] by blast
qed

text \<open>C10. Under a linear scheme on a topology it is meant for (\<open>linear_on\<close>), in a layout whose data flow comes from
  occupied tiles and whose outputs lie on tiles of the layout, every difference in delay that is recorded for a
  gate is a multiple of the number of clocks, and the throughput is exactly one more than the largest of
  them in full clock cycles.\<close>

theorem throughput_exact:
  assumes "path_sort srt" and "lyt_enumerable l"
    and "get_clocking_scheme (lyt_topology l) name = Some (cl_clocking l)"
    and "is_linear_scheme (cl_clocking l)" and "linear_on (lyt_topology l) (cl_clocking l)"
    and "\<forall>t s. lyt_in_grid l t \<longrightarrow> s \<in> set (incoming_set l t) \<longrightarrow> \<not> is_empty_tile l s"
    and "\<forall>po\<in>set (foreach_po l). lyt_in_grid l (ucoord_of_u64 po)"
  shows "\<exists>st infos cache. critical_path_length_and_throughput srt l = Some st \<and>
    signal_delays srt l (map ucoord_of_u64 (foreach_po l)) [] = Some (infos, cache) \<and>
    (\<forall>(t, i)\<in>set cache. unat (num_clocks l) dvd unat (pi_diff i)) \<and>
    unat (num_clocks l) * (unat (throughput st) - 1) = Max (insert 0 ((\<lambda>(t, i). unat (pi_diff i)) ` set cache)) \<and>
    0 < unat (throughput st)"
proof -
  obtain pos infos cache where r: "signal_delays srt l (map ucoord_of_u64 (foreach_po l)) [] = Some (infos, cache)"
    "good_cache l pos cache" by (rule output_delays [OF assms])
  define d where "d = fold (\<lambda>x m. max (pi_diff (snd x)) m) cache 0"
  define n where "n = unat (num_clocks l)"
  have "num_clocks l = 3 \<or> num_clocks l = 4" using lookup_clocks [OF assms(3)] by (auto simp: num_clocks_def)
  then have n: "3 \<le> n" "unat (ucast (num_clocks l) :: u64) = n" by (auto simp: n_def)
  have d: "unat d = Max (insert 0 ((\<lambda>(t, i). unat (pi_diff i)) ` set cache))"
    unfolding d_def unat_fold_max by (simp add: case_prod_unfold)
  have "n dvd unat d"
    using fold_max(1) [of "\<lambda>x. pi_diff (snd x)" cache 0] r(2)
    by (auto simp: d_def good_cache_def good_path_def n_def)
  then have nd: "n * (unat d div n) = unat d" by simp
  have "unat d div n \<le> unat d div 3" by (rule div_le_mono2) (use n(1) in simp_all)
  moreover have "unat d < 2 ^ 64" using unsigned_less [of d, where ?'a = nat] by simp
  ultimately have small: "Suc (unat d div n) < 2 ^ 64" by simp
  define w :: u64 where "w = d div ucast (num_clocks l) + 1"
  have "unat (d div ucast (num_clocks l)) = unat d div n" by (simp add: unat_div_distrib n(2))
  then have w: "unat w = Suc (unat d div n)" using small by (simp add: w_def unat_word_ariths)
  obtain st where "critical_path_length_and_throughput srt l = Some st" "throughput st = w"
    using r(1) by (simp add: critical_path_length_and_throughput_def d_def w_def case_prod_unfold)
  moreover have "\<forall>(t, i)\<in>set cache. n dvd unat (pi_diff i)"
    using r(2) by (auto simp: good_cache_def good_path_def n_def)
  ultimately show ?thesis using r(1) d nd w n_def by (intro exI [of _ st] exI [of _ infos] exI [of _ cache]) simp
qed

lemma wire_layout_flow:
  "incoming_set wire_layout (ucoord3 0 0 0) = [] \<and> incoming_set wire_layout (ucoord3 1 0 0) = [ucoord3 0 0 0] \<and>
   \<not> is_empty_tile wire_layout (ucoord3 0 0 0) \<and> map ucoord_of_u64 (foreach_po wire_layout) = [ucoord3 1 0 0]"
  by code_simp

lemma wire_layout_tiles: "lyt_in_grid wire_layout t \<longleftrightarrow> t = ucoord3 0 0 0 \<or> t = ucoord3 1 0 0"
proof -
  have "ux t \<le> 1 \<longleftrightarrow> unat (ux t) = 0 \<or> unat (ux t) = 1" by (simp add: word_le_nat_alt) linarith
  also have "\<dots> \<longleftrightarrow> ux t = 0 \<or> ux t = 1"
    using word_unat_eq_iff [of "ux t" 0] word_unat_eq_iff [of "ux t" 1] by simp
  finally have x: "ux t \<le> 1 \<longleftrightarrow> ux t = 0 \<or> ux t = 1" .
  have "uy t \<le> 0 \<longleftrightarrow> uy t = 0" "uz t \<le> 0 \<longleftrightarrow> uz t = 0" by (rule word_le_0_iff)+
  with x show ?thesis
    by (auto simp: lyt_in_grid_def in_grid_def wire_layout_shape ucoord3_def intro!: ucoord_t.equality)
qed

lemma wire_layout_linear:
  "is_linear_scheme (cl_clocking wire_layout)" "linear_on (lyt_topology wire_layout) (cl_clocking wire_layout)"
  "get_clocking_scheme (lyt_topology wire_layout) ''2DDWave'' = Some (cl_clocking wire_layout)"
  by (simp_all add: wire_layout_shape lookup_wave is_linear_scheme_def scheme_eq_name_def linear_on_def,
      simp add: twoddwave_clocking_def)

lemma wire_layout_occupied:
  "\<forall>t s. lyt_in_grid wire_layout t \<longrightarrow> s \<in> set (incoming_set wire_layout t) \<longrightarrow> \<not> is_empty_tile wire_layout s"
  "\<forall>po\<in>set (foreach_po wire_layout). lyt_in_grid wire_layout (ucoord_of_u64 po)"
proof -
  have "set (map ucoord_of_u64 (foreach_po wire_layout)) = {ucoord3 1 0 0}" using wire_layout_flow by simp
  then show "\<forall>po\<in>set (foreach_po wire_layout). lyt_in_grid wire_layout (ucoord_of_u64 po)"
    by (auto simp: wire_layout_tiles)
qed (use wire_layout_flow in \<open>auto simp: wire_layout_tiles\<close>)

lemma critical_path_longest_witness:
  "\<exists>st. critical_path_length_and_throughput (sort_key pi_length) wire_layout = Some st \<and>
    (\<forall>po\<in>set (foreach_po wire_layout). \<forall>p. chain wire_layout (ucoord_of_u64 po # p) \<longrightarrow>
       length (ucoord_of_u64 po # p) \<le> unat (critical_path_length st)) \<and>
    (if \<exists>po\<in>set (foreach_po wire_layout). \<not> is_empty_tile wire_layout (ucoord_of_u64 po)
     then \<exists>po\<in>set (foreach_po wire_layout). \<exists>p. chain wire_layout (ucoord_of_u64 po # p) \<and>
       length (ucoord_of_u64 po # p) = unat (critical_path_length st)
     else critical_path_length st = 0)"
  by (rule critical_path_longest [OF stable.path_sort_axioms wire_layout_grid wire_layout_linear(3,1,2) wire_layout_occupied])

lemma throughput_exact_witness:
  "\<exists>st infos cache. critical_path_length_and_throughput (sort_key pi_length) wire_layout = Some st \<and>
    signal_delays (sort_key pi_length) wire_layout (map ucoord_of_u64 (foreach_po wire_layout)) [] = Some (infos, cache) \<and>
    unat (num_clocks wire_layout) * (unat (throughput st) - 1) = Max (insert 0 ((\<lambda>(t, i). unat (pi_diff i)) ` set cache)) \<and>
    0 < unat (throughput st)"
  using throughput_exact [OF stable.path_sort_axioms wire_layout_grid wire_layout_linear(3,1,2) wire_layout_occupied] by blast

end
