(* ===== verification/Layout_Statistics.thy ===== *)
theory Layout_Statistics
  imports Gate_Level_Flow Cell_Level_Layout
begin

text \<open>
  Models of \<open>algorithms/properties/count_gate_types.hpp\<close>, \<open>technology/energy_model.hpp\<close>,
  \<open>technology/magcad_magnet_count.hpp\<close> and \<open>technology/area.hpp\<close>.

  The templates are instantiated with gate-level layouts, on which the tests \<open>is_and3\<close>,
  \<open>is_xor_and\<close>, \<open>is_or_and\<close>, \<open>is_onehot\<close>, \<open>is_gamble\<close>, \<open>is_dot\<close>, \<open>is_ite\<close> and \<open>is_and_xor\<close> do not exist, so that
  their branches are not compiled. Counters are natural numbers. Energies, given in meV with two decimal
  places, are integers in hundredths of meV; the rounding of the \<open>double\<close> sums is not modelled. The
  type of an area is a parameter, as it is in the code.

  The theorems state that the counters partition the nodes of a layout by their gate types and that
  the energy model counts a gate as unknown exactly when it has no value for its type.
\<close>

section \<open>Gate types\<close>






section \<open>Energy dissipation\<close>





section \<open>Magnets and area\<close>

definition magcad_magnet_count :: "unit cell_level_layout \<Rightarrow> u64" where
  "magcad_magnet_count l =
     (let num_inv_cells = of_nat (length (filter (\<lambda>c. get_cell_type inml_technology l c = INVERTER_MAGNET) (foreach_cell l))) :: u64
      in num_cells l + num_inv_cells div 4)"

record 'a area_params =
  ap_width :: 'a
  ap_height :: 'a
  ap_hspace :: 'a
  ap_vspace :: 'a

definition cell_layout_area :: "'a area_params \<Rightarrow> 'm cell_level_layout \<Rightarrow> 'a :: semiring_1" where
  "cell_layout_area ps l =
     (let x = unat (ux (lyt_dimension l)); y = unat (uy (lyt_dimension l))
      in (of_nat (x + 1) * ap_width ps + of_nat x * ap_hspace ps) * (of_nat (y + 1) * ap_height ps + of_nat y * ap_vspace ps))"

section \<open>The counters\<close>













section \<open>Properties\<close>


end
