(* ===== verification/Fqca_Layout.thy ===== *)
theory Fqca_Layout
  imports Cell_Level_Layout Gate_Level_Layout
begin

text \<open>
  Model of \<open>io/write_fqca_layout.hpp\<close> and \<open>io/read_fqca_layout.hpp\<close>: the text format of QCA-STACK for
  QCA cell-level layouts.

  A stream is the string written to it or read from it; an exception is the left value of a sum, and
  what had been written before it is dropped. The version and the name of the repository, which the
  build writes into a header file, are arguments of the writer. The regular expressions of the reader
  are recognizers of the lines they match; lines are matched after white space has been removed.
  The coordinates are those of the offset type, whose layer has one bit.
\<close>

section \<open>Characters\<close>

definition newline :: char where "newline = CHR 0x0A"

definition is_space :: "char \<Rightarrow> bool" where
  "is_space c = (c = CHR '' '' \<or> (9 \<le> (of_char c :: nat) \<and> (of_char c :: nat) \<le> 13))"

definition is_digit :: "char \<Rightarrow> bool" where
  "is_digit c = (48 \<le> (of_char c :: nat) \<and> (of_char c :: nat) \<le> 57)"

definition is_alpha :: "char \<Rightarrow> bool" where
  "is_alpha c = ((65 \<le> (of_char c :: nat) \<and> (of_char c :: nat) \<le> 90) \<or> (97 \<le> (of_char c :: nat) \<and> (of_char c :: nat) \<le> 122))"

text \<open>The class \<open>\w\<close> of regular expressions.\<close>

definition is_word_char :: "char \<Rightarrow> bool" where
  "is_word_char c = (is_alpha c \<or> is_digit c \<or> c = CHR ''_'')"

section \<open>Writing\<close>

datatype out_of_cell_names = Out_Of_Cell_Names

type_synonym qca_layout = "qca_cell_mode cell_level_layout"

text \<open>The members \<open>alphabet_iterator\<close>, as the designators that are left, and \<open>labeled_cells\<close>.\<close>

type_synonym fqca_writer = "string \<times> (ucoord_t \<times> char) list"

definition cell_alphabet :: string where
  "cell_alphabet = ''abcdefghijklmnopqrstuvwxyzABCDEFGHIJKLMNOPQRSTUVWXYZ''"

fun next_cell_designator :: "string \<Rightarrow> out_of_cell_names + char \<times> string" where
  "next_cell_designator [] = Inl Out_Of_Cell_Names"
| "next_cell_designator (d # ds) = Inr (d, ds)"

definition write_header :: "string \<Rightarrow> string \<Rightarrow> qca_layout \<Rightarrow> string" where
  "write_header version repo l =
     (let layout_name = cell_get_layout_name l
      in ''[ '' @ (if layout_name = [] then '''' else layout_name @ '' - '') @ ''generated by '' @ version @ '' ('' @ repo @
         '') ]'' @ [newline, newline])"

definition write_layer_separator :: "qca_layout \<Rightarrow> string" where
  "write_layer_separator l = concat (replicate (unat (ux (lyt_dimension l)) + 1) ''= '') @ [newline]"

definition write_cell :: "qca_layout \<Rightarrow> ucoord_t \<Rightarrow> fqca_writer \<Rightarrow> out_of_cell_names + string \<times> fqca_writer" where
  "write_cell l c w =
     (if cell_is_empty_cell qca_technology l c then Inr (''  '', w)
      else if get_cell_name l c \<noteq> [] \<or> cell_is_pi l c \<or> cell_is_po l c then
        (case next_cell_designator (fst w) of
           Inl e \<Rightarrow> Inl e
         | Inr (d, ds) \<Rightarrow> Inr ([d, CHR '' ''], ds, snd w @ [(c, d)]))
      else if qca_is_const_0_cell (get_cell_type qca_technology l c) then Inr (''- '', w)
      else if qca_is_const_1_cell (get_cell_type qca_technology l c) then Inr (''+ '', w)
      else Inr (decimal (unat (cell_get_clock_number l c)) @ '' '', w))"

definition write_via_cell :: "qca_layout \<Rightarrow> ucoord_t \<Rightarrow> string" where
  "write_via_cell l c =
     (if qca_is_vertical_cell_mode (get_cell_mode qca_technology l c) then decimal (unat (cell_get_clock_number l c))
      else '' '') @ '' ''"

fun write_row :: "qca_layout \<Rightarrow> ucoord_t list \<Rightarrow> fqca_writer \<Rightarrow> out_of_cell_names + string \<times> fqca_writer" where
  "write_row l [] w = Inr ([newline], w)"
| "write_row l (c # cs) w =
     (case write_cell l c w of
        Inl e \<Rightarrow> Inl e
      | Inr (s, w1) \<Rightarrow>
          (case write_row l cs w1 of Inl e \<Rightarrow> Inl e | Inr (s', w2) \<Rightarrow> Inr (s @ s', w2)))"

text \<open>The cells of a row, the rows of a layer and the layers, in the order of the loops.\<close>

definition row_cells :: "qca_layout \<Rightarrow> nat \<Rightarrow> nat \<Rightarrow> ucoord_t list" where
  "row_cells l z y = map (\<lambda>x. ucoord3 (of_nat x) (of_nat y) (of_nat z)) [0..<unat (ux (lyt_dimension l)) + 1]"

fun write_rows :: "qca_layout \<Rightarrow> ucoord_t list list \<Rightarrow> fqca_writer \<Rightarrow> out_of_cell_names + string \<times> fqca_writer" where
  "write_rows l [] w = Inr ([], w)"
| "write_rows l (r # rs) w =
     (case write_row l r w of
        Inl e \<Rightarrow> Inl e
      | Inr (s, w1) \<Rightarrow>
          (case write_rows l rs w1 of Inl e \<Rightarrow> Inl e | Inr (s', w2) \<Rightarrow> Inr (s @ s', w2)))"

definition layer_rows :: "qca_layout \<Rightarrow> nat \<Rightarrow> ucoord_t list list" where
  "layer_rows l z = map (row_cells l z) [0..<unat (uy (lyt_dimension l)) + 1]"

definition write_via_layer :: "qca_layout \<Rightarrow> nat \<Rightarrow> string" where
  "write_via_layer l z =
     write_layer_separator l @ concat (map (\<lambda>r. concat (map (write_via_cell l) r) @ [newline]) (layer_rows l z))"

fun write_layers ::
    "bool \<Rightarrow> qca_layout \<Rightarrow> nat list \<Rightarrow> fqca_writer \<Rightarrow> out_of_cell_names + string \<times> fqca_writer" where
  "write_layers vias l [] w = Inr (write_layer_separator l, w)"
| "write_layers vias l (z # zs) w =
     (case write_rows l (layer_rows l z) w of
        Inl e \<Rightarrow> Inl e
      | Inr (s, w1) \<Rightarrow>
          (let via = (if vias \<and> z \<noteq> unat (uz (lyt_dimension l)) then write_via_layer l z else [])
           in case write_layers vias l zs w1 of
                Inl e \<Rightarrow> Inl e
              | Inr (s', w2) \<Rightarrow> Inr (write_layer_separator l @ s @ via @ s', w2)))"

definition write_layout_definition ::
    "bool \<Rightarrow> qca_layout \<Rightarrow> fqca_writer \<Rightarrow> out_of_cell_names + string \<times> fqca_writer" where
  "write_layout_definition vias l w = write_layers vias l [0..<unat (uz (lyt_dimension l)) + 1] w"

definition section_separator :: string where
  "section_separator = [newline, newline, CHR ''$'', newline, newline]"

definition write_labeled_cell :: "qca_layout \<Rightarrow> ucoord_t \<times> char \<Rightarrow> string" where
  "write_labeled_cell l lc =
     (case lc of (c, d) \<Rightarrow>
        [d, CHR '':'', newline] @
        (if cell_is_pi l c then ''- input'' @ [newline] else []) @
        (if cell_is_po l c then ''- output'' @ [newline] else []) @
        (if get_cell_name l c \<noteq> [] then ''- label = '' @ [CHR 0x22] @ get_cell_name l c @ [CHR 0x22, newline] else []) @
        ''- clock = '' @ decimal (unat (cell_get_clock_number l c)) @ [newline, newline])"

definition write_cell_definition :: "qca_layout \<Rightarrow> (ucoord_t \<times> char) list \<Rightarrow> string" where
  "write_cell_definition l labeled = concat (map (write_labeled_cell l) labeled)"

definition write_fqca_layout :: "string \<Rightarrow> string \<Rightarrow> bool \<Rightarrow> qca_layout \<Rightarrow> out_of_cell_names + string" where
  "write_fqca_layout version repo vias l =
     (case write_layout_definition vias l (cell_alphabet, []) of
        Inl e \<Rightarrow> Inl e
      | Inr (s, w) \<Rightarrow> Inr (write_header version repo l @ s @ section_separator @ write_cell_definition l (snd w)))"

section \<open>Recognizers of lines\<close>

definition remove_white_space :: "string \<Rightarrow> string" where
  "remove_white_space s = filter (\<lambda>c. \<not> is_space c) s"

definition match_comment :: "string \<Rightarrow> bool" where
  "match_comment s = (2 \<le> length s \<and> hd s = CHR ''['' \<and> last s = CHR '']'')"

definition match_layer_separator :: "string \<Rightarrow> bool" where
  "match_layer_separator s = (s \<noteq> [] \<and> list_all (\<lambda>c. c = CHR ''='') s)"

definition match_cell_id :: "string \<Rightarrow> char option" where
  "match_cell_id s = (case s of [c, d] \<Rightarrow> if is_word_char c \<and> d = CHR '':'' then Some c else None | _ \<Rightarrow> None)"

text \<open>What follows a prefix.\<close>

fun strip_prefix :: "string \<Rightarrow> string \<Rightarrow> string option" where
  "strip_prefix [] s = Some s"
| "strip_prefix (p # ps) [] = None"
| "strip_prefix (p # ps) (c # cs) = (if p = c then strip_prefix ps cs else None)"

definition match_cell_label :: "string \<Rightarrow> string option" where
  "match_cell_label s =
     (case strip_prefix (''-label='' @ [CHR 0x22]) s of
        None \<Rightarrow> None
      | Some r \<Rightarrow> if r \<noteq> [] \<and> last r = CHR 0x22 then Some (butlast r) else None)"

definition match_digit_item :: "string \<Rightarrow> string \<Rightarrow> char option" where
  "match_digit_item item s =
     (case strip_prefix item s of Some [d] \<Rightarrow> if is_digit d then Some d else None | _ \<Rightarrow> None)"

text \<open>An optional minus, digits, and optionally a point with at least one digit.\<close>

definition match_number :: "string \<Rightarrow> bool" where
  "match_number s =
     (let s1 = (if s \<noteq> [] \<and> hd s = CHR ''-'' then tl s else s);
          r = dropWhile is_digit s1
      in r = [] \<or> (hd r = CHR ''.'' \<and> tl r \<noteq> [] \<and> list_all is_digit (tl r)))"

definition match_cell_offset :: "string \<Rightarrow> bool" where
  "match_cell_offset s =
     (case strip_prefix ''-offset=('' s of
        None \<Rightarrow> False
      | Some r \<Rightarrow>
          r \<noteq> [] \<and> last r = CHR '')'' \<and>
          (let x = takeWhile (\<lambda>c. c \<noteq> CHR '','') (butlast r);
               r1 = dropWhile (\<lambda>c. c \<noteq> CHR '','') (butlast r);
               y = takeWhile (\<lambda>c. c \<noteq> CHR '','') (tl r1);
               r2 = dropWhile (\<lambda>c. c \<noteq> CHR '','') (tl r1)
           in r1 \<noteq> [] \<and> r2 \<noteq> [] \<and> match_number x \<and> match_number y \<and> match_number (tl r2)))"

section \<open>Reading\<close>

datatype fqca_error =
  Unsupported_Character char | Undefined_Cell_Label char | Unrecognized_Cell_Definition nat

datatype fqca_section = LAYOUT_DEFINITION | CELL_DEFINITION

record fqca_reader =
  fq_lyt :: qca_layout
  fq_section :: fqca_section
  fq_next_layer :: u64
  fq_row :: u64
  fq_max :: ucoord_t
  fq_current :: ucoord_t
  fq_labels :: "char \<rightharpoonup> ucoord_t"

definition new_fqca_reader :: "topology \<Rightarrow> string \<Rightarrow> fqca_reader" where
  "new_fqca_reader t name =
     \<lparr>fq_lyt = open_cell_level_layout t ucoord_default name 1 1, fq_section = LAYOUT_DEFINITION, fq_next_layer = 0,
      fq_row = 0, fq_max = ucoord_default, fq_current = ucoord_default, fq_labels = Map.empty\<rparr>"

definition to_clock_number :: "qca_layout \<Rightarrow> char \<Rightarrow> u8" where
  "to_clock_number l c = of_nat ((of_char c :: nat) mod unat (num_clocks l))"

abbreviation qca_assign_type :: "ucoord_t \<Rightarrow> cell_type \<Rightarrow> qca_layout \<Rightarrow> qca_layout" where
  "qca_assign_type \<equiv> assign_cell_type qca_technology"

text \<open>The cell that a character stands for, and then its mode and the bounding box.\<close>

definition place_cell :: "char \<Rightarrow> ucoord_t \<Rightarrow> fqca_reader \<Rightarrow> fqca_error + fqca_reader" where
  "place_cell c cell s =
     (if is_digit c then
        (let l1 = qca_assign_type cell QCA_NORMAL (fq_lyt s)
         in Inr (s\<lparr>fq_lyt := assign_clock_number cell (to_clock_number l1 c) l1\<rparr>))
      else if is_alpha c then
        Inr (s\<lparr>fq_lyt := qca_assign_type cell QCA_NORMAL (fq_lyt s), fq_labels := (fq_labels s)(c \<mapsto> cell)\<rparr>)
      else if c = CHR ''-'' then Inr (s\<lparr>fq_lyt := qca_assign_type cell QCA_CONST_0 (fq_lyt s)\<rparr>)
      else if c = CHR ''+'' then Inr (s\<lparr>fq_lyt := qca_assign_type cell QCA_CONST_1 (fq_lyt s)\<rparr>)
      else Inl (Unsupported_Character c))"

definition finish_cell :: "ucoord_t \<Rightarrow> fqca_reader \<Rightarrow> fqca_reader" where
  "finish_cell cell s =
     (let s1 = (if uz cell \<noteq> 0 then
                  s\<lparr>fq_lyt := assign_cell_mode qca_technology cell
                     (if uz cell mod 2 = 0 then MODE_CROSSOVER else MODE_VERTICAL) (fq_lyt s)\<rparr>
                else s);
          m = fq_max s1;
          m1 = (if ux m < ux cell then m\<lparr>ux := ux cell\<rparr> else m);
          m2 = (if uy m1 < uy cell then m1\<lparr>uy := uy cell\<rparr> else m1);
          m3 = (if uz m2 < uz cell then m2\<lparr>uz := uz cell\<rparr> else m2)
      in s1\<lparr>fq_max := m3\<rparr>)"

definition parse_cell :: "char \<Rightarrow> ucoord_t \<Rightarrow> fqca_reader \<Rightarrow> fqca_error + fqca_reader" where
  "parse_cell c cell s =
     (if is_space c then Inr s
      else case place_cell c cell s of Inl e \<Rightarrow> Inl e | Inr s1 \<Rightarrow> Inr (finish_cell cell s1))"

text \<open>Every second character of a line is a cell.\<close>

fun parse_row :: "string \<Rightarrow> u64 \<Rightarrow> fqca_reader \<Rightarrow> fqca_error + fqca_reader" where
  "parse_row [] column s = Inr s"
| "parse_row [c] column s = parse_cell c (ucoord3 column (fq_row s) (fq_next_layer s - 1)) s"
| "parse_row (c # _ # cs) column s =
     (case parse_cell c (ucoord3 column (fq_row s) (fq_next_layer s - 1)) s of
        Inl e \<Rightarrow> Inl e
      | Inr s1 \<Rightarrow> parse_row cs (column + 1) s1)"

definition parse_layout_line :: "string \<Rightarrow> fqca_reader \<Rightarrow> fqca_error + fqca_reader" where
  "parse_layout_line line s =
     (let sl = remove_white_space line
      in if match_comment sl then Inr s
         else if match_layer_separator sl then Inr (s\<lparr>fq_row := 0, fq_next_layer := fq_next_layer s + 1\<rparr>)
         else if sl = ''$'' then Inr (s\<lparr>fq_section := CELL_DEFINITION\<rparr>)
         else (case parse_row line 0 s of Inl e \<Rightarrow> Inl e | Inr s1 \<Rightarrow> Inr (s1\<lparr>fq_row := fq_row s1 + 1\<rparr>)))"

definition parse_definition_line :: "nat \<Rightarrow> string \<Rightarrow> fqca_reader \<Rightarrow> fqca_error + fqca_reader" where
  "parse_definition_line line_number line s =
     (let sl = remove_white_space line
      in if sl = [] then Inr s
         else (case match_cell_id sl of
           Some cell_id \<Rightarrow>
             (case fq_labels s cell_id of
                Some cell \<Rightarrow> Inr (s\<lparr>fq_current := cell\<rparr>)
              | None \<Rightarrow> Inl (Undefined_Cell_Label cell_id))
         | None \<Rightarrow>
             if sl = ''-input'' then Inr (s\<lparr>fq_lyt := qca_assign_type (fq_current s) QCA_INPUT (fq_lyt s)\<rparr>)
             else if sl = ''-output'' then Inr (s\<lparr>fq_lyt := qca_assign_type (fq_current s) QCA_OUTPUT (fq_lyt s)\<rparr>)
             else (case match_cell_label sl of
               Some label \<Rightarrow> Inr (s\<lparr>fq_lyt := assign_cell_name (fq_current s) label (fq_lyt s)\<rparr>)
             | None \<Rightarrow>
                 (case match_digit_item ''-clock='' sl of
                    Some d \<Rightarrow> Inr (s\<lparr>fq_lyt := assign_clock_number (fq_current s) (to_clock_number (fq_lyt s) d) (fq_lyt s)\<rparr>)
                  | None \<Rightarrow>
                      if sl = ''-propagate'' \<or> match_digit_item ''-number='' sl \<noteq> None \<or> match_cell_offset sl then Inr s
                      else Inl (Unrecognized_Cell_Definition line_number)))))"

text \<open>\<open>std::getline\<close> until the stream ends.\<close>

fun get_lines :: "string \<Rightarrow> string \<Rightarrow> string list" where
  "get_lines cur [] = (if cur = [] then [] else [cur])"
| "get_lines cur (c # cs) = (if c = newline then cur # get_lines [] cs else get_lines (cur @ [c]) cs)"

fun read_lines :: "nat \<Rightarrow> string list \<Rightarrow> fqca_reader \<Rightarrow> fqca_error + fqca_reader" where
  "read_lines n [] s = Inr s"
| "read_lines n (line # ls) s =
     (case (if line = [] then Inr s
            else if fq_section s = LAYOUT_DEFINITION then parse_layout_line line s
            else parse_definition_line n line s) of
        Inl e \<Rightarrow> Inl e
      | Inr s1 \<Rightarrow> read_lines (Suc n) ls s1)"

definition read_fqca_layout :: "topology \<Rightarrow> string \<Rightarrow> string \<Rightarrow> fqca_error + qca_layout" where
  "read_fqca_layout t name text =
     (case read_lines 1 (get_lines [] text) (new_fqca_reader t name) of
        Inl e \<Rightarrow> Inl e
      | Inr s \<Rightarrow> Inr (lyt_resize (fq_max s) (fq_lyt s)))"

end
