(* ===== verification/Fqca_Roundtrip.thy ===== *)
theory Fqca_Roundtrip
  imports Fqca_Layout
begin

text \<open>
  What is written by \<open>write_fqca_layout\<close> is read back by \<open>read_fqca_layout\<close>, for the layouts that the
  format can express. The proof follows the two programs through the rows: the invariant \<open>reads\<close>
  relates the reader to the cells written so far.
\<close>

section \<open>Representable layouts\<close>

text \<open>A cell with a designator.\<close>

definition labeled :: "qca_layout \<Rightarrow> ucoord_t \<Rightarrow> bool" where
  "labeled l c \<longleftrightarrow> get_cell_name l c \<noteq> [] \<or> cell_is_pi l c \<or> cell_is_po l c"

definition all_cells :: "qca_layout \<Rightarrow> ucoord_t list" where
  "all_cells l = concat (map (\<lambda>z. concat (layer_rows l z)) [0..<unat (uz (lyt_dimension l)) + 1])"

definition fqca_writable :: "qca_layout \<Rightarrow> bool" where
  "fqca_writable l \<longleftrightarrow>
     (\<forall>c. \<not> lyt_in_grid l c \<longrightarrow> get_cell_type qca_technology l c = QCA_EMPTY) \<and>
     (\<forall>c. get_cell_type qca_technology l c \<in> {QCA_EMPTY, QCA_NORMAL, QCA_INPUT, QCA_OUTPUT, QCA_CONST_0, QCA_CONST_1}) \<and>
     (\<forall>c. cell_is_pi l c \<longleftrightarrow> get_cell_type qca_technology l c = QCA_INPUT) \<and>
     (\<forall>c. cell_is_po l c \<longleftrightarrow> get_cell_type qca_technology l c = QCA_OUTPUT) \<and>
     (\<forall>c. get_cell_name l c \<noteq> [] \<longrightarrow> get_cell_type qca_technology l c \<in> {QCA_NORMAL, QCA_INPUT, QCA_OUTPUT}) \<and>
     (\<forall>c. \<forall>x\<in>set (get_cell_name l c). \<not> is_space x) \<and>
     (\<forall>c. cell_get_clock_number l c < 4) \<and>
     length (filter (labeled l) (all_cells l)) \<le> length cell_alphabet"

abbreviation qca_type :: "qca_layout \<Rightarrow> ucoord_t \<Rightarrow> cell_type" where
  "qca_type \<equiv> get_cell_type qca_technology"

lemma writableD:
  assumes "fqca_writable l"
  shows "\<not> lyt_in_grid l c \<Longrightarrow> qca_type l c = QCA_EMPTY"
    and "qca_type l c \<in> {QCA_EMPTY, QCA_NORMAL, QCA_INPUT, QCA_OUTPUT, QCA_CONST_0, QCA_CONST_1}"
    and "cell_is_pi l c \<longleftrightarrow> qca_type l c = QCA_INPUT" and "cell_is_po l c \<longleftrightarrow> qca_type l c = QCA_OUTPUT"
    and "get_cell_name l c \<noteq> [] \<Longrightarrow> qca_type l c \<in> {QCA_NORMAL, QCA_INPUT, QCA_OUTPUT}"
    and "x \<in> set (get_cell_name l c) \<Longrightarrow> \<not> is_space x"
    and "cell_get_clock_number l c < 4"
  using assms unfolding fqca_writable_def by blast+

lemma qca_distinct [simp]:
  "QCA_EMPTY \<noteq> QCA_NORMAL" "QCA_EMPTY \<noteq> QCA_INPUT" "QCA_EMPTY \<noteq> QCA_OUTPUT" "QCA_EMPTY \<noteq> QCA_CONST_0" "QCA_EMPTY \<noteq> QCA_CONST_1"
  "QCA_NORMAL \<noteq> QCA_EMPTY" "QCA_NORMAL \<noteq> QCA_INPUT" "QCA_NORMAL \<noteq> QCA_OUTPUT" "QCA_NORMAL \<noteq> QCA_CONST_0" "QCA_NORMAL \<noteq> QCA_CONST_1"
  "QCA_INPUT \<noteq> QCA_EMPTY" "QCA_INPUT \<noteq> QCA_NORMAL" "QCA_INPUT \<noteq> QCA_OUTPUT" "QCA_INPUT \<noteq> QCA_CONST_0" "QCA_INPUT \<noteq> QCA_CONST_1"
  "QCA_OUTPUT \<noteq> QCA_EMPTY" "QCA_OUTPUT \<noteq> QCA_NORMAL" "QCA_OUTPUT \<noteq> QCA_INPUT" "QCA_OUTPUT \<noteq> QCA_CONST_0" "QCA_OUTPUT \<noteq> QCA_CONST_1"
  "QCA_CONST_0 \<noteq> QCA_EMPTY" "QCA_CONST_0 \<noteq> QCA_NORMAL" "QCA_CONST_0 \<noteq> QCA_INPUT" "QCA_CONST_0 \<noteq> QCA_OUTPUT" "QCA_CONST_0 \<noteq> QCA_CONST_1"
  "QCA_CONST_1 \<noteq> QCA_EMPTY" "QCA_CONST_1 \<noteq> QCA_NORMAL" "QCA_CONST_1 \<noteq> QCA_INPUT" "QCA_CONST_1 \<noteq> QCA_OUTPUT" "QCA_CONST_1 \<noteq> QCA_CONST_0"
  by (simp_all add: qca_cell_defs)

section \<open>Effects of the operations\<close>

lemma fqca_ops [simp]:
  "get_cell_name (assign_cell_type T c ct l) d = get_cell_name l d"
  "get_cell_name (assign_clock_number c n l) d = get_cell_name l d"
  "get_cell_name (assign_cell_mode T c m l) d = get_cell_name l d"
  "get_cell_type T (assign_clock_number c n l) = get_cell_type T l"
  "cl_clocking (assign_cell_mode T c m l) = cl_clocking l" "cl_clocking (assign_cell_name c nm l) = cl_clocking l"
  "cl_clocking (assign_clock_number c n l) = override_clock_number c n (cl_clocking l)"
  "get_cell_mode T (assign_cell_name c nm l) d = get_cell_mode T l d"
  "get_cell_mode T (assign_clock_number c n l) d = get_cell_mode T l d"
  by (simp_all add: get_cell_name_def get_cell_type_def get_cell_mode_def assign_cell_type_def assign_clock_number_def
      assign_cell_mode_def assign_cell_name_def Let_def fun_eq_iff)

lemma get_mode_assign_type:
  "ct \<noteq> QCA_EMPTY \<Longrightarrow> get_cell_mode qca_technology (qca_assign_type c ct l) d = get_cell_mode qca_technology l d"
  by (simp add: get_cell_mode_def cell_maps_assign_type qca.empty_cell)

lemmas qca_get_assign =
  qca.get_assign_cell_type get_mode_assign_type get_assign_cell_name get_assign_cell_mode [OF qca.cell_technology_axioms]

text \<open>The clocking of the layout under construction: irregular, with four clocks.\<close>

definition open_four :: "qca_layout \<Rightarrow> bool" where
  "open_four l \<longleftrightarrow> \<not> cs_regular (cl_clocking l) \<and> cs_num_clocks (cl_clocking l) = 4"

lemma open_four_ops [simp]:
  "open_four (assign_cell_type T c ct l) = open_four l" "open_four (assign_cell_mode T c m l) = open_four l"
  "open_four (assign_cell_name c nm l) = open_four l"
  "open_four l \<Longrightarrow> open_four (assign_clock_number c n l)"
  by (simp_all add: open_four_def override_clock_number_def)

lemma clock_ops:
  "get_clock_number (assign_cell_type T c ct l) d = get_clock_number l d"
  "get_clock_number (assign_cell_mode T c m l) d = get_clock_number l d"
  "get_clock_number (assign_cell_name c nm l) d = get_clock_number l d"
  "open_four l \<Longrightarrow> get_clock_number (assign_clock_number c n l) d = (if d = c then n mod 4 else get_clock_number l d)"
  by (simp_all add: get_clock_number_def override_clock_number_def open_four_def scheme_clock_def split: option.split)

text \<open>A clock number of one digit is read as it was written.\<close>

definition digit :: "u8 \<Rightarrow> char" where
  "digit n = char_of (48 + unat n)"

lemma digit_decimal: "n < 4 \<Longrightarrow> decimal (unat n) = [digit n]"
  by (simp add: digit_def word_less_nat_alt)

lemma of_char_digit: "n < 4 \<Longrightarrow> (of_char (digit n) :: nat) = 48 + unat n"
  by (simp add: digit_def word_less_nat_alt)

lemma digit_class:
  assumes "n < 4"
  shows "is_digit (digit n)" "\<not> is_space (digit n)" "\<not> is_alpha (digit n)"
proof -
  have o: "(of_char (digit n) :: nat) = 48 + unat n" "unat n < 4"
    using of_char_digit [OF assms] assms by (simp_all add: word_less_nat_alt)
  then have "digit n \<noteq> CHR '' ''" by auto
  with o show "is_digit (digit n)" "\<not> is_space (digit n)" "\<not> is_alpha (digit n)"
    by (simp_all add: is_digit_def is_space_def is_alpha_def)
qed

lemma to_clock_digit:
  assumes "n < 4" and "open_four l"
  shows "to_clock_number l (digit n) = n" and "n mod 4 = n"
proof -
  have "unat n < 4" using assms(1) by (simp add: word_less_nat_alt)
  then have "(48 + unat n) mod 4 = unat n" by presburger
  then show "to_clock_number l (digit n) = n"
    using assms by (simp add: to_clock_number_def of_char_digit num_clocks_def open_four_def)
  have "unat (n mod 4) = unat n" using \<open>unat n < 4\<close> by (simp add: unat_mod_distrib)
  then show "n mod 4 = n" by (simp only: word_unat_eq_iff)
qed

section \<open>The cells\<close>

text \<open>What the layout definition says of a cell: its type, where labeled cells are normal.\<close>

definition first_type :: "qca_layout \<Rightarrow> ucoord_t \<Rightarrow> cell_type" where
  "first_type l c = (if qca_type l c \<noteq> QCA_EMPTY \<and> labeled l c then QCA_NORMAL else qca_type l c)"

definition shows_clock :: "qca_layout \<Rightarrow> ucoord_t \<Rightarrow> bool" where
  "shows_clock l c \<longleftrightarrow> qca_type l c = QCA_NORMAL \<and> \<not> labeled l c"

text \<open>The reader has read the cells \<open>P\<close> of the layout definition, \<open>L\<close> of them with designators.\<close>

definition reads :: "qca_layout \<Rightarrow> ucoord_t set \<Rightarrow> (ucoord_t \<times> char) list \<Rightarrow> fqca_reader \<Rightarrow> bool" where
  "reads l P L s \<longleftrightarrow> fq_section s = LAYOUT_DEFINITION \<and> open_four (fq_lyt s) \<and>
     (\<forall>c. qca_type (fq_lyt s) c = (if c \<in> P then first_type l c else QCA_EMPTY)) \<and>
     (\<forall>c. get_cell_name (fq_lyt s) c = []) \<and>
     (\<forall>c. get_cell_mode qca_technology (fq_lyt s) c =
        (if c \<in> P \<and> qca_type l c \<noteq> QCA_EMPTY \<and> uz c \<noteq> 0 then MODE_VERTICAL else MODE_NORMAL)) \<and>
     (\<forall>c\<in>P. shows_clock l c \<longrightarrow> get_clock_number (fq_lyt s) c = cell_get_clock_number l c) \<and>
     cll_tile_size_x (fq_lyt s) = 1 \<and> cll_tile_size_y (fq_lyt s) = 1 \<and>
     fq_labels s = map_of (map prod.swap L)"

text \<open>The character of a cell, given the next designator.\<close>

definition cell_char :: "qca_layout \<Rightarrow> ucoord_t \<Rightarrow> char \<Rightarrow> char" where
  "cell_char l c d =
     (if qca_type l c = QCA_EMPTY then CHR '' ''
      else if labeled l c then d
      else if qca_type l c = QCA_CONST_0 then CHR ''-''
      else if qca_type l c = QCA_CONST_1 then CHR ''+''
      else digit (cell_get_clock_number l c))"

lemma empty_not_labeled: "fqca_writable l \<Longrightarrow> qca_type l c = QCA_EMPTY \<Longrightarrow> \<not> labeled l c"
  using writableD(3,4,5) [of l c] by (cases "get_cell_name l c = []") (auto simp: labeled_def)

lemma const_not_labeled:
  "fqca_writable l \<Longrightarrow> qca_type l c = QCA_CONST_0 \<or> qca_type l c = QCA_CONST_1 \<Longrightarrow> \<not> labeled l c"
  using writableD(3,4,5) [of l c] by (cases "get_cell_name l c = []") (auto simp: labeled_def)

lemma write_cell_char:
  assumes "fqca_writable l" and "labeled l c \<Longrightarrow> ds \<noteq> []"
  shows "write_cell l c (ds, L) =
    Inr ([cell_char l c (hd ds), CHR '' ''],
      if labeled l c then (tl ds, L @ [(c, hd ds)]) else (ds, L))"
proof (cases "labeled l c")
  case True
  then have "qca_type l c \<noteq> QCA_EMPTY" "get_cell_name l c \<noteq> [] \<or> cell_is_pi l c \<or> cell_is_po l c"
    using empty_not_labeled [OF assms(1)] by (auto simp: labeled_def)
  then show ?thesis
    using True assms(2) by (cases ds) (auto simp: write_cell_def cell_char_def qca.is_empty_iff labeled_def)
next
  case False
  then show ?thesis
    using digit_decimal [OF writableD(7) [OF assms(1)], of c]
    by (simp add: write_cell_def cell_char_def qca.is_empty_iff labeled_def qca_is_const_0_cell_def qca_is_const_1_cell_def
        del: decimal.simps)
qed

lemma unlabeled_type:
  assumes "fqca_writable l" and "\<not> labeled l c"
  shows "qca_type l c \<in> {QCA_EMPTY, QCA_NORMAL, QCA_CONST_0, QCA_CONST_1}"
  using writableD(2,3,4) [OF assms(1), of c] assms(2) by (auto simp: labeled_def)

lemma finish_cell_simps [simp]:
  "fq_section (finish_cell c s) = fq_section s" "fq_next_layer (finish_cell c s) = fq_next_layer s"
  "fq_row (finish_cell c s) = fq_row s" "fq_labels (finish_cell c s) = fq_labels s"
  by (simp_all add: finish_cell_def Let_def)

lemma odd_layer: "(z :: 1 word) \<noteq> 0 \<Longrightarrow> z mod 2 \<noteq> 0"
  using word1_cases [of z] by auto

lemma finish_cell_lyt:
  "fq_lyt (finish_cell c s) =
     (if uz c \<noteq> 0 then assign_cell_mode qca_technology c MODE_VERTICAL (fq_lyt s) else fq_lyt s)"
  using odd_layer [of "uz c"] by (simp add: finish_cell_def Let_def)

lemma alpha_class:
  assumes "is_alpha d"
  shows "\<not> is_space d" "\<not> is_digit d"
proof -
  have "d \<noteq> CHR '' ''" using assms by (auto simp: is_alpha_def)
  with assms show "\<not> is_space d" "\<not> is_digit d" by (auto simp: is_alpha_def is_space_def is_digit_def)
qed

lemma tile_size_ops [simp]:
  "cll_tile_size_x (assign_cell_mode T c m l) = cll_tile_size_x l" "cll_tile_size_y (assign_cell_mode T c m l) = cll_tile_size_y l"
  "cll_tile_size_x (assign_cell_name c nm l) = cll_tile_size_x l" "cll_tile_size_y (assign_cell_name c nm l) = cll_tile_size_y l"
  "cll_tile_size_x (assign_clock_number c n l) = cll_tile_size_x l" "cll_tile_size_y (assign_clock_number c n l) = cll_tile_size_y l"
  by (simp_all add: assign_cell_mode_def assign_cell_name_def assign_clock_number_def)

lemma parse_cell_reads:
  assumes w: "fqca_writable l" and r: "reads l P L s" and c: "c \<notin> P"
    and d: "labeled l c \<Longrightarrow> is_alpha d \<and> d \<notin> snd ` set L"
  shows "\<exists>s'. parse_cell (cell_char l c d) c s = Inr s' \<and>
    reads l (insert c P) (if labeled l c then L @ [(c, d)] else L) s' \<and> fq_row s' = fq_row s \<and>
    fq_next_layer s' = fq_next_layer s"
proof -
  have o: "open_four (fq_lyt s)" using r by (simp add: reads_def)
  consider (empty) "qca_type l c = QCA_EMPTY" "\<not> labeled l c" | (lab) "qca_type l c \<noteq> QCA_EMPTY" "labeled l c"
    | (plain) "qca_type l c = QCA_NORMAL" "\<not> labeled l c" | (c0) "qca_type l c = QCA_CONST_0" "\<not> labeled l c"
    | (c1) "qca_type l c = QCA_CONST_1" "\<not> labeled l c"
    using unlabeled_type [OF w] empty_not_labeled [OF w] by blast
  then show ?thesis
  proof cases
    case empty
    then have "parse_cell (cell_char l c d) c s = Inr s" by (simp add: parse_cell_def cell_char_def is_space_def)
    moreover have "reads l (insert c P) L s"
      using r empty c unfolding reads_def by (simp add: first_type_def shows_clock_def)
    ultimately show ?thesis using empty by simp
  next
    case lab
    have dd: "is_alpha d" "d \<notin> snd ` set L" "\<not> is_space d" "\<not> is_digit d" using d lab alpha_class by auto
    have "d \<notin> dom (map_of (map prod.swap L))"
      using dd(2) by (simp add: dom_map_of_conv_image_fst image_image)
    then have m: "[d \<mapsto> c] ++ map_of (map prod.swap L) = (map_of (map prod.swap L))(d \<mapsto> c)"
      using map_add_comm [of "[d \<mapsto> c]" "map_of (map prod.swap L)"] by simp
    show ?thesis
      using r lab c dd unfolding reads_def
      by (simp add: parse_cell_def place_cell_def cell_char_def finish_cell_lyt qca_get_assign first_type_def shows_clock_def
          clock_ops m)
  next
    case plain
    note n = writableD(7) [OF w, of c]
    show ?thesis
      using r plain c digit_class [OF n] to_clock_digit [OF n] o unfolding reads_def
      by (simp add: parse_cell_def place_cell_def cell_char_def finish_cell_lyt qca_get_assign first_type_def shows_clock_def
          clock_ops Let_def)
  next
    case c0
    then show ?thesis
      using r c unfolding reads_def
      by (simp add: parse_cell_def place_cell_def cell_char_def finish_cell_lyt qca_get_assign first_type_def shows_clock_def
          clock_ops is_space_def is_digit_def is_alpha_def)
  next
    case c1
    then show ?thesis
      using r c unfolding reads_def
      by (simp add: parse_cell_def place_cell_def cell_char_def finish_cell_lyt qca_get_assign first_type_def shows_clock_def
          clock_ops is_space_def is_digit_def is_alpha_def)
  qed
qed

section \<open>Rows and layers\<close>

declare upt_Suc [simp del]

text \<open>The writer has given designators to the cells of \<open>P\<close> that need one.\<close>

definition designates :: "qca_layout \<Rightarrow> ucoord_t set \<Rightarrow> fqca_writer \<Rightarrow> bool" where
  "designates l P w \<longleftrightarrow> distinct (fst w @ map snd (snd w)) \<and> (\<forall>d\<in>set (fst w) \<union> snd ` set (snd w). is_alpha d) \<and>
     distinct (map fst (snd w)) \<and> fst ` set (snd w) = {c \<in> P. labeled l c} \<and>
     length (fst w) + length (snd w) = length cell_alphabet"

lemma designator_left:
  assumes "fqca_writable l" and "designates l P w" and "P \<subseteq> set (all_cells l)" and "c \<in> set (all_cells l)" and "c \<notin> P"
    and "labeled l c"
  shows "fst w \<noteq> []"
proof -
  let ?A = "set (filter (labeled l) (all_cells l))"
  have "fst ` set (snd w) \<subset> ?A" using assms unfolding designates_def by auto
  then have "card (fst ` set (snd w)) < card ?A" by (intro psubset_card_mono) simp_all
  moreover have "card (fst ` set (snd w)) = length (snd w)"
    using assms(2) distinct_card [of "map fst (snd w)"] by (simp add: designates_def)
  moreover have "card ?A \<le> length cell_alphabet"
    using card_length [of "filter (labeled l) (all_cells l)"] assms(1) by (simp add: fqca_writable_def)
  ultimately show ?thesis using assms(2) by (cases "fst w") (auto simp: designates_def)
qed

definition plain_char :: "char \<Rightarrow> bool" where
  "plain_char c \<longleftrightarrow> c = CHR '' '' \<or> is_digit c \<or> is_alpha c \<or> c = CHR ''-'' \<or> c = CHR ''+''"

lemma cell_char_plain: "fqca_writable l \<Longrightarrow> (labeled l c \<Longrightarrow> is_alpha d) \<Longrightarrow> plain_char (cell_char l c d)"
  using digit_class(1) [OF writableD(7) [of l c]] by (simp add: cell_char_def plain_char_def)

definition at :: "nat \<Rightarrow> nat \<Rightarrow> nat \<Rightarrow> ucoord_t" where
  "at z y x = ucoord3 (of_nat x) (of_nat y) (of_nat z)"

lemma row_round:
  assumes w: "fqca_writable l"
  shows "reads l P (snd w) s \<Longrightarrow> designates l P w \<Longrightarrow> P \<subseteq> set (all_cells l) \<Longrightarrow>
    set (map (at z y) [a..<a + n]) \<subseteq> set (all_cells l) \<Longrightarrow> distinct (map (at z y) [a..<a + n]) \<Longrightarrow>
    P \<inter> set (map (at z y) [a..<a + n]) = {} \<Longrightarrow> fq_row s = of_nat y \<Longrightarrow> fq_next_layer s - 1 = of_nat z \<Longrightarrow>
    \<exists>txt w' s'. write_row l (map (at z y) [a..<a + n]) w = Inr (txt @ [newline], w') \<and>
      parse_row txt (of_nat a) s = Inr s' \<and> reads l (P \<union> set (map (at z y) [a..<a + n])) (snd w') s' \<and>
      designates l (P \<union> set (map (at z y) [a..<a + n])) w' \<and> fq_row s' = fq_row s \<and>
      fq_next_layer s' = fq_next_layer s \<and> list_all plain_char txt \<and> (0 < n \<longrightarrow> txt \<noteq> [])"
proof (induction n arbitrary: a P w s)
  case 0
  then show ?case by simp
next
  case (Suc n)
  let ?c = "at z y a" and ?cs = "map (at z y) [Suc a..<Suc a + n]"
  have u: "map (at z y) [a..<a + Suc n] = ?c # ?cs" by (simp add: upt_conv_Cons)
  have c: "?c \<in> set (all_cells l)" "?c \<notin> P" "?c \<notin> set ?cs"
    and prem: "insert ?c P \<subseteq> set (all_cells l)" "set ?cs \<subseteq> set (all_cells l)" "distinct ?cs" "insert ?c P \<inter> set ?cs = {}"
    using Suc.prems(3-6) unfolding u list.set distinct.simps by blast+
  have d: "fst w \<noteq> []" if "labeled l ?c"
    using designator_left [OF w Suc.prems(2,3) c(1,2) that] .
  define w1 where "w1 = (if labeled l ?c then (tl (fst w), snd w @ [(?c, hd (fst w))]) else w)"
  have wc: "write_cell l ?c w = Inr ([cell_char l ?c (hd (fst w)), CHR '' ''], w1)"
    using write_cell_char [OF w, of ?c "fst w" "snd w"] d by (simp add: w1_def)
  have al: "is_alpha (hd (fst w)) \<and> hd (fst w) \<notin> snd ` set (snd w)" if "labeled l ?c"
    using d [OF that] Suc.prems(2) by (cases "fst w") (auto simp: designates_def)
  obtain s1 where s1: "parse_cell (cell_char l ?c (hd (fst w))) ?c s = Inr s1" "reads l (insert ?c P) (snd w1) s1"
      "fq_row s1 = fq_row s" "fq_next_layer s1 = fq_next_layer s"
    using parse_cell_reads [OF w Suc.prems(1) c(2) al] by (auto simp: w1_def split: if_splits)
  have d1: "designates l (insert ?c P) w1"
    using Suc.prems(2) c(2) d by (cases "fst w") (auto simp: designates_def w1_def)
  obtain t w' s' where r: "write_row l ?cs w1 = Inr (t @ [newline], w')" "parse_row t (of_nat (Suc a)) s1 = Inr s'"
      "reads l (insert ?c P \<union> set ?cs) (snd w') s'" "designates l (insert ?c P \<union> set ?cs) w'" "fq_row s' = fq_row s1"
      "fq_next_layer s' = fq_next_layer s1" "list_all plain_char t"
    using Suc.IH [OF s1(2) d1 prem] Suc.prems(7,8) s1(3,4) by metis
  have "parse_row (cell_char l ?c (hd (fst w)) # CHR '' '' # t) (of_nat a) s = Inr s'"
    using s1(1) r(2) Suc.prems(7,8) by (simp add: at_def add.commute)
  moreover have "write_row l (?c # ?cs) w = Inr ((cell_char l ?c (hd (fst w)) # CHR '' '' # t) @ [newline], w')"
    using r(1) by (simp add: wc)
  moreover have "list_all plain_char (cell_char l ?c (hd (fst w)) # CHR '' '' # t)"
    using cell_char_plain [OF w] al r(7) by (simp add: plain_char_def)
  ultimately show ?case unfolding u using r(3-6) s1(3,4)
    by (intro exI [of _ "cell_char l ?c (hd (fst w)) # CHR '' '' # t"] exI [of _ w'] exI [of _ s']) simp
qed

text \<open>The lines \<open>ts\<close> take the reader from \<open>s\<close> to \<open>s'\<close>, whatever follows.\<close>

definition steps :: "string list \<Rightarrow> fqca_reader \<Rightarrow> fqca_reader \<Rightarrow> bool" where
  "steps ts s s' \<longleftrightarrow> (\<forall>k rest. read_lines k (ts @ rest) s = read_lines (k + length ts) rest s')"

definition unlines :: "string list \<Rightarrow> string" where
  "unlines ts = concat (map (\<lambda>t. t @ [newline]) ts)"

lemma unlines_simps [simp]: "unlines [] = []" "unlines (t # ts) = t @ newline # unlines ts" "unlines (ts @ us) = unlines ts @ unlines us"
  by (simp_all add: unlines_def)

lemma steps_nil [simp]: "steps [] s s"
  by (simp add: steps_def)

lemma steps_append: "steps ts s s1 \<Longrightarrow> steps us s1 s2 \<Longrightarrow> steps (ts @ us) s s2"
  by (simp add: steps_def add.assoc)

lemma steps_Cons: "steps [t] s s1 \<Longrightarrow> steps us s1 s2 \<Longrightarrow> steps (t # us) s s2"
  using steps_append [of "[t]"] by simp

lemma steps_blank: "steps [[]] s s"
  by (simp add: steps_def)

lemma steps_layout:
  "fq_section s = LAYOUT_DEFINITION \<Longrightarrow> t \<noteq> [] \<Longrightarrow> parse_layout_line t s = Inr s1 \<Longrightarrow> steps [t] s s1"
  by (simp add: steps_def)

lemma steps_definition:
  "fq_section s = CELL_DEFINITION \<Longrightarrow> t \<noteq> [] \<Longrightarrow> (\<And>n. parse_definition_line n t s = Inr s1) \<Longrightarrow> steps [t] s s1"
  by (simp add: steps_def)

lemma plain_excludes [simp]: "\<not> plain_char (CHR ''['')" "\<not> plain_char (CHR ''='')" "\<not> plain_char (CHR ''$'')" "\<not> plain_char newline"
  by (simp_all add: plain_char_def is_digit_def is_alpha_def newline_def)

lemma parse_layout_plain:
  assumes "list_all plain_char t"
  shows "parse_layout_line t s = (case parse_row t 0 s of Inl e \<Rightarrow> Inl e | Inr s1 \<Rightarrow> Inr (s1\<lparr>fq_row := fq_row s1 + 1\<rparr>))"
proof -
  have p: "list_all plain_char (remove_white_space t)" using assms by (auto simp: list_all_iff remove_white_space_def)
  have "\<not> match_comment (remove_white_space t)" "\<not> match_layer_separator (remove_white_space t)" "remove_white_space t \<noteq> ''$''"
    using p by (cases "remove_white_space t"; fastforce simp: match_comment_def match_layer_separator_def)+
  then show ?thesis by (simp add: parse_layout_line_def)
qed

lemma reads_counters [simp]: "reads l P L (s\<lparr>fq_row := y\<rparr>) = reads l P L s" "reads l P L (s\<lparr>fq_next_layer := z\<rparr>) = reads l P L s"
  by (simp_all add: reads_def)

definition rows_at :: "qca_layout \<Rightarrow> nat \<Rightarrow> nat list \<Rightarrow> ucoord_t list" where
  "rows_at l z ys = concat (map (row_cells l z) ys)"

lemma rows_at_simps [simp]: "rows_at l z [] = []" "rows_at l z (y # ys) = row_cells l z y @ rows_at l z ys"
  by (simp_all add: rows_at_def)

lemma row_cells_at: "row_cells l z y = map (at z y) [0..<0 + Suc (unat (ux (lyt_dimension l)))]"
  by (simp add: row_cells_def at_def)

lemma rows_round:
  assumes w: "fqca_writable l"
  shows "reads l P (snd w) s \<Longrightarrow> designates l P w \<Longrightarrow> P \<subseteq> set (all_cells l) \<Longrightarrow>
    set (rows_at l z [b..<b + n]) \<subseteq> set (all_cells l) \<Longrightarrow> distinct (rows_at l z [b..<b + n]) \<Longrightarrow>
    P \<inter> set (rows_at l z [b..<b + n]) = {} \<Longrightarrow> fq_row s = of_nat b \<Longrightarrow> fq_next_layer s - 1 = of_nat z \<Longrightarrow>
    \<exists>ts w' s'. write_rows l (map (row_cells l z) [b..<b + n]) w = Inr (unlines ts, w') \<and> steps ts s s' \<and>
      reads l (P \<union> set (rows_at l z [b..<b + n])) (snd w') s' \<and> designates l (P \<union> set (rows_at l z [b..<b + n])) w' \<and>
      fq_next_layer s' = fq_next_layer s \<and> list_all (list_all plain_char) ts"
proof (induction n arbitrary: b P w s)
  case 0
  show ?case using 0(1,2) by (intro exI [of _ "[]"] exI [of _ w] exI [of _ s]) simp
next
  case (Suc n)
  let ?c = "row_cells l z b" and ?cs = "rows_at l z [Suc b..<Suc b + n]"
  have u: "rows_at l z [b..<b + Suc n] = ?c @ ?cs" and v: "[b..<b + Suc n] = b # [Suc b..<Suc b + n]"
    by (simp_all add: upt_conv_Cons)
  have c: "set ?c \<subseteq> set (all_cells l)" "distinct ?c" "P \<inter> set ?c = {}"
    and prem: "P \<union> set ?c \<subseteq> set (all_cells l)" "set ?cs \<subseteq> set (all_cells l)" "distinct ?cs" "(P \<union> set ?c) \<inter> set ?cs = {}"
    using Suc.prems(3-6) unfolding u set_append distinct_append by blast+
  obtain t w1 s1 where r: "write_row l ?c w = Inr (t @ [newline], w1)" "parse_row t 0 s = Inr s1"
      "reads l (P \<union> set ?c) (snd w1) s1" "designates l (P \<union> set ?c) w1" "fq_row s1 = fq_row s"
      "fq_next_layer s1 = fq_next_layer s" "list_all plain_char t" "t \<noteq> []"
    using row_round [OF w Suc.prems(1,2,3) c [unfolded row_cells_at] Suc.prems(7,8)] unfolding row_cells_at by auto
  let ?s1 = "s1\<lparr>fq_row := fq_row s1 + 1\<rparr>"
  have st: "steps [t] s ?s1"
    using Suc.prems(1) r by (intro steps_layout) (simp_all add: reads_def parse_layout_plain)
  have "reads l (P \<union> set ?c) (snd w1) ?s1" "fq_row ?s1 = of_nat (Suc b)" "fq_next_layer ?s1 - 1 = of_nat z"
    using r(3,5,6) Suc.prems(7,8) by simp_all
  then obtain ts w' s' where s': "write_rows l (map (row_cells l z) [Suc b..<Suc b + n]) w1 = Inr (unlines ts, w')"
      "steps ts ?s1 s'" "reads l (P \<union> set ?c \<union> set ?cs) (snd w') s'" "designates l (P \<union> set ?c \<union> set ?cs) w'"
      "fq_next_layer s' = fq_next_layer ?s1" "list_all (list_all plain_char) ts"
    using Suc.IH [OF _ r(4) prem] by metis
  have "write_rows l (map (row_cells l z) (b # [Suc b..<Suc b + n])) w = Inr (unlines (t # ts), w')"
    using r(1) s'(1) by simp
  moreover have "steps (t # ts) s s'" using steps_Cons [OF st s'(2)] .
  ultimately show ?case unfolding u v using s'(3-6) r(6,7)
    by (intro exI [of _ "t # ts"] exI [of _ w'] exI [of _ s']) (simp add: Un_assoc)
qed

text \<open>The layers.\<close>

definition layers_at :: "qca_layout \<Rightarrow> nat list \<Rightarrow> ucoord_t list" where
  "layers_at l zs = concat (map (\<lambda>z. concat (layer_rows l z)) zs)"

lemma layers_at_simps [simp]: "layers_at l [] = []" "layers_at l (z # zs) = concat (layer_rows l z) @ layers_at l zs"
  by (simp_all add: layers_at_def)

lemma layer_rows_at: "concat (layer_rows l z) = rows_at l z [0..<0 + Suc (unat (uy (lyt_dimension l)))]"
  by (simp add: layer_rows_def rows_at_def)

definition separator :: "qca_layout \<Rightarrow> string" where
  "separator l = concat (replicate (unat (ux (lyt_dimension l)) + 1) ''= '')"

lemma write_layer_separator_line: "write_layer_separator l = separator l @ [newline]"
  by (simp add: write_layer_separator_def separator_def)

lemma separator_parsed:
  "parse_layout_line (separator l) s = Inr (s\<lparr>fq_row := 0, fq_next_layer := fq_next_layer s + 1\<rparr>)"
proof -
  have r: "remove_white_space (concat (replicate n ''= '')) = replicate n (CHR ''='')" for n
    by (induction n) (simp_all add: remove_white_space_def is_space_def)
  show ?thesis
    by (simp add: parse_layout_line_def separator_def r match_comment_def match_layer_separator_def list_all_iff
        del: replicate.simps)
qed

lemma separator_line: "separator l \<noteq> []" "newline \<notin> set (separator l)"
  by (auto simp: separator_def newline_def)

lemma separator_step:
  "fq_section s = LAYOUT_DEFINITION \<Longrightarrow> steps [separator l] s (s\<lparr>fq_row := 0, fq_next_layer := fq_next_layer s + 1\<rparr>)"
  by (intro steps_layout) (simp_all add: separator_parsed separator_line)

lemma layers_round:
  assumes w: "fqca_writable l"
  shows "reads l P (snd w) s \<Longrightarrow> designates l P w \<Longrightarrow> P \<subseteq> set (all_cells l) \<Longrightarrow>
    set (layers_at l [z..<z + n]) \<subseteq> set (all_cells l) \<Longrightarrow> distinct (layers_at l [z..<z + n]) \<Longrightarrow>
    P \<inter> set (layers_at l [z..<z + n]) = {} \<Longrightarrow> fq_next_layer s = of_nat z \<Longrightarrow>
    \<exists>ts w' s'. write_layers False l [z..<z + n] w = Inr (unlines ts, w') \<and> steps ts s s' \<and>
      reads l (P \<union> set (layers_at l [z..<z + n])) (snd w') s' \<and> designates l (P \<union> set (layers_at l [z..<z + n])) w' \<and>
      list_all (\<lambda>t. newline \<notin> set t) ts"
proof (induction n arbitrary: z P w s)
  case 0
  have "steps [separator l] s (s\<lparr>fq_row := 0, fq_next_layer := fq_next_layer s + 1\<rparr>)"
    using 0(1) by (intro separator_step) (simp add: reads_def)
  with 0(1,2) show ?case
    by (intro exI [of _ "[separator l]"] exI [of _ w] exI [of _ "s\<lparr>fq_row := 0, fq_next_layer := fq_next_layer s + 1\<rparr>"])
      (simp add: write_layer_separator_line separator_line)
next
  case (Suc n)
  let ?c = "concat (layer_rows l z)" and ?cs = "layers_at l [Suc z..<Suc z + n]"
  let ?s0 = "s\<lparr>fq_row := 0, fq_next_layer := fq_next_layer s + 1\<rparr>"
  have v: "[z..<z + Suc n] = z # [Suc z..<Suc z + n]" and u: "layers_at l [z..<z + Suc n] = ?c @ ?cs"
    by (simp_all add: upt_conv_Cons)
  have c: "set ?c \<subseteq> set (all_cells l)" "distinct ?c" "P \<inter> set ?c = {}"
    and prem: "P \<union> set ?c \<subseteq> set (all_cells l)" "set ?cs \<subseteq> set (all_cells l)" "distinct ?cs" "(P \<union> set ?c) \<inter> set ?cs = {}"
    using Suc.prems(3-6) unfolding u set_append distinct_append by blast+
  have st: "steps [separator l] s ?s0"
    using Suc.prems(1) by (intro separator_step) (simp add: reads_def)
  have s0: "reads l P (snd w) ?s0" "fq_row ?s0 = of_nat 0" "fq_next_layer ?s0 - 1 = of_nat z"
    using Suc.prems(1,7) by simp_all
  obtain ts w1 s1 where r: "write_rows l (layer_rows l z) w = Inr (unlines ts, w1)" "steps ts ?s0 s1"
      "reads l (P \<union> set ?c) (snd w1) s1" "designates l (P \<union> set ?c) w1" "fq_next_layer s1 = fq_next_layer ?s0"
      "list_all (list_all plain_char) ts"
    using rows_round [OF w s0(1) Suc.prems(2,3) c [unfolded layer_rows_at] s0(2,3)]
    unfolding layer_rows_at by (auto simp: layer_rows_def)
  have n1: "fq_next_layer s1 = of_nat (Suc z)" using r(5) Suc.prems(7) by simp
  obtain us w' s' where s': "write_layers False l [Suc z..<Suc z + n] w1 = Inr (unlines us, w')" "steps us s1 s'"
      "reads l (P \<union> set ?c \<union> set ?cs) (snd w') s'" "designates l (P \<union> set ?c \<union> set ?cs) w'"
      "list_all (\<lambda>t. newline \<notin> set t) us"
    using Suc.IH [OF r(3,4) prem n1] by metis
  have "write_layers False l (z # [Suc z..<Suc z + n]) w = Inr (unlines (separator l # ts @ us), w')"
    using r(1) s'(1) by (simp add: write_layer_separator_line)
  moreover have "steps (separator l # ts @ us) s s'"
    using steps_Cons [OF st steps_append [OF r(2) s'(2)]] .
  moreover have "\<forall>t\<in>set ts. newline \<notin> set t"
    using r(6) plain_excludes(4) unfolding list_all_iff by blast
  then have "list_all (\<lambda>t. newline \<notin> set t) (separator l # ts @ us)"
    using separator_line s'(5) by (auto simp: list_all_iff)
  ultimately show ?case unfolding u v using s'(3,4)
    by (intro exI [of _ "separator l # ts @ us"] exI [of _ w'] exI [of _ s']) (simp add: Un_assoc)
qed

section \<open>Cell definitions\<close>

text \<open>The cells of the layout definition are placed, and the definitions of those in \<open>D\<close> have been read.\<close>

definition refined :: "qca_layout \<Rightarrow> ucoord_t set \<Rightarrow> (ucoord_t \<times> char) list \<Rightarrow> fqca_reader \<Rightarrow> bool" where
  "refined l D L s \<longleftrightarrow> fq_section s = CELL_DEFINITION \<and> open_four (fq_lyt s) \<and>
     (\<forall>c. qca_type (fq_lyt s) c = (if c \<in> D then qca_type l c else first_type l c)) \<and>
     (\<forall>c. get_cell_name (fq_lyt s) c = (if c \<in> D then get_cell_name l c else [])) \<and>
     (\<forall>c. get_cell_mode qca_technology (fq_lyt s) c =
        (if qca_type l c \<noteq> QCA_EMPTY \<and> uz c \<noteq> 0 then MODE_VERTICAL else MODE_NORMAL)) \<and>
     (\<forall>c. shows_clock l c \<or> c \<in> D \<longrightarrow> get_clock_number (fq_lyt s) c = cell_get_clock_number l c) \<and>
     cll_tile_size_x (fq_lyt s) = 1 \<and> cll_tile_size_y (fq_lyt s) = 1 \<and>
     fq_labels s = map_of (map prod.swap L)"

definition block_lines :: "qca_layout \<Rightarrow> ucoord_t \<times> char \<Rightarrow> string list" where
  "block_lines l cd = (case cd of (c, d) \<Rightarrow>
     [[d, CHR '':'']] @ (if cell_is_pi l c then [''- input''] else []) @ (if cell_is_po l c then [''- output''] else []) @
     (if get_cell_name l c \<noteq> [] then [''- label = '' @ [CHR 0x22] @ get_cell_name l c @ [CHR 0x22]] else []) @
     [''- clock = '' @ decimal (unat (cell_get_clock_number l c)), []])"

lemma write_labeled_cell_lines: "write_labeled_cell l cd = unlines (block_lines l cd)"
  by (cases cd) (simp add: write_labeled_cell_def block_lines_def)

lemma remove_white_space_simps [simp]:
  "remove_white_space [] = []" "remove_white_space (x # xs) = (if is_space x then [] else [x]) @ remove_white_space xs"
  "remove_white_space (xs @ ys) = remove_white_space xs @ remove_white_space ys"
  by (simp_all add: remove_white_space_def)

lemma definition_id:
  assumes "is_alpha d" and "fq_labels s d = Some c"
  shows "parse_definition_line n [d, CHR '':''] s = Inr (s\<lparr>fq_current := c\<rparr>)"
  using assms alpha_class [OF assms(1)]
  by (simp add: parse_definition_line_def match_cell_id_def is_word_char_def is_space_def [of "CHR '':''"])

lemma definition_input:
  "parse_definition_line n ''- input'' s = Inr (s\<lparr>fq_lyt := qca_assign_type (fq_current s) QCA_INPUT (fq_lyt s)\<rparr>)"
  by (simp add: parse_definition_line_def match_cell_id_def is_space_def)

lemma definition_output:
  "parse_definition_line n ''- output'' s = Inr (s\<lparr>fq_lyt := qca_assign_type (fq_current s) QCA_OUTPUT (fq_lyt s)\<rparr>)"
  by (simp add: parse_definition_line_def match_cell_id_def is_space_def)

lemma definition_label:
  assumes "\<forall>x\<in>set nm. \<not> is_space x"
  shows "parse_definition_line n (''- label = '' @ [CHR 0x22] @ nm @ [CHR 0x22]) s =
    Inr (s\<lparr>fq_lyt := assign_cell_name (fq_current s) nm (fq_lyt s)\<rparr>)"
proof -
  have "remove_white_space nm = nm" using assms by (simp add: remove_white_space_def)
  then show ?thesis
    by (simp add: parse_definition_line_def match_cell_id_def is_space_def match_cell_label_def)
qed

lemma definition_clock:
  assumes "k < 4" and "open_four (fq_lyt s)"
  shows "parse_definition_line n (''- clock = '' @ decimal (unat k)) s =
    Inr (s\<lparr>fq_lyt := assign_clock_number (fq_current s) k (fq_lyt s)\<rparr>)"
proof -
  have "remove_white_space (''- clock = '' @ decimal (unat k)) = ''-clock='' @ [digit k]"
    using digit_class(2) [OF assms(1)] digit_decimal [OF assms(1)] unfolding remove_white_space_simps(3)
    by (simp add: is_space_def del: decimal.simps)
  then show ?thesis
    using digit_class [OF assms(1)] to_clock_digit [OF assms]
    by (simp add: parse_definition_line_def match_cell_id_def match_cell_label_def match_digit_item_def)
qed

lemma steps_if: "(b \<Longrightarrow> steps [t] s s') \<Longrightarrow> steps (if b then [t] else []) s (if b then s' else s)"
  by simp

lemma block_round:
  assumes w: "fqca_writable l" and r: "refined l D L s" and m: "(c, d) \<in> set L" "distinct (map snd L)" "is_alpha d"
    and c: "labeled l c" "c \<notin> D"
  shows "\<exists>s'. steps (block_lines l (c, d)) s s' \<and> refined l (insert c D) L s'"
proof -
  define s1 where "s1 = s\<lparr>fq_current := c\<rparr>"
  define s2 where "s2 = (if cell_is_pi l c then s1\<lparr>fq_lyt := qca_assign_type c QCA_INPUT (fq_lyt s1)\<rparr> else s1)"
  define s3 where "s3 = (if cell_is_po l c then s2\<lparr>fq_lyt := qca_assign_type c QCA_OUTPUT (fq_lyt s2)\<rparr> else s2)"
  define s4 where "s4 = (if get_cell_name l c \<noteq> [] then s3\<lparr>fq_lyt := assign_cell_name c (get_cell_name l c) (fq_lyt s3)\<rparr> else s3)"
  define s5 where "s5 = s4\<lparr>fq_lyt := assign_clock_number c (cell_get_clock_number l c) (fq_lyt s4)\<rparr>"
  note n = writableD(7) [OF w, of c]
  have sec: "fq_section s = CELL_DEFINITION" "open_four (fq_lyt s)" and L: "fq_labels s = map_of (map prod.swap L)"
    using r by (simp_all add: refined_def)
  have "distinct (map fst (map prod.swap L))" using m(2) by (simp add: comp_def)
  moreover have "(d, c) \<in> set (map prod.swap L)" using m(1) by force
  ultimately have lab: "fq_labels s d = Some c" unfolding L by (rule map_of_is_SomeI)
  have cur: "fq_section s1 = CELL_DEFINITION" "fq_section s2 = CELL_DEFINITION" "fq_section s3 = CELL_DEFINITION"
    "fq_section s4 = CELL_DEFINITION" "fq_current s1 = c" "fq_current s2 = c" "fq_current s3 = c" "fq_current s4 = c"
    "open_four (fq_lyt s4)"
    using sec by (simp_all add: s1_def s2_def s3_def s4_def)
  have "steps [[d, CHR '':'']] s s1"
    using sec definition_id [OF m(3) lab] by (intro steps_definition) (simp_all add: s1_def)
  moreover have "steps (if cell_is_pi l c then [''- input''] else []) s1 s2"
    unfolding s2_def using cur definition_input by (intro steps_if steps_definition) simp_all
  moreover have "steps (if cell_is_po l c then [''- output''] else []) s2 s3"
    unfolding s3_def using cur definition_output by (intro steps_if steps_definition) simp_all
  moreover have "steps (if get_cell_name l c \<noteq> [] then [''- label = '' @ [CHR 0x22] @ get_cell_name l c @ [CHR 0x22]] else []) s3 s4"
    unfolding s4_def using cur definition_label [of "get_cell_name l c"] writableD(6) [OF w]
    by (intro steps_if steps_definition) simp_all
  moreover have "steps [''- clock = '' @ decimal (unat (cell_get_clock_number l c)), []] s4 s5"
    unfolding s5_def using cur definition_clock [OF n, of s4]
    by (intro steps_Cons [OF steps_definition steps_blank]) simp_all
  ultimately have "steps (block_lines l (c, d)) s s5"
    unfolding block_lines_def prod.case by (intro steps_append)
  moreover have "refined l (insert c D) L s5"
  proof -
    have t: "qca_type l c \<in> {QCA_NORMAL, QCA_INPUT, QCA_OUTPUT}" "first_type l c = QCA_NORMAL"
      using writableD(2) [OF w, of c] empty_not_labeled [OF w, of c] const_not_labeled [OF w, of c] c(1)
      by (auto simp: first_type_def)
    note ops = s5_def s4_def s3_def s2_def s1_def qca_get_assign clock_ops writableD(3,4) [OF w] to_clock_digit(2) [OF n]
    show ?thesis
      using r t c sec(2) unfolding refined_def by (auto simp: ops to_clock_digit(2) [OF n sec(2)])
  qed
  ultimately show ?thesis by blast
qed

lemma blocks_round:
  assumes w: "fqca_writable l" and m: "distinct (map snd L)" "\<forall>d\<in>snd ` set L. is_alpha d"
    and lab: "\<forall>c\<in>fst ` set L. labeled l c"
  shows "refined l D L s \<Longrightarrow> set cs \<subseteq> set L \<Longrightarrow> distinct (map fst cs) \<Longrightarrow> fst ` set cs \<inter> D = {} \<Longrightarrow>
    \<exists>s'. steps (concat (map (block_lines l) cs)) s s' \<and> refined l (D \<union> fst ` set cs) L s'"
proof (induction cs arbitrary: D s)
  case Nil
  then show ?case by (intro exI [of _ s]) simp
next
  case (Cons cd cs)
  obtain c d where cd: "cd = (c, d)" by (cases cd)
  have c: "(c, d) \<in> set L" "is_alpha d" "labeled l c" "c \<notin> D"
    using Cons.prems(2,4) m(2) lab unfolding cd by force+
  obtain s1 where s1: "steps (block_lines l cd) s s1" "refined l (insert c D) L s1"
    using block_round [OF w Cons.prems(1) c(1) m(1) c(2-4)] unfolding cd by blast
  have "set cs \<subseteq> set L" "distinct (map fst cs)" "fst ` set cs \<inter> insert c D = {}"
    using Cons.prems(2-4) unfolding cd by auto
  then obtain s' where "steps (concat (map (block_lines l) cs)) s1 s'" "refined l (insert c D \<union> fst ` set cs) L s'"
    using Cons.IH [OF s1(2)] by blast
  with s1(1) show ?case by (intro exI [of _ s']) (simp add: steps_append cd insert_commute)
qed

section \<open>The round trip\<close>

lemma concat_map_product: "concat (map (\<lambda>x. map (f x) ys) xs) = map (\<lambda>(x, y). f x y) (List.product xs ys)"
  by (induction xs) (simp_all add: comp_def)

lemma all_cells_product:
  "all_cells l = map (\<lambda>(z, y, x). at z y x)
     (List.product [0..<Suc (unat (uz (lyt_dimension l)))]
       (List.product [0..<Suc (unat (uy (lyt_dimension l)))] [0..<Suc (unat (ux (lyt_dimension l)))]))"
proof -
  have "concat (layer_rows l z) = map (\<lambda>(y, x). at z y x)
      (List.product [0..<Suc (unat (uy (lyt_dimension l)))] [0..<Suc (unat (ux (lyt_dimension l)))])" for z
  proof -
    have "row_cells l z = (\<lambda>y. map (at z y) [0..<Suc (unat (ux (lyt_dimension l)))])"
      by (rule ext) (simp add: row_cells_at)
    then show ?thesis by (simp add: layer_rows_def concat_map_product [symmetric])
  qed
  then show ?thesis by (simp add: all_cells_def concat_map_product)
qed

lemma at_inject:
  assumes "z < 2" "z' < 2" "y < 2 ^ 31" "y' < 2 ^ 31" "x < 2 ^ 31" "x' < 2 ^ 31" and "at z y x = at z' y' x'"
  shows "z = z' \<and> y = y' \<and> x = x'"
proof -
  have "(of_nat z :: 1 word) = of_nat z'" "(of_nat y :: 31 word) = of_nat y'" "(of_nat x :: 31 word) = of_nat x'"
    using assms by (simp_all add: at_def ucoord3_def unsigned_of_nat take_bit_nat_eq_self)
  then show ?thesis using assms(1-6) by (metis unat_of_nat1 unat_of_nat31)
qed

lemma distinct_all_cells: "distinct (all_cells l)"
proof -
  have b: "unat (uz (lyt_dimension l)) < 2" "unat (uy (lyt_dimension l)) < 2 ^ 31" "unat (ux (lyt_dimension l)) < 2 ^ 31"
    using unsigned_less [of "uz (lyt_dimension l)"] unsigned_less [of "uy (lyt_dimension l)"]
      unsigned_less [of "ux (lyt_dimension l)"]
    by simp_all
  have "inj_on (\<lambda>(z, y, x). at z y x)
      ({0..<Suc (unat (uz (lyt_dimension l)))} \<times> {0..<Suc (unat (uy (lyt_dimension l)))} \<times> {0..<Suc (unat (ux (lyt_dimension l)))})"
    using b by (intro inj_onI) (auto dest!: at_inject [rotated -1])
  then show ?thesis unfolding all_cells_product by (simp add: distinct_map distinct_product)
qed

lemma in_all_cells:
  assumes "lyt_in_grid l c"
  shows "c \<in> set (all_cells l)"
proof -
  have "c = at (unat (uz c)) (unat (uy c)) (unat (ux c))"
    using assms by (simp add: lyt_in_grid_def in_grid_def at_def ucoord3_def)
  moreover have "unat (uz c) \<le> unat (uz (lyt_dimension l))" "unat (uy c) \<le> unat (uy (lyt_dimension l))"
      "unat (ux c) \<le> unat (ux (lyt_dimension l))"
    using assms by (simp_all add: lyt_in_grid_def in_grid_def word_le_nat_alt)
  ultimately show ?thesis unfolding all_cells_product by (force simp: less_Suc_eq_le)
qed

text \<open>The lines of a text.\<close>

lemma get_lines_line: "newline \<notin> set t \<Longrightarrow> get_lines cur (t @ newline # rest) = (cur @ t) # get_lines [] rest"
  by (induction t arbitrary: cur) auto

lemma get_lines_unlines: "list_all (\<lambda>t. newline \<notin> set t) ts \<Longrightarrow> get_lines [] (unlines ts) = ts"
  by (induction ts) (simp_all add: get_lines_line)

lemma newline_space: "is_space newline"
  by (simp add: newline_def is_space_def)

lemma block_lines_newline:
  assumes "fqca_writable l" and "is_alpha d"
  shows "list_all (\<lambda>t. newline \<notin> set t) (block_lines l (c, d))"
proof -
  note n = writableD(7) [OF assms(1), of c]
  have "d \<noteq> newline" "digit (cell_get_clock_number l c) \<noteq> newline" "newline \<notin> set (get_cell_name l c)"
    using alpha_class(1) [OF assms(2)] digit_class(2) [OF n] writableD(6) [OF assms(1)] newline_space by metis+
  then show ?thesis
    using digit_decimal [OF n] by (simp add: block_lines_def newline_def del: decimal.simps)
qed

text \<open>The header.\<close>

definition header_line :: "string \<Rightarrow> string \<Rightarrow> qca_layout \<Rightarrow> string" where
  "header_line version repo l =
     ''[ '' @ (if cell_get_layout_name l = [] then '''' else cell_get_layout_name l @ '' - '') @ ''generated by '' @ version @
     '' ('' @ repo @ '') ]''"

lemma write_header_lines: "write_header version repo l = unlines [header_line version repo l, []]"
  by (simp add: write_header_def header_line_def Let_def)

lemma header_step:
  "fq_section s = LAYOUT_DEFINITION \<Longrightarrow> steps [header_line version repo l, []] s s"
proof (intro steps_Cons [OF steps_layout steps_blank])
  have "remove_white_space (header_line version repo l) =
      CHR ''['' # remove_white_space ((if cell_get_layout_name l = [] then '''' else cell_get_layout_name l @ '' - '') @
        ''generated by '' @ version @ '' ('' @ repo @ '')'') @ [CHR '']'']"
    unfolding header_line_def by (simp add: is_space_def [of "CHR ''[''"] is_space_def [of "CHR '']''"] is_space_def [of "CHR '' ''"])
  then show "parse_layout_line (header_line version repo l) s = Inr s"
    by (simp add: parse_layout_line_def match_comment_def)
qed (simp_all add: header_line_def)

text \<open>From the layout definition to the cell definitions.\<close>

lemma new_reader_reads: "reads l {} [] (new_fqca_reader t name)"
  by (simp add: reads_def new_fqca_reader_def open_four_def open_cell_level_layout_def make_cell_level_layout_def
      open_clocking_def get_cell_type_def get_cell_name_def get_cell_mode_def qca_technology_def)

lemma alphabet_designates: "designates l {} (cell_alphabet, [])"
proof -
  have "distinct cell_alphabet" "list_all is_alpha cell_alphabet" by code_simp+
  then show ?thesis by (simp add: designates_def list_all_iff)
qed

lemma outside_empty: "fqca_writable l \<Longrightarrow> c \<notin> set (all_cells l) \<Longrightarrow> qca_type l c = QCA_EMPTY"
  using writableD(1) in_all_cells by blast

lemma section_steps:
  assumes "reads l P L s"
  shows "steps [[], [], ''$'', []] s (s\<lparr>fq_section := CELL_DEFINITION\<rparr>)"
proof -
  have "parse_layout_line ''$'' s = Inr (s\<lparr>fq_section := CELL_DEFINITION\<rparr>)"
    by (simp add: parse_layout_line_def is_space_def match_comment_def match_layer_separator_def)
  then have "steps [''$''] s (s\<lparr>fq_section := CELL_DEFINITION\<rparr>)"
    using assms by (intro steps_layout) (simp_all add: reads_def)
  then show ?thesis by (intro steps_Cons [OF steps_blank] steps_Cons [OF _ steps_blank])
qed

lemma reads_refined:
  assumes "fqca_writable l" and "reads l (set (all_cells l)) L s"
  shows "refined l {} L (s\<lparr>fq_section := CELL_DEFINITION\<rparr>)"
proof -
  have "first_type l c = QCA_EMPTY" "qca_type l c = QCA_EMPTY" "\<not> shows_clock l c" if "c \<notin> set (all_cells l)" for c
    using outside_empty [OF assms(1) that] by (simp_all add: first_type_def shows_clock_def)
  then show ?thesis using assms(2) unfolding reads_def refined_def by auto
qed

text \<open>What is written is read.\<close>

lemma written_is_read:
  assumes w: "fqca_writable l" and nl: "newline \<notin> set (version @ repo @ cell_get_layout_name l)"
  shows "\<exists>ts L s. write_fqca_layout version repo False l = Inr (unlines ts) \<and> list_all (\<lambda>t. newline \<notin> set t) ts \<and>
    read_lines 1 ts (new_fqca_reader t name) = Inr s \<and> refined l {c. labeled l c} L s"
proof -
  let ?s = "new_fqca_reader t name"
  have a: "all_cells l = layers_at l [0..<0 + Suc (unat (uz (lyt_dimension l)))]"
    by (simp add: all_cells_def layers_at_def)
  obtain ts w' s1 where r: "write_layout_definition False l (cell_alphabet, []) = Inr (unlines ts, w')" "steps ts ?s s1"
      "reads l (set (all_cells l)) (snd w') s1" "designates l (set (all_cells l)) w'" "list_all (\<lambda>t. newline \<notin> set t) ts"
    using layers_round [OF w, of "{}" "(cell_alphabet, [])" ?s 0 "Suc (unat (uz (lyt_dimension l)))"] new_reader_reads
      alphabet_designates distinct_all_cells [of l] unfolding a write_layout_definition_def
    by (auto simp: new_fqca_reader_def)
  have sec: "fq_section ?s = LAYOUT_DEFINITION" by (simp add: new_fqca_reader_def)
  have L: "distinct (map snd (snd w'))" "\<forall>d\<in>snd ` set (snd w'). is_alpha d" "\<forall>c\<in>fst ` set (snd w'). labeled l c"
      "distinct (map fst (snd w'))" "fst ` set (snd w') = {c. labeled l c}"
    using r(4) outside_empty [OF w] empty_not_labeled [OF w] unfolding designates_def by auto
  obtain s' where s': "steps (concat (map (block_lines l) (snd w'))) (s1\<lparr>fq_section := CELL_DEFINITION\<rparr>) s'"
      "refined l {c. labeled l c} (snd w') s'"
    using blocks_round [OF w L(1-3) reads_refined [OF w r(3)], of "snd w'"] L(4,5) by auto
  let ?ts = "[header_line version repo l, []] @ ts @ [[], [], ''$'', []] @ concat (map (block_lines l) (snd w'))"
  have "steps ?ts ?s s'"
    by (intro steps_append [OF header_step [OF sec]] steps_append [OF r(2)] steps_append [OF section_steps [OF r(3)]] s'(1))
  then have "read_lines 1 (?ts @ []) ?s = Inr s'" unfolding steps_def by (simp only: read_lines.simps)
  moreover have "write_fqca_layout version repo False l = Inr (unlines ?ts)"
  proof -
    have "unlines (concat (map (block_lines l) cds)) = write_cell_definition l cds" for cds
      by (induction cds) (simp_all add: write_cell_definition_def write_labeled_cell_lines)
    then show ?thesis
      using r(1) by (simp add: write_fqca_layout_def write_header_lines section_separator_def)
  qed
  moreover have "list_all (\<lambda>t. newline \<notin> set t) ?ts"
  proof -
    have "list_all (\<lambda>t. newline \<notin> set t) (concat (map (block_lines l) (snd w')))"
      using block_lines_newline [OF w] L(2) by (force simp: list_all_iff)
    moreover have "newline \<notin> set (header_line version repo l)" using nl by (auto simp: header_line_def newline_def)
    ultimately show ?thesis using r(5) by (simp add: newline_def)
  qed
  ultimately show ?thesis using s'(2) by (metis append_Nil2)
qed

lemma zone_of_cell:
  assumes "cll_tile_size_x l = 1" and "cll_tile_size_y l = 1" and "\<not> ud c"
  shows "cell_clock_zone l c = c"
  using assms by (cases c) (simp add: cell_clock_zone_def ucoord3_def unsigned_of_nat)

lemma resize_maps [simp]:
  "get_cell_type T (lyt_resize d l) = get_cell_type T l" "get_cell_name (lyt_resize d l) = get_cell_name l"
  "get_cell_mode T (lyt_resize d l) = get_cell_mode T l" "cll_tile_size_x (lyt_resize d l) = cll_tile_size_x l"
  "cll_tile_size_y (lyt_resize d l) = cll_tile_size_y l" "cl_clocking (lyt_resize d l) = cl_clocking l"
  by (simp_all add: get_cell_type_def get_cell_name_def get_cell_mode_def lyt_resize_def fun_eq_iff)

text \<open>C11. A layout that the format can express (no names on constant cells, at most 52 cells that need
  a designator, names without white space, clock numbers below 4) is written without an error, the text
  is read without an error, and every cell of the layout that is read has the type and the name that it had, the
  clock number if it is neither empty nor constant, and the vertical mode exactly in the crossing layer.\<close>

theorem fqca_roundtrip:
  assumes "fqca_writable l" and "newline \<notin> set (version @ repo @ cell_get_layout_name l)"
  shows "\<exists>text l'. write_fqca_layout version repo False l = Inr text \<and> read_fqca_layout t name text = Inr l' \<and>
    (\<forall>c. get_cell_type qca_technology l' c = get_cell_type qca_technology l c \<and> get_cell_name l' c = get_cell_name l c \<and>
      get_cell_mode qca_technology l' c =
        (if get_cell_type qca_technology l c \<noteq> QCA_EMPTY \<and> uz c \<noteq> 0 then MODE_VERTICAL else MODE_NORMAL) \<and>
      (\<not> ud c \<and> get_cell_type qca_technology l c \<in> {QCA_NORMAL, QCA_INPUT, QCA_OUTPUT} \<longrightarrow>
         cell_get_clock_number l' c = cell_get_clock_number l c))"
proof -
  obtain ts L s where s: "write_fqca_layout version repo False l = Inr (unlines ts)" "list_all (\<lambda>t. newline \<notin> set t) ts"
      "read_lines 1 ts (new_fqca_reader t name) = Inr s" and d: "refined l {c. labeled l c} L s"
    using written_is_read [OF assms] by blast
  have r: "read_fqca_layout t name (unlines ts) = Inr (lyt_resize (fq_max s) (fq_lyt s))"
    using s(3) by (simp add: read_fqca_layout_def get_lines_unlines [OF s(2)])
  have "qca_type (fq_lyt s) c = qca_type l c" "get_cell_name (fq_lyt s) c = get_cell_name l c" for c
    using d unfolding refined_def first_type_def labeled_def by auto
  moreover have "get_clock_number (fq_lyt s) c = cell_get_clock_number l c" if "qca_type l c \<in> {QCA_NORMAL, QCA_INPUT, QCA_OUTPUT}" for c
    using d that writableD(3,4) [OF assms(1), of c] unfolding refined_def shows_clock_def labeled_def by auto
  ultimately show ?thesis using s(1) r d unfolding refined_def
    by (intro exI [of _ "unlines ts"] exI [of _ "lyt_resize (fq_max s) (fq_lyt s)"])
      (auto simp: cell_get_clock_number_def zone_of_cell get_clock_number_def)
qed

definition sample_fqca :: qca_layout where
  "sample_fqca =
     assign_clock_number (ucoord3 2 0 0) 2 (assign_clock_number (ucoord3 1 0 0) 1
       (fold (cell_apply qca_technology)
         [Assign_Type (ucoord3 0 0 0) QCA_INPUT, Assign_Name (ucoord3 0 0 0) ''in'', Assign_Type (ucoord3 1 0 0) QCA_NORMAL,
          Assign_Type (ucoord3 1 1 0) QCA_CONST_1, Assign_Type (ucoord3 2 0 0) QCA_OUTPUT]
         (open_cell_level_layout Cartesian (ucoord3 2 1 0) ''and'' 1 1)))"

lemma sample_fqca_writable: "fqca_writable sample_fqca"
proof -
  have dim: "lyt_dimension sample_fqca = ucoord3 2 1 0" by code_simp
  have ty: "qca_type sample_fqca c =
      (if c = ucoord3 2 0 0 then QCA_OUTPUT else if c = ucoord3 1 1 0 then QCA_CONST_1 else if c = ucoord3 1 0 0 then QCA_NORMAL
       else if c = ucoord3 0 0 0 then QCA_INPUT else QCA_EMPTY)" for c
    by (simp add: sample_fqca_def qca_get_assign)
      (simp add: open_cell_level_layout_def make_cell_level_layout_def get_cell_type_def qca_technology_def)
  have nm: "get_cell_name sample_fqca c = (if c = ucoord3 0 0 0 then ''in'' else [])" for c
    by (simp add: sample_fqca_def qca_get_assign)
      (simp add: open_cell_level_layout_def make_cell_level_layout_def get_cell_name_def)
  have io: "cll_inputs sample_fqca = [ucoord3 0 0 0]" "cll_outputs sample_fqca = [ucoord3 2 0 0]" by code_simp+
  have pi: "cell_is_pi sample_fqca c \<longleftrightarrow> c = ucoord3 0 0 0" and po: "cell_is_po sample_fqca c \<longleftrightarrow> c = ucoord3 2 0 0" for c
    by (simp_all add: cell_is_pi_def cell_is_po_def io)
  have o: "open_four (open_cell_level_layout Cartesian (ucoord3 2 1 0) ''and'' 1 1)"
      "get_clock_number (open_cell_level_layout Cartesian (ucoord3 2 1 0) ''and'' 1 1 :: qca_layout) c = 0" for c
    by (simp_all add: open_four_def open_cell_level_layout_def make_cell_level_layout_def open_clocking_def
        get_clock_number_def scheme_clock_def)
  have "get_clock_number sample_fqca c < 4" for c
    using o by (simp add: sample_fqca_def clock_ops)
  then have ck: "cell_get_clock_number sample_fqca c < 4" for c
    by (simp add: cell_get_clock_number_def)
  have ne: "ucoord3 0 0 0 \<noteq> ucoord3 2 0 0" "ucoord3 0 0 0 \<noteq> ucoord3 1 1 0" "ucoord3 0 0 0 \<noteq> ucoord3 1 0 0"
      "ucoord3 1 0 0 \<noteq> ucoord3 1 1 0" "ucoord3 1 0 0 \<noteq> ucoord3 2 0 0" "ucoord3 1 1 0 \<noteq> ucoord3 2 0 0"
    by code_simp+
  have gr: "lyt_in_grid sample_fqca (ucoord3 0 0 0)" "lyt_in_grid sample_fqca (ucoord3 1 0 0)"
      "lyt_in_grid sample_fqca (ucoord3 1 1 0)" "lyt_in_grid sample_fqca (ucoord3 2 0 0)"
    by code_simp+
  have "length (filter (labeled sample_fqca) (all_cells sample_fqca)) \<le> length cell_alphabet" by code_simp
  then show ?thesis unfolding fqca_writable_def pi po ty nm using ck ne gr by (auto simp: is_space_def)
qed

lemma fqca_roundtrip_witness:
  "\<exists>text l'. write_fqca_layout ''0.3'' ''fiction'' False sample_fqca = Inr text \<and> read_fqca_layout Cartesian ''and'' text = Inr l' \<and>
     get_cell_type qca_technology l' (ucoord3 2 0 0) = QCA_OUTPUT \<and> get_cell_name l' (ucoord3 0 0 0) = ''in''"
proof -
  have nl: "newline \<notin> set (''0.3'' @ ''fiction'' @ cell_get_layout_name sample_fqca)" by code_simp
  have "get_cell_type qca_technology sample_fqca (ucoord3 2 0 0) = QCA_OUTPUT \<and> get_cell_name sample_fqca (ucoord3 0 0 0) = ''in''"
    by code_simp
  with fqca_roundtrip [OF sample_fqca_writable nl, of Cartesian "''and''"] show ?thesis by metis
qed

section \<open>The dimension of a layout that is read\<close>

text \<open>The bounding box starts as a default coordinate, which is dead, and no cell revives it.\<close>

lemma parse_cell_dead: "parse_cell c d s = Inr s' \<Longrightarrow> ud (fq_max s') = ud (fq_max s)"
  by (auto simp: parse_cell_def place_cell_def finish_cell_def Let_def split: if_splits)

lemma parse_row_dead: "parse_row cs k s = Inr s' \<Longrightarrow> ud (fq_max s') = ud (fq_max s)"
  by (induction cs k s rule: parse_row.induct) (auto simp: parse_cell_dead split: sum.splits)

lemma parse_layout_line_dead: "parse_layout_line t s = Inr s' \<Longrightarrow> ud (fq_max s') = ud (fq_max s)"
  by (auto simp: parse_layout_line_def Let_def parse_row_dead split: if_splits sum.splits)

lemma parse_definition_line_dead: "parse_definition_line n t s = Inr s' \<Longrightarrow> ud (fq_max s') = ud (fq_max s)"
  by (auto simp: parse_definition_line_def Let_def split: if_splits option.splits)

lemma read_lines_dead: "read_lines n ts s = Inr s' \<Longrightarrow> ud (fq_max s') = ud (fq_max s)"
  by (induction n ts s rule: read_lines.induct)
    (auto simp: parse_layout_line_dead parse_definition_line_dead split: if_splits sum.splits)

text \<open>C12. Every layout that the reader returns has a dead dimension: the loop over its cell positions does
  not end.\<close>

theorem read_layout_is_dead:
  assumes "read_fqca_layout t name text = Inr l"
  shows "ud (lyt_dimension l) \<and> foreach_cell_position l = None"
proof -
  have d: "ud (lyt_dimension l)"
    using assms read_lines_dead [of 1 "get_lines [] text" "new_fqca_reader t name"]
    by (auto simp: read_fqca_layout_def new_fqca_reader_def ucoord_default_def lyt_resize_def cart_resize_def hex_resize_def
        split: sum.splits option.splits)
  moreover have "ud (get_dead (lyt_dimension l))" using d by simp
  ultimately show ?thesis
    by (auto simp: foreach_cell_position_def lyt_coordinates_def cart_coordinates_def hex_coordinates_def is_dead_def
        ucoord_default_def ucoord2_def coord_range_dead_dim split: option.split)
qed

lemma read_layout_is_dead_witness:
  "\<exists>l. read_fqca_layout Cartesian ''wire'' (''='' @ [newline] @ ''0 0'' @ [newline]) = Inr l \<and>
     num_cells l = 2 \<and> foreach_cell_position l = None"
proof -
  have "case read_fqca_layout Cartesian ''wire'' (''='' @ [newline] @ ''0 0'' @ [newline]) of
      Inl e \<Rightarrow> False | Inr l \<Rightarrow> num_cells l = 2"
    by code_simp
  then show ?thesis using read_layout_is_dead by (auto split: sum.splits)
qed

declare upt_Suc [simp]

end
