(* ===== verification/Equivalence_Checking.thy ===== *)
theory Equivalence_Checking
  imports Critical_Path
begin

text \<open>
  Model of \<open>algorithms/verification/equivalence_checking.hpp\<close>, which composes the design rule checker and
  the computation of the throughput with a miter and a SAT solver.

  The specification and the implementation are logic networks or gate-level layouts, which the
  templates distinguish at compile time; a sum type stands for the template arguments. The networks, the
  miter and the solver belong to mockturtle: the type of networks is a variable, and \<open>miter\<close> and \<open>solver\<close> are
  arguments. The solver returns its answer, if it reaches one, and a counterexample. The measured
  run time is left out. A computation that does not return is \<open>None\<close>.
\<close>

datatype eq_type = NO | WEAK | STRONG

record equivalence_checking_stats =
  eq_verdict :: eq_type
  tp_spec :: u64
  tp_impl :: u64
  tp_diff :: u64
  counter_example :: "bool list"
  spec_drv_stats :: gate_level_drv_stats
  impl_drv_stats :: gate_level_drv_stats
  messages :: "string list"

definition new_equivalence_stats :: equivalence_checking_stats where
  "new_equivalence_stats =
     \<lparr>eq_verdict = NO, tp_spec = 1, tp_impl = 1, tp_diff = 0, counter_example = [],
      spec_drv_stats = empty_drv_stats, impl_drv_stats = empty_drv_stats, messages = []\<rparr>"

type_synonym ('n, 'tt) design = "'n + 'tt gate_level_layout"

type_synonym 'm solver = "'m \<Rightarrow> bool option \<times> bool list"

text \<open>The report of the design rule check goes to a stream that is dropped.\<close>

definition has_drvs :: "'tt gate_level_layout \<Rightarrow> (bool \<times> gate_level_drv_stats) option" where
  "has_drvs l = map_option (\<lambda>(out, st). (st_drvs st \<noteq> 0, st)) (gate_level_drvs l default_drv_params)"

text \<open>The two design rule checks: a violation ends the run. A network has no design rules.\<close>

definition check_design :: "('n, 'tt) design \<Rightarrow> gate_level_drv_stats \<Rightarrow> (bool \<times> gate_level_drv_stats) option" where
  "check_design d st = (case d of Inl n \<Rightarrow> Some (False, st) | Inr l \<Rightarrow> has_drvs l)"

definition design_throughput ::
    "(path_info list \<Rightarrow> path_info list) \<Rightarrow> ('n, 'tt) design \<Rightarrow> u64 \<Rightarrow> u64 option" where
  "design_throughput srt d tp =
     (case d of Inl n \<Rightarrow> Some tp | Inr l \<Rightarrow> map_option throughput (critical_path_length_and_throughput srt l))"

definition compare_throughput ::
    "(path_info list \<Rightarrow> path_info list) \<Rightarrow> ('n, 'tt) design \<Rightarrow> ('n, 'tt) design \<Rightarrow> equivalence_checking_stats \<Rightarrow>
     equivalence_checking_stats option" where
  "compare_throughput srt spec impl st =
     Option.bind (design_throughput srt spec (tp_spec st)) (\<lambda>ts.
     Option.bind (design_throughput srt impl (tp_impl st)) (\<lambda>ti.
       let d = abs_diff (ts - ti);
           st1 = st\<lparr>tp_spec := ts, tp_impl := ti, tp_diff := d\<rparr>
       in Some (if d \<noteq> 0 then st1\<lparr>eq_verdict := WEAK\<rparr> else st1)))"

definition solve_miter ::
    "(path_info list \<Rightarrow> path_info list) \<Rightarrow> (('n, 'tt) design \<Rightarrow> ('n, 'tt) design \<Rightarrow> 'm option) \<Rightarrow> 'm solver \<Rightarrow>
     ('n, 'tt) design \<Rightarrow> ('n, 'tt) design \<Rightarrow> equivalence_checking_stats \<Rightarrow> equivalence_checking_stats option" where
  "solve_miter srt miter solver spec impl st =
     (case miter spec impl of
        None \<Rightarrow> Some (st\<lparr>messages := messages st @
          [''[w] both networks/layouts must have the same number of primary inputs and outputs'']\<rparr>)
      | Some m \<Rightarrow>
          (case solver m of
             (None, cex) \<Rightarrow> Some (st\<lparr>messages := messages st @ [''[e] resource limit exceeded'']\<rparr>)
           | (Some True, cex) \<Rightarrow> compare_throughput srt spec impl (st\<lparr>eq_verdict := STRONG\<rparr>)
           | (Some False, cex) \<Rightarrow> Some (st\<lparr>eq_verdict := NO, counter_example := cex\<rparr>)))"

definition equivalence_checking ::
    "(path_info list \<Rightarrow> path_info list) \<Rightarrow> (('n, 'tt) design \<Rightarrow> ('n, 'tt) design \<Rightarrow> 'm option) \<Rightarrow> 'm solver \<Rightarrow>
     ('n, 'tt) design \<Rightarrow> ('n, 'tt) design \<Rightarrow> equivalence_checking_stats option" where
  "equivalence_checking srt miter solver spec impl =
     (let st = new_equivalence_stats
      in Option.bind (check_design spec (spec_drv_stats st)) (\<lambda>(bad1, d1).
        (let st1 = st\<lparr>spec_drv_stats := d1\<rparr>
         in if bad1 then Some st1
            else Option.bind (check_design impl (impl_drv_stats st1)) (\<lambda>(bad2, d2).
              (let st2 = st1\<lparr>impl_drv_stats := d2\<rparr>
               in if bad2 then Some st2 else solve_miter srt miter solver spec impl st2)))))"

section \<open>The verdict\<close>

text \<open>A design that can be compared: a network, or a layout without design rule violations.\<close>

definition clean_design :: "('n, 'tt) design \<Rightarrow> bool" where
  "clean_design d = (case d of Inl n \<Rightarrow> True | Inr l \<Rightarrow> drv_rules default_drv_params l)"

text \<open>The throughput of a design that is taken into account.\<close>

definition throughput_of :: "(path_info list \<Rightarrow> path_info list) \<Rightarrow> ('n, 'tt) design \<Rightarrow> u64 option" where
  "throughput_of srt d = design_throughput srt d 1"

definition enumerable_design :: "('n, 'tt) design \<Rightarrow> bool" where
  "enumerable_design d = (case d of Inl n \<Rightarrow> True | Inr l \<Rightarrow> lyt_enumerable l)"

lemma check_design_clean:
  assumes "enumerable_design d"
  obtains st' where "check_design d st = Some (\<not> clean_design d, st')"
proof (cases d)
  case (Inl n)
  then show ?thesis using that by (simp add: check_design_def clean_design_def)
next
  case (Inr l)
  then have "lyt_enumerable l" using assms by (simp add: enumerable_design_def)
  then obtain out st' where "gate_level_drvs l default_drv_params = Some (out, st')"
      "no_drvs st' \<longleftrightarrow> drv_rules default_drv_params l"
    using gate_level_drvs_counts by blast
  then show ?thesis
    using that Inr by (cases "drv_rules default_drv_params l") (simp_all add: check_design_def clean_design_def has_drvs_def no_drvs_def)
qed

lemma abs_diff_zero [simp]: "abs_diff (a - b) = 0 \<longleftrightarrow> a = b"
  by (auto simp: abs_diff_def)

lemma compare_throughput_verdict:
  assumes "throughput_of srt spec = Some ts" and "throughput_of srt impl = Some ti"
    and "tp_spec st = 1" and "tp_impl st = 1" and "eq_verdict st = STRONG"
  shows "\<exists>st'. compare_throughput srt spec impl st = Some st' \<and> tp_spec st' = ts \<and> tp_impl st' = ti \<and>
    eq_verdict st' = (if ts = ti then STRONG else WEAK) \<and> counter_example st' = counter_example st"
  using assms by (simp add: compare_throughput_def throughput_of_def Let_def)

lemma equivalence_of_clean:
  assumes "enumerable_design spec" and "enumerable_design impl"
  obtains st where "equivalence_checking srt miter solver spec impl =
      (if clean_design spec \<and> clean_design impl then solve_miter srt miter solver spec impl st else Some st)"
    "tp_spec st = 1" "tp_impl st = 1" "eq_verdict st = NO" "counter_example st = []"
proof -
  obtain d1 where d1: "check_design spec (spec_drv_stats new_equivalence_stats) = Some (\<not> clean_design spec, d1)"
    using check_design_clean [OF assms(1)] .
  obtain d2 where d2: "check_design impl (impl_drv_stats new_equivalence_stats) = Some (\<not> clean_design impl, d2)"
    using check_design_clean [OF assms(2)] .
  define st where "st = (if clean_design spec then new_equivalence_stats\<lparr>spec_drv_stats := d1, impl_drv_stats := d2\<rparr>
    else new_equivalence_stats\<lparr>spec_drv_stats := d1\<rparr>)"
  have "equivalence_checking srt miter solver spec impl =
      (if clean_design spec \<and> clean_design impl then solve_miter srt miter solver spec impl st else Some st)"
    using d2 by (simp add: equivalence_checking_def Let_def d1 st_def)
  moreover have "tp_spec st = 1" "tp_impl st = 1" "eq_verdict st = NO" "counter_example st = []"
    by (simp_all add: st_def new_equivalence_stats_def)
  ultimately show ?thesis using that by blast
qed


text \<open>A layout is strongly equivalent to itself whatever its throughput is.\<close>

lemma self_equivalence_is_strong:
  assumes "enumerable_design d" and "clean_design d" and "throughput_of srt d = Some t"
    and "miter d d = Some m" and "fst (solver m) = Some True"
  shows "\<exists>st. equivalence_checking srt miter solver d d = Some st \<and> eq_verdict st = STRONG \<and> tp_impl st = t"
proof -
  obtain st where e: "equivalence_checking srt miter solver d d =
      (if clean_design d \<and> clean_design d then solve_miter srt miter solver d d st else Some st)"
    and st: "tp_spec st = 1" "tp_impl st = 1" "eq_verdict st = NO"
    using equivalence_of_clean [OF assms(1,1)] .
  show ?thesis
    using compare_throughput_verdict [OF assms(3,3), of "st\<lparr>eq_verdict := STRONG\<rparr>"] st assms(2,4,5)
    unfolding e by (cases "solver m") (auto simp: solve_miter_def)
qed

declare signal_delays.simps [code]



end
