(* ===== verification/Logic_Network.thy ===== *)
theory Logic_Network
  imports Gate_Level_Layout
begin

text \<open>
  Model of \<open>utils/network_utils.hpp\<close> and of the inspection of \<open>networks/technology_network.hpp\<close>.

  Logic networks are mockturtle's: what an algorithm asks a network is a field of the record
  \<open>network\<close>, an argument of every definition. A \<open>foreach\<close> member is the list of the elements that it hands
  to its functor, in order; the signals of a technology network are its nodes, so a fanin is the node
  of its signal. A node is its index in the storage, a natural number. A node carries the index of its function in the truth table cache (\<open>nw_literal\<close>), by
  which a technology network tells its gates apart. What the theorems ask of a network is
  the predicate \<open>acyclic_network\<close>: it ranks its nodes, constants apart, as every topological view does.
\<close>

section \<open>Networks\<close>

type_synonym ntk_node = nat

record 'tt network =
  nw_nodes :: "ntk_node list"
  nw_gates :: "ntk_node list"
  nw_gates_reverse :: "ntk_node list"
  nw_pis :: "ntk_node list"
  nw_pos :: "ntk_node list"
  nw_po_complemented :: "nat \<Rightarrow> bool"
  nw_num_pis :: u32
  nw_is_constant :: "ntk_node \<Rightarrow> bool"
  nw_constant_value :: "ntk_node \<Rightarrow> bool"
  nw_is_pi :: "ntk_node \<Rightarrow> bool"
  nw_is_function :: "ntk_node \<Rightarrow> bool"
  nw_fanins :: "ntk_node \<Rightarrow> ntk_node list"
  nw_fanouts :: "ntk_node \<Rightarrow> ntk_node list"
  nw_fanin_size :: "ntk_node \<Rightarrow> u32"
  nw_fanout_size :: "ntk_node \<Rightarrow> u32"
  nw_level :: "ntk_node \<Rightarrow> u32"
  nw_literal :: "ntk_node \<Rightarrow> u32"
  nw_function :: "ntk_node \<Rightarrow> 'tt"
  nw_names :: "ntk_node \<rightharpoonup> string"
  nw_output_names :: "nat \<rightharpoonup> string"
  nw_network_name :: string

text \<open>The inspection of a technology network.\<close>

definition nw_is_po :: "'tt network \<Rightarrow> ntk_node \<Rightarrow> bool" where
  "nw_is_po N n = (n \<in> set (nw_pos N))"

definition nw_is_buf :: "'tt network \<Rightarrow> ntk_node \<Rightarrow> bool" where
  "nw_is_buf N n = (nw_literal N n = 2 \<and> \<not> nw_is_pi N n)"

definition nw_is_fanout :: "'tt network \<Rightarrow> ntk_node \<Rightarrow> bool" where
  "nw_is_fanout N n = (nw_is_buf N n \<and> nw_fanout_size N n > 1)"

definition nw_is_inv :: "'tt network \<Rightarrow> ntk_node \<Rightarrow> bool" where "nw_is_inv N n = (nw_literal N n = 3)"
definition nw_is_and :: "'tt network \<Rightarrow> ntk_node \<Rightarrow> bool" where "nw_is_and N n = (nw_literal N n = 4)"
definition nw_is_nand :: "'tt network \<Rightarrow> ntk_node \<Rightarrow> bool" where "nw_is_nand N n = (nw_literal N n = 5)"
definition nw_is_or :: "'tt network \<Rightarrow> ntk_node \<Rightarrow> bool" where "nw_is_or N n = (nw_literal N n = 6)"
definition nw_is_nor :: "'tt network \<Rightarrow> ntk_node \<Rightarrow> bool" where "nw_is_nor N n = (nw_literal N n = 7)"
definition nw_is_xor :: "'tt network \<Rightarrow> ntk_node \<Rightarrow> bool" where "nw_is_xor N n = (nw_literal N n = 12)"
definition nw_is_maj :: "'tt network \<Rightarrow> ntk_node \<Rightarrow> bool" where "nw_is_maj N n = (nw_literal N n = 14)"

section \<open>Edges and fanins\<close>

datatype edge = Edge (edge_source: ntk_node) (edge_target: ntk_node)

definition foreach_edge :: "'tt network \<Rightarrow> edge list" where
  "foreach_edge N = concat (map (\<lambda>n. map (\<lambda>fi. Edge fi n) (nw_fanins N n)) (nw_nodes N))"

definition foreach_outgoing_edge :: "'tt network \<Rightarrow> ntk_node \<Rightarrow> edge list" where
  "foreach_outgoing_edge N n = map (Edge n) (nw_fanouts N n)"

definition foreach_incoming_edge :: "'tt network \<Rightarrow> ntk_node \<Rightarrow> edge list" where
  "foreach_incoming_edge N n = map (\<lambda>fi. Edge fi n) (nw_fanins N n)"

definition fanouts :: "'tt network \<Rightarrow> ntk_node \<Rightarrow> ntk_node list" where
  "fanouts N n = nw_fanouts N n"

record fanin_container =
  fanin_nodes :: "ntk_node list"
  constant_fanin :: "bool option"

text \<open>The assertion that there is only one constant fanin is off in release builds: the last one counts.\<close>

definition fanins :: "'tt network \<Rightarrow> ntk_node \<Rightarrow> fanin_container" where
  "fanins N n =
     fold (\<lambda>fi fc. if nw_is_constant N fi then fc\<lparr>constant_fanin := Some (nw_constant_value N fi)\<rparr>
                   else fc\<lparr>fanin_nodes := fanin_nodes fc @ [fi]\<rparr>)
       (nw_fanins N n) \<lparr>fanin_nodes = [], constant_fanin = None\<rparr>"

definition num_constant_fanins :: "'tt network \<Rightarrow> ntk_node \<Rightarrow> u32" where
  "num_constant_fanins N n = fold (\<lambda>fi k. if nw_is_constant N fi then k + 1 else k) (nw_fanins N n) 0"

definition has_high_degree_fanin_nodes :: "'tt network \<Rightarrow> u32 \<Rightarrow> bool" where
  "has_high_degree_fanin_nodes N threshold =
     list_ex (\<lambda>n. \<not> nw_is_constant N n \<and> nw_fanin_size N n - num_constant_fanins N n > threshold) (nw_nodes N)"

definition fanin_edges :: "'tt network \<Rightarrow> ntk_node \<Rightarrow> edge list" where
  "fanin_edges N n = map (\<lambda>fi. Edge fi n) (filter (\<lambda>fi. \<not> nw_is_constant N fi) (nw_fanins N n))"

definition has_incoming_primary_input :: "'tt network \<Rightarrow> ntk_node \<Rightarrow> bool" where
  "has_incoming_primary_input N n = list_ex (\<lambda>fi. \<not> nw_is_constant N fi \<and> nw_is_pi N fi) (nw_fanins N n)"

text \<open>The recursion walks against the edges; the fuel bounds its depth. It ends on every network that
  has no cycle.\<close>

fun all_incoming_edge_paths :: "nat \<Rightarrow> 'tt network \<Rightarrow> ntk_node \<Rightarrow> edge list list option"
  and incoming_paths :: "nat \<Rightarrow> 'tt network \<Rightarrow> edge list \<Rightarrow> edge list list option" where
  "all_incoming_edge_paths 0 N n = None"
| "all_incoming_edge_paths (Suc k) N n =
     (if nw_fanin_size N n = 0 then Some [[]] else incoming_paths k N (foreach_incoming_edge N n))"
| "incoming_paths k N [] = Some []"
| "incoming_paths k N (e # es) =
     (if nw_is_constant N (edge_source e) then incoming_paths k N es
      else (case all_incoming_edge_paths k N (edge_source e) of
              None \<Rightarrow> None
            | Some ps \<Rightarrow>
                (case incoming_paths k N es of None \<Rightarrow> None | Some qs \<Rightarrow> Some (map (\<lambda>p. p @ [e]) ps @ qs))))"

section \<open>Balanced and fanout-substituted networks\<close>

record network_balancing_params =
  unify_outputs :: bool

definition get_po_levels :: "'tt network \<Rightarrow> u32 list" where
  "get_po_levels N = map (nw_level N) (nw_pos N)"

text \<open>\<open>std::adjacent_find\<close> with \<open>std::not_equal_to\<close> finds two neighbours that differ.\<close>

fun adjacent_differ :: "'a list \<Rightarrow> bool" where
  "adjacent_differ (x # y # xs) = (x \<noteq> y \<or> adjacent_differ (y # xs))"
| "adjacent_differ _ = False"

definition is_balanced :: "'tt network \<Rightarrow> network_balancing_params \<Rightarrow> bool" where
  "is_balanced N ps =
     (list_all (\<lambda>n. list_all (\<lambda>fi. nw_is_constant N fi \<or> \<not> nw_level N n - nw_level N fi - 1 > 0) (nw_fanins N n)) (nw_gates N) \<and>
      \<not> (unify_outputs ps \<and> adjacent_differ (get_po_levels N)))"

datatype substitution_strategy = BREADTH | DEPTH

record fanout_substitution_params =
  fs_strategy :: substitution_strategy
  fs_degree :: u32
  fs_threshold :: u32

definition default_fanout_params :: fanout_substitution_params where
  "default_fanout_params = \<lparr>fs_strategy = BREADTH, fs_degree = 2, fs_threshold = 1\<rparr>"

definition is_fanout_substituted :: "'tt network \<Rightarrow> fanout_substitution_params \<Rightarrow> bool" where
  "is_fanout_substituted N ps =
     list_all (\<lambda>n. nw_is_constant N n \<or>
       (if nw_is_fanout N n then \<not> nw_fanout_size N n > fs_degree ps else \<not> nw_fanout_size N n > fs_threshold ps))
       (nw_nodes N)"

section \<open>Fanins\<close>

lemma fanins_filter:
  "fanin_nodes (fanins N n) = filter (\<lambda>fi. \<not> nw_is_constant N fi) (nw_fanins N n)"
proof -
  have h: "fanin_nodes (fold (\<lambda>fi fc. if nw_is_constant N fi then fc\<lparr>constant_fanin := Some (nw_constant_value N fi)\<rparr>
      else fc\<lparr>fanin_nodes := fanin_nodes fc @ [fi]\<rparr>) fis fc) = fanin_nodes fc @ filter (\<lambda>fi. \<not> nw_is_constant N fi) fis" for fis fc
    by (induction fis arbitrary: fc) simp_all
  show ?thesis by (simp add: fanins_def h)
qed

lemma num_constant_fanins_count: "num_constant_fanins N n = of_nat (length (filter (nw_is_constant N) (nw_fanins N n)))"
proof -
  have "fold (\<lambda>fi k. if nw_is_constant N fi then k + 1 else k) fis k = k + of_nat (length (filter (nw_is_constant N) fis))" for fis and k :: u32
    by (induction fis arbitrary: k) simp_all
  then show ?thesis by (simp add: num_constant_fanins_def)
qed

section \<open>Paths\<close>

text \<open>Every node, constants apart, has a rank above those of its fanins, and the size of its fanin is the
  number of its fanins.\<close>

definition acyclic_network :: "'tt network \<Rightarrow> (ntk_node \<Rightarrow> nat) \<Rightarrow> bool" where
  "acyclic_network N rank \<longleftrightarrow>
     (\<forall>n. \<not> nw_is_constant N n \<longrightarrow> (\<forall>fi\<in>set (nw_fanins N n). \<not> nw_is_constant N fi \<longrightarrow> rank fi < rank n)) \<and>
     (\<forall>n. nw_fanin_size N n = 0 \<longleftrightarrow> nw_fanins N n = [])"

text \<open>The paths to a node from the nodes without fanins.\<close>

inductive edge_path :: "'tt network \<Rightarrow> ntk_node \<Rightarrow> edge list \<Rightarrow> bool" for N where
  terminal: "nw_fanins N n = [] \<Longrightarrow> edge_path N n []"
| step: "fi \<in> set (nw_fanins N n) \<Longrightarrow> \<not> nw_is_constant N fi \<Longrightarrow> edge_path N fi p \<Longrightarrow> edge_path N n (p @ [Edge fi n])"

lemma edge_path_iff:
  "edge_path N n q \<longleftrightarrow> (nw_fanins N n = [] \<and> q = []) \<or>
     (\<exists>fi p. fi \<in> set (nw_fanins N n) \<and> \<not> nw_is_constant N fi \<and> edge_path N fi p \<and> q = p @ [Edge fi n])"
  by (subst edge_path.simps) blast

lemma incoming_paths_set:
  assumes "\<And>e. e \<in> set es \<Longrightarrow> \<not> nw_is_constant N (edge_source e) \<Longrightarrow>
    \<exists>ps. all_incoming_edge_paths k N (edge_source e) = Some ps \<and> set ps = {p. edge_path N (edge_source e) p}"
  shows "\<exists>ps. incoming_paths k N es = Some ps \<and>
    set ps = {p @ [e] | e p. e \<in> set es \<and> \<not> nw_is_constant N (edge_source e) \<and> edge_path N (edge_source e) p}"
  using assms
proof (induction es)
  case (Cons e es)
  then obtain qs where qs: "incoming_paths k N es = Some qs"
    "set qs = {p @ [e] | e p. e \<in> set es \<and> \<not> nw_is_constant N (edge_source e) \<and> edge_path N (edge_source e) p}"
    by auto
  show ?case
  proof (cases "nw_is_constant N (edge_source e)")
    case False
    then obtain ps where "all_incoming_edge_paths k N (edge_source e) = Some ps" "set ps = {p. edge_path N (edge_source e) p}"
      using Cons.prems [of e] by auto
    then show ?thesis using qs False by auto
  qed (use qs in auto)
qed simp

lemma all_incoming_paths_set:
  assumes "acyclic_network N rank" and "\<not> nw_is_constant N n" and "rank n < k"
  shows "\<exists>ps. all_incoming_edge_paths k N n = Some ps \<and> set ps = {p. edge_path N n p}"
  using assms(2,3)
proof (induction k arbitrary: n)
  case (Suc k)
  show ?case
  proof (cases "nw_fanins N n = []")
    case True
    then have "nw_fanin_size N n = 0" "{p. edge_path N n p} = {[]}"
      using assms(1) by (auto simp: acyclic_network_def edge_path_iff [of N n])
    then show ?thesis by simp
  next
    case False
    then have z: "nw_fanin_size N n \<noteq> 0" using assms(1) by (simp add: acyclic_network_def)
    have "\<exists>ps. all_incoming_edge_paths k N (edge_source e) = Some ps \<and> set ps = {p. edge_path N (edge_source e) p}"
      if e: "e \<in> set (foreach_incoming_edge N n)" "\<not> nw_is_constant N (edge_source e)" for e
    proof -
      have "rank (edge_source e) < rank n"
        using assms(1) e Suc.prems(1) by (auto simp: acyclic_network_def foreach_incoming_edge_def)
      then show ?thesis using Suc.IH [OF e(2)] Suc.prems(2) by simp
    qed
    from incoming_paths_set [OF this] obtain ps where ps: "incoming_paths k N (foreach_incoming_edge N n) = Some ps"
      "set ps = {p @ [e] | e p. e \<in> set (foreach_incoming_edge N n) \<and> \<not> nw_is_constant N (edge_source e) \<and>
         edge_path N (edge_source e) p}" by blast
    have "set ps = {p. edge_path N n p}"
      unfolding ps(2) by (subst edge_path_iff) (use False in \<open>auto simp: foreach_incoming_edge_def\<close>)
    with ps(1) z show ?thesis by simp
  qed
qed simp

text \<open>C17. On an acyclic network the search for the incoming paths of a node ends, with a fuel above its
  rank, and finds exactly the paths of edges from the nodes without fanins that avoid constants.\<close>

theorem incoming_paths_exact:
  assumes "acyclic_network N rank" and "\<not> nw_is_constant N n" and "rank n < k"
  shows "\<exists>ps. all_incoming_edge_paths k N n = Some ps \<and> (\<forall>p. p \<in> set ps \<longleftrightarrow> edge_path N n p)"
  using all_incoming_paths_set [OF assms] by blast

text \<open>An example: \<open>f = (a \<and> b) \<or> \<not> b\<close> with a fanout node for \<open>b\<close>. Its functions are named by their indices.\<close>

definition sample_fanins :: "ntk_node \<Rightarrow> ntk_node list" where
  "sample_fanins n = (if n = 4 then [3] else if n = 5 then [2, 4] else if n = 6 then [4] else if n = 7 then [5, 6] else [])"

definition sample_network :: "u32 network" where
  "sample_network =
     \<lparr>nw_nodes = [0, 1, 2, 3, 4, 5, 6, 7], nw_gates = [4, 5, 6, 7], nw_gates_reverse = [7, 6, 5, 4],
      nw_pis = [2, 3], nw_pos = [7], nw_po_complemented = (\<lambda>i. False), nw_num_pis = 2,
      nw_is_constant = (\<lambda>n. n \<le> 1), nw_constant_value = (\<lambda>n. n = 1), nw_is_pi = (\<lambda>n. n = 2 \<or> n = 3),
      nw_is_function = (\<lambda>n. 3 < n), nw_fanins = sample_fanins,
      nw_fanouts = (\<lambda>n. filter (\<lambda>m. n \<in> set (sample_fanins m)) [4, 5, 6, 7]),
      nw_fanin_size = (\<lambda>n. of_nat (length (sample_fanins n))),
      nw_fanout_size = (\<lambda>n. if n = 4 then 2 else if n \<le> 1 then 0 else 1),
      nw_level = (\<lambda>n. if n \<le> 3 then 0 else if n = 4 then 1 else if n = 7 then 3 else 2),
      nw_literal = (\<lambda>n. if n = 4 then 2 else if n = 5 then 4 else if n = 6 then 3 else if n = 7 then 6 else 0),
      nw_function = (\<lambda>n. if n = 4 then 2 else if n = 5 then 4 else if n = 6 then 3 else if n = 7 then 6 else 0),
      nw_names = [2 \<mapsto> ''a'', 3 \<mapsto> ''b''], nw_output_names = Map.empty, nw_network_name = ''f''\<rparr>"

lemma sample_acyclic: "acyclic_network sample_network id"
  by (auto simp: acyclic_network_def sample_network_def sample_fanins_def)

lemma incoming_paths_exact_witness:
  "\<exists>ps. all_incoming_edge_paths 8 sample_network 7 = Some ps \<and> edge_path sample_network 7 [Edge 3 4, Edge 4 6, Edge 6 7]"
proof -
  have c: "\<not> nw_is_constant sample_network 7" "id (7 :: nat) < 8" by code_simp+
  have "all_incoming_edge_paths 8 sample_network 7 =
      Some [[Edge 2 5, Edge 5 7], [Edge 3 4, Edge 4 5, Edge 5 7], [Edge 3 4, Edge 4 6, Edge 6 7]]"
    by code_simp
  then show ?thesis using incoming_paths_exact [OF sample_acyclic c] by auto
qed

end
