(* ===== verification/Technology_Network.thy ===== *)
theory Technology_Network
  imports Logic_Network
begin

text \<open>
  Model of the construction of \<open>networks/technology_network.hpp\<close>: nodes are created without structural
  hashing, and buffers are real nodes.

  The class inherits from mockturtle's \<open>klut_network\<close>. The record \<open>technology_network\<close> holds the parts of
  its storage that the code accesses: of a node its children, its reference count (\<open>data[0].h1\<close>) and the
  index of its function (\<open>data[1].h1\<close>). Reference counts are natural numbers. The
  operations of the base class are the record \<open>klut\<close>, an argument of the definitions that call them; what
  the theorems use of them is \<open>klut_laws\<close>. Truth tables are those of Gate_Level_Layout; \<open>cache_laws\<close> says
  what a cache does: an inserted table is found under its index and stays there, index 2 is the
  identity and index 3 the negation.
\<close>

section \<open>Storage\<close>

record tn_node =
  tn_children :: "ntk_node list"
  tn_refs :: nat
  tn_literal :: u32

record 'tt technology_network =
  tn_nodes :: "tn_node list"
  tn_outputs :: "ntk_node list"
  tn_cache :: "'tt list"
  tn_on_add :: "ntk_node list"

record 'tt klut =
  kl_get_constant :: "bool \<Rightarrow> ntk_node"
  kl_is_constant :: "ntk_node \<Rightarrow> bool"
  kl_constant_value :: "ntk_node \<Rightarrow> bool"
  kl_fanout_size :: "'tt technology_network \<Rightarrow> ntk_node \<Rightarrow> nat"
  kl_set_value :: "ntk_node \<Rightarrow> u32 \<Rightarrow> 'tt technology_network \<Rightarrow> 'tt technology_network"
  kl_create_po :: "ntk_node \<Rightarrow> 'tt technology_network \<Rightarrow> 'tt technology_network"
  kl_is_pi :: "'tt technology_network \<Rightarrow> ntk_node \<Rightarrow> bool"
  kl_foreach_ci :: "'tt technology_network \<Rightarrow> ntk_node list"

section \<open>Creation of nodes\<close>

definition tn_incr_refs :: "ntk_node \<Rightarrow> 'tt technology_network \<Rightarrow> 'tt technology_network" where
  "tn_incr_refs c s = s\<lparr>tn_nodes := (tn_nodes s)[c := (tn_nodes s ! c)\<lparr>tn_refs := tn_refs (tn_nodes s ! c) + 1\<rparr>]\<rparr>"

definition tn_decr_refs :: "ntk_node \<Rightarrow> 'tt technology_network \<Rightarrow> 'tt technology_network" where
  "tn_decr_refs c s = s\<lparr>tn_nodes := (tn_nodes s)[c := (tn_nodes s ! c)\<lparr>tn_refs := tn_refs (tn_nodes s ! c) - 1\<rparr>]\<rparr>"

definition tn_create_node_from_literal ::
    "'tt klut \<Rightarrow> ntk_node list \<Rightarrow> u32 \<Rightarrow> 'tt technology_network \<Rightarrow> ntk_node \<times> 'tt technology_network" where
  "tn_create_node_from_literal B children literal s =
     (let index = length (tn_nodes s);
          s1 = s\<lparr>tn_nodes := tn_nodes s @ [\<lparr>tn_children = children, tn_refs = 0, tn_literal = literal\<rparr>]\<rparr>;
          s2 = fold tn_incr_refs children s1;
          s3 = kl_set_value B index 0 s2
      in (index, s3\<lparr>tn_on_add := tn_on_add s3 @ [index]\<rparr>))"

definition tn_create_buf :: "'tt klut \<Rightarrow> ntk_node \<Rightarrow> 'tt technology_network \<Rightarrow> ntk_node \<times> 'tt technology_network" where
  "tn_create_buf B a s = tn_create_node_from_literal B [a] 2 s"

definition tn_create_not :: "'tt klut \<Rightarrow> ntk_node \<Rightarrow> 'tt technology_network \<Rightarrow> ntk_node \<times> 'tt technology_network" where
  "tn_create_not B a s =
     (if kl_is_constant B a then (kl_get_constant B (\<not> kl_constant_value B a), s)
      else tn_create_node_from_literal B [a] 3 s)"

definition tn_create_and where "tn_create_and B a b = tn_create_node_from_literal B [a, b] 4"
definition tn_create_nand where "tn_create_nand B a b = tn_create_node_from_literal B [a, b] 5"
definition tn_create_or where "tn_create_or B a b = tn_create_node_from_literal B [a, b] 6"
definition tn_create_nor where "tn_create_nor B a b = tn_create_node_from_literal B [a, b] 7"
definition tn_create_lt where "tn_create_lt B a b = tn_create_node_from_literal B [a, b] 8"
definition tn_create_le where "tn_create_le B a b = tn_create_node_from_literal B [a, b] 11"
definition tn_create_xor where "tn_create_xor B a b = tn_create_node_from_literal B [a, b] 12"
definition tn_create_xnor where "tn_create_xnor B a b = tn_create_node_from_literal B [a, b] 13"
definition tn_create_maj where "tn_create_maj B a b c = tn_create_node_from_literal B [a, b, c] 14"
definition tn_create_ite where "tn_create_ite B a b c = tn_create_node_from_literal B [a, b, c] 16"
definition tn_create_xor3 where "tn_create_xor3 B a b c = tn_create_node_from_literal B [a, b, c] 18"
definition tn_create_dot where "tn_create_dot B a b c = tn_create_node_from_literal B [a, b, c] 20"

definition tn_create_node ::
    "'tt klut \<Rightarrow> 'tt kitty \<Rightarrow> ntk_node list \<Rightarrow> 'tt \<Rightarrow> 'tt technology_network \<Rightarrow> ntk_node \<times> 'tt technology_network" where
  "tn_create_node B k children function s =
     (if children = [] then (kl_get_constant B (\<not> tt_is_const0 k function), s)
      else tn_create_node_from_literal B children (tt_insert k (tn_cache s) function)
             (s\<lparr>tn_cache := tn_cache s @ [function]\<rparr>))"

text \<open>The function of the source node is looked up in the source network.\<close>

definition tn_clone_node ::
    "'tt klut \<Rightarrow> 'tt kitty \<Rightarrow> 'tt network \<Rightarrow> ntk_node \<Rightarrow> ntk_node list \<Rightarrow> 'tt technology_network \<Rightarrow>
     ntk_node \<times> 'tt technology_network" where
  "tn_clone_node B k other source children s = tn_create_node B k children (nw_function other source) s"

section \<open>Inspection and manipulation\<close>

definition tn_is_po :: "'tt technology_network \<Rightarrow> ntk_node \<Rightarrow> bool" where
  "tn_is_po s n = (n \<in> set (tn_outputs s))"

definition tn_is_buf :: "'tt klut \<Rightarrow> 'tt technology_network \<Rightarrow> ntk_node \<Rightarrow> bool" where
  "tn_is_buf B s n = (tn_literal (tn_nodes s ! n) = 2 \<and> \<not> kl_is_pi B s n)"

definition tn_is_fanout :: "'tt klut \<Rightarrow> 'tt technology_network \<Rightarrow> ntk_node \<Rightarrow> bool" where
  "tn_is_fanout B s n = (tn_is_buf B s n \<and> kl_fanout_size B s n > 1)"

text \<open>Every output that is not driven by a buffer gets one.\<close>

definition substitute_po_signal ::
    "'tt klut \<Rightarrow> nat \<Rightarrow> 'tt technology_network \<Rightarrow> 'tt technology_network" where
  "substitute_po_signal B index s =
     (let po = tn_outputs s ! index
      in if \<not> tn_is_buf B s po then
           (case tn_create_buf B po (tn_decr_refs po s) of
              (b, s2) \<Rightarrow> s2\<lparr>tn_outputs := (tn_outputs s2)[index := b]\<rparr>)
         else s)"

definition substitute_po_signals :: "'tt klut \<Rightarrow> 'tt technology_network \<Rightarrow> 'tt technology_network" where
  "substitute_po_signals B s = fold (substitute_po_signal B) [0..<length (tn_outputs s)] s"

text \<open>The first index with the node, or the largest 32-bit number.\<close>

fun first_index :: "u32 \<Rightarrow> 'a \<Rightarrow> 'a list \<Rightarrow> u32" where
  "first_index i x [] = - 1"
| "first_index i x (y # ys) = (if y = x then i else first_index (i + 1) x ys)"

definition pi_index :: "'tt klut \<Rightarrow> 'tt technology_network \<Rightarrow> ntk_node \<Rightarrow> u32" where
  "pi_index B s n = first_index 0 n (kl_foreach_ci B s)"

definition po_index :: "'tt technology_network \<Rightarrow> ntk_node \<Rightarrow> u32" where
  "po_index s x = first_index 0 x (tn_outputs s)"

definition add_additional_functions :: "'tt kitty \<Rightarrow> 'tt technology_network \<Rightarrow> 'tt technology_network" where
  "add_additional_functions k s =
     s\<lparr>tn_cache := tn_cache s @ map (tt_from_words k 3) [0x52, 0x80, 0x28, 0xa8, 0x16, 0x81, 0x6a]\<rparr>"

section \<open>Laws of the libraries\<close>

definition tn_shape :: "'tt technology_network \<Rightarrow> (ntk_node list \<times> u32) list" where
  "tn_shape s = map (\<lambda>d. (tn_children d, tn_literal d)) (tn_nodes s)"

definition tn_counts :: "'tt technology_network \<Rightarrow> nat list" where
  "tn_counts s = map tn_refs (tn_nodes s)"

text \<open>\<open>set_value\<close> changes nothing that is modelled, \<open>create_po\<close> appends the output and counts the reference, and
  \<open>fanout_size\<close> is the reference count.\<close>

definition klut_laws :: "'tt klut \<Rightarrow> bool" where
  "klut_laws B \<longleftrightarrow>
     (\<forall>n v s. kl_set_value B n v s = s) \<and>
     (\<forall>a s. kl_create_po B a s = tn_incr_refs a (s\<lparr>tn_outputs := tn_outputs s @ [a]\<rparr>)) \<and>
     (\<forall>s n. n < length (tn_nodes s) \<longrightarrow> kl_fanout_size B s n = tn_refs (tn_nodes s ! n))"

definition cache_laws :: "('tt \<Rightarrow> bool list \<Rightarrow> bool) \<Rightarrow> 'tt kitty \<Rightarrow> ('tt list \<Rightarrow> u32 \<Rightarrow> bool) \<Rightarrow> bool" where
  "cache_laws tv k known \<longleftrightarrow>
     (\<forall>c f. known (c @ [f]) (tt_insert k c f) \<and> tt_lookup k (c @ [f]) (tt_insert k c f) = f) \<and>
     (\<forall>c f i. known c i \<longrightarrow> known (c @ [f]) i \<and> tt_lookup k (c @ [f]) i = tt_lookup k c i) \<and>
     (\<forall>c b. known c 2 \<longrightarrow> tv (tt_lookup k c 2) [b] = b) \<and>
     (\<forall>c b. known c 3 \<longrightarrow> tv (tt_lookup k c 3) [b] = (\<not> b))"

text \<open>The storage is sound: the functions of its nodes are in the cache, and so are the buffer and the inverter.\<close>

definition tn_sound :: "('tt list \<Rightarrow> u32 \<Rightarrow> bool) \<Rightarrow> 'tt technology_network \<Rightarrow> bool" where
  "tn_sound known s \<longleftrightarrow> known (tn_cache s) 2 \<and> known (tn_cache s) 3 \<and> (\<forall>d\<in>set (tn_shape s). fst d \<noteq> [] \<longrightarrow> known (tn_cache s) (snd d))"

text \<open>A valuation of the nodes that agrees with the functions of the storage.\<close>

definition tn_models ::
    "('tt \<Rightarrow> bool list \<Rightarrow> bool) \<Rightarrow> 'tt kitty \<Rightarrow> 'tt technology_network \<Rightarrow> (ntk_node \<Rightarrow> bool) \<Rightarrow> bool" where
  "tn_models tv k s v \<longleftrightarrow>
     (\<forall>j<length (tn_nodes s). fst (tn_shape s ! j) \<noteq> [] \<longrightarrow>
        v j = tv (tt_lookup k (tn_cache s) (snd (tn_shape s ! j))) (map v (fst (tn_shape s ! j))))"

section \<open>What creation does\<close>

lemma tn_incr_refs_simps [simp]:
  "tn_outputs (tn_incr_refs c s) = tn_outputs s" "tn_cache (tn_incr_refs c s) = tn_cache s"
  "length (tn_nodes (tn_incr_refs c s)) = length (tn_nodes s)" "tn_shape (tn_incr_refs c s) = tn_shape s"
  by (simp_all add: tn_incr_refs_def tn_shape_def map_update)
     (cases "c < length (tn_nodes s)", simp_all add: list_eq_iff_nth_eq nth_list_update)

lemma fold_refs_simps [simp]:
  "tn_outputs (fold tn_incr_refs cs s) = tn_outputs s" "tn_cache (fold tn_incr_refs cs s) = tn_cache s"
  "length (tn_nodes (fold tn_incr_refs cs s)) = length (tn_nodes s)" "tn_shape (fold tn_incr_refs cs s) = tn_shape s"
  by (induction cs arbitrary: s) simp_all

lemma incr_counts: "c < length (tn_nodes s) \<Longrightarrow> tn_counts (tn_incr_refs c s) = (tn_counts s)[c := Suc (tn_counts s ! c)]"
  by (simp add: tn_counts_def tn_incr_refs_def map_update)

lemma length_shape [simp]: "length (tn_shape s) = length (tn_nodes s)" "length (tn_counts s) = length (tn_nodes s)"
  by (simp_all add: tn_shape_def tn_counts_def)

lemma fold_counts:
  assumes "set cs \<subseteq> {..<length (tn_nodes s)}" and "j < length (tn_nodes s)"
  shows "tn_counts (fold tn_incr_refs cs s) ! j = tn_counts s ! j + count_list cs j"
  using assms
proof (induction cs arbitrary: s)
  case (Cons c cs)
  then show ?case by (simp add: incr_counts nth_list_update)
qed simp

lemma create_literal:
  assumes "klut_laws B" and "tn_create_node_from_literal B cs i s = (n, s')"
  shows "n = length (tn_nodes s)" "tn_shape s' = tn_shape s @ [(cs, i)]" "tn_outputs s' = tn_outputs s"
    "tn_cache s' = tn_cache s" "length (tn_nodes s') = Suc (length (tn_nodes s))"
proof -
  let ?s1 = "s\<lparr>tn_nodes := tn_nodes s @ [\<lparr>tn_children = cs, tn_refs = 0, tn_literal = i\<rparr>]\<rparr>"
  have s': "s' = (fold tn_incr_refs cs ?s1)\<lparr>tn_on_add := tn_on_add (fold tn_incr_refs cs ?s1) @ [length (tn_nodes s)]\<rparr>"
    and n: "n = length (tn_nodes s)"
    using assms by (auto simp: tn_create_node_from_literal_def klut_laws_def Let_def)
  have u: "tn_shape (t\<lparr>tn_on_add := x\<rparr>) = tn_shape t" for t :: "'a technology_network" and x by (simp add: tn_shape_def)
  show "n = length (tn_nodes s)" by (rule n)
  show "tn_shape s' = tn_shape s @ [(cs, i)]" unfolding s' u fold_refs_simps by (simp add: tn_shape_def)
  show "tn_outputs s' = tn_outputs s" "tn_cache s' = tn_cache s" "length (tn_nodes s') = Suc (length (tn_nodes s))"
    unfolding s' by simp_all
qed

lemma create_literal_counts:
  assumes "klut_laws B" and "tn_create_node_from_literal B cs i s = (n, s')" and "set cs \<subseteq> {..<length (tn_nodes s)}"
    and "j \<le> length (tn_nodes s)"
  shows "tn_counts s' ! j = (if j = length (tn_nodes s) then 0 else tn_counts s ! j + count_list cs j)"
proof -
  let ?s1 = "s\<lparr>tn_nodes := tn_nodes s @ [\<lparr>tn_children = cs, tn_refs = 0, tn_literal = i\<rparr>]\<rparr>"
  have s': "s' = (fold tn_incr_refs cs ?s1)\<lparr>tn_on_add := tn_on_add (fold tn_incr_refs cs ?s1) @ [length (tn_nodes s)]\<rparr>"
    using assms by (auto simp: tn_create_node_from_literal_def klut_laws_def Let_def)
  have "tn_counts s' ! j = tn_counts (fold tn_incr_refs cs ?s1) ! j" by (simp add: s' tn_counts_def)
  also have "\<dots> = tn_counts ?s1 ! j + count_list cs j"
    using assms(3,4) by (intro fold_counts) auto
  also have "tn_counts ?s1 ! j = (if j = length (tn_nodes s) then 0 else tn_counts s ! j)"
    using assms(4) by (simp add: tn_counts_def nth_append)
  finally show ?thesis using assms(3) by (auto simp: count_list_0_iff)
qed

section \<open>Libraries for examples\<close>

text \<open>A choice of the operations of the libraries for the witnesses. Functions are identified with their
  indices, so the cache has them all.\<close>

definition sample_klut :: "u32 klut" where
  "sample_klut =
     \<lparr>kl_get_constant = (\<lambda>b. if b then 1 else 0), kl_is_constant = (\<lambda>n. n \<le> 1), kl_constant_value = (\<lambda>n. n = 1),
      kl_fanout_size = (\<lambda>s n. tn_refs (tn_nodes s ! n)), kl_set_value = (\<lambda>n v s. s),
      kl_create_po = (\<lambda>a s. tn_incr_refs a (s\<lparr>tn_outputs := tn_outputs s @ [a]\<rparr>)),
      kl_is_pi = (\<lambda>s n. n = 2 \<or> n = 3), kl_foreach_ci = (\<lambda>s. [2, 3])\<rparr>"

definition sample_tables :: "u32 kitty" where
  "sample_tables =
     \<lparr>tt_insert = (\<lambda>c f. f), tt_lookup = (\<lambda>c i. i), tt_zero = (\<lambda>n. 0), tt_from_words = (\<lambda>n w. ucast w),
      tt_is_const0 = (\<lambda>f. f = 0), tt_num_bits = (\<lambda>f. 8), tt_construct = (\<lambda>f. 0), tt_get_bit = bit,
      tt_set_bit = (\<lambda>f i. set_bit i f)\<rparr>"

fun sample_value :: "u32 \<Rightarrow> bool list \<Rightarrow> bool" where
  "sample_value f bs =
     (if f = 2 then hd bs else if f = 3 then \<not> hd bs else if f = 4 then list_all id bs
      else if f = 6 then list_ex id bs else False)"

text \<open>The constants and inputs of the example network, and their map.\<close>

definition sample_copy :: "u32 technology_network \<times> (ntk_node \<Rightarrow> ntk_node)" where
  "sample_copy =
     (\<lparr>tn_nodes = replicate 4 \<lparr>tn_children = [], tn_refs = 0, tn_literal = 0\<rparr>, tn_outputs = [], tn_cache = [], tn_on_add = []\<rparr>,
      \<lambda>n. n)"

lemma sample_laws: "klut_laws sample_klut" "cache_laws sample_value sample_tables (\<lambda>c i. True)"
  by (simp_all add: klut_laws_def sample_klut_def cache_laws_def sample_tables_def)

end
