(* ===== verification/Network_Balancing.thy ===== *)
theory Network_Balancing
  imports Technology_Network
begin

text \<open>
  Model of \<open>algorithms/network_transformation/network_balancing.hpp\<close>, which equalizes the lengths of the
  paths of a network by buffers.

  The source is the topological view of the converted network, the record \<open>network\<close>, with its levels.
  \<open>mockturtle::initialize_copy_network\<close> returns a network that has the constants and inputs of the source
  and the map of them: this pair is the argument \<open>init\<close>. The names are restored after
  the construction; they do not take part in the theorems and are left out.

  The locale \<open>buffer_network\<close> states what a transformation relies on when it inserts
  buffers: every valuation of the larger network is one of the smaller, and the value of a buffer is
  determined by that of its input. It is interpreted twice on the technology network: for Boolean
  values, which a buffer passes on, and for levels, which it raises by one.
\<close>

section \<open>The transformation\<close>

definition insert_buf_chain ::
    "(ntk_node \<Rightarrow> 's \<Rightarrow> ntk_node \<times> 's) \<Rightarrow> nat \<Rightarrow> ntk_node \<times> 's \<Rightarrow> ntk_node \<times> 's" where
  "insert_buf_chain mk_buf num = (\<lambda>(child, s). mk_buf child s) ^^ num"

text \<open>The children of a node: constants as they are, the others behind a chain that makes up for the
  difference in level.\<close>

fun balanced_children ::
    "'tt klut \<Rightarrow> 'tt network \<Rightarrow> (ntk_node \<Rightarrow> ntk_node) \<Rightarrow> ntk_node \<Rightarrow> ntk_node list \<Rightarrow> 'tt technology_network \<Rightarrow>
     ntk_node list \<times> 'tt technology_network" where
  "balanced_children B N old2new n [] s = ([], s)"
| "balanced_children B N old2new n (fn # fns) s =
     (case (if nw_is_constant N fn then (old2new fn, s)
            else insert_buf_chain (tn_create_buf B) (unat (nw_level N n - nw_level N fn - 1)) (old2new fn, s)) of
        (child, s1) \<Rightarrow> (case balanced_children B N old2new n fns s1 of (cs, s2) \<Rightarrow> (child # cs, s2)))"

definition balance_gate ::
    "'tt klut \<Rightarrow> 'tt kitty \<Rightarrow> 'tt network \<Rightarrow> ntk_node \<Rightarrow> 'tt technology_network \<times> (ntk_node \<Rightarrow> ntk_node) \<Rightarrow>
     'tt technology_network \<times> (ntk_node \<Rightarrow> ntk_node)" where
  "balance_gate B k N n = (\<lambda>(s, old2new).
     case balanced_children B N old2new n (nw_fanins N n) s of (children, s1) \<Rightarrow>
       (case tn_clone_node B k N n children s1 of (m, s2) \<Rightarrow> (s2, old2new(n := m))))"

text \<open>Output \<open>i\<close>, complemented if its signal is, behind a chain if the outputs are to be in one rank.\<close>

definition balance_po ::
    "'tt klut \<Rightarrow> network_balancing_params \<Rightarrow> 'tt network \<Rightarrow> u32 \<Rightarrow> (ntk_node \<Rightarrow> ntk_node) \<Rightarrow> nat \<Rightarrow>
     'tt technology_network \<Rightarrow> 'tt technology_network" where
  "balance_po B ps N max_level old2new i s =
     (let tgt = old2new (nw_pos N ! i)
      in case (if nw_po_complemented N i then tn_create_not B tgt s else (tgt, s)) of
           (po, s1) \<Rightarrow>
             (case (if unify_outputs ps
                    then insert_buf_chain (tn_create_buf B) (unat (max_level - get_po_levels N ! i)) (po, s1)
                    else (po, s1)) of
                (po', s2) \<Rightarrow> kl_create_po B po' s2))"

text \<open>\<open>std::max_element\<close> is dereferenced: the network has an output.\<close>

definition network_balancing ::
    "'tt klut \<Rightarrow> 'tt kitty \<Rightarrow> network_balancing_params \<Rightarrow> 'tt network \<Rightarrow> 'tt technology_network \<times> (ntk_node \<Rightarrow> ntk_node) \<Rightarrow>
     'tt technology_network" where
  "network_balancing B k ps N init =
     (case fold (balance_gate B k N) (nw_gates N) init of
        (s, old2new) \<Rightarrow>
          (let max_level = fold max (get_po_levels N) 0
           in fold (balance_po B ps N max_level old2new) [0..<length (nw_pos N)] s))"

section \<open>The contract of buffers\<close>

locale buffer_network =
  fixes sound :: "'s \<Rightarrow> bool" and models :: "'s \<Rightarrow> (ntk_node \<Rightarrow> 'v) \<Rightarrow> bool"
    and buf :: "ntk_node \<Rightarrow> 's \<Rightarrow> ntk_node \<times> 's" and pass :: "'v \<Rightarrow> 'v"
  assumes buf_sound: "sound s \<Longrightarrow> sound (snd (buf a s))"
    and buf_models: "sound s \<Longrightarrow> models (snd (buf a s)) v \<Longrightarrow> models s v"
    and buf_value: "sound s \<Longrightarrow> models (snd (buf a s)) v \<Longrightarrow> v (fst (buf a s)) = pass (v a)"
begin

text \<open>A step that creates only what can be explained by what was there.\<close>

definition explains :: "'s \<Rightarrow> 's \<Rightarrow> bool" where
  "explains s s' \<longleftrightarrow> sound s' \<and> (\<forall>v. models s' v \<longrightarrow> models s v)"

lemma explains_refl: "sound s \<Longrightarrow> explains s s"
  by (simp add: explains_def)

lemma explains_trans: "explains s s1 \<Longrightarrow> explains s1 s2 \<Longrightarrow> explains s s2"
  by (simp add: explains_def)

lemma chain:
  assumes "sound s" and "insert_buf_chain buf num (a, s) = (b, s')"
  shows "explains s s' \<and> (\<forall>v. models s' v \<longrightarrow> v b = (pass ^^ num) (v a))"
  using assms(2)
proof (induction num arbitrary: b s')
  case 0
  then show ?case using assms(1) by (simp add: insert_buf_chain_def explains_def)
next
  case (Suc num)
  obtain b1 s1 where p: "insert_buf_chain buf num (a, s) = (b1, s1)" by fastforce
  then have e: "buf b1 s1 = (b, s')" using Suc.prems by (simp add: insert_buf_chain_def)
  note ih = Suc.IH [OF p]
  then have s1: "sound s1" by (simp add: explains_def)
  show ?case
    using ih buf_sound [OF s1, of b1] buf_models [OF s1, of b1] buf_value [OF s1, of b1]
    unfolding e explains_def prod.sel funpow.simps comp_apply by metis
qed

end

section \<open>Technology networks keep the contract\<close>

lemma models_create:
  assumes "klut_laws B" and "tn_create_node_from_literal B cs i s = (n, s')" and "cs \<noteq> []" and "tn_models tv k s' v"
  shows "tn_models tv k s v" "v n = tv (tt_lookup k (tn_cache s) i) (map v cs)"
  using assms(3,4) create_literal [OF assms(1,2)]
  by (auto simp: tn_models_def nth_append less_Suc_eq)

lemma sound_create:
  assumes "klut_laws B" and "tn_create_node_from_literal B cs i s = (n, s')" and "tn_sound known s" and "known (tn_cache s) i"
  shows "tn_sound known s'"
  using assms(3,4) create_literal [OF assms(1,2)] by (auto simp: tn_sound_def)

text \<open>The laws of the two libraries, on which every transformation rests.\<close>

definition tn_laws ::
    "'tt klut \<Rightarrow> ('tt \<Rightarrow> bool list \<Rightarrow> bool) \<Rightarrow> 'tt kitty \<Rightarrow> ('tt list \<Rightarrow> u32 \<Rightarrow> bool) \<Rightarrow> bool" where
  "tn_laws B tv k known \<longleftrightarrow> klut_laws B \<and> cache_laws tv k known"

lemma create_buf_contract:
  assumes "tn_laws B tv k known" and "tn_sound known s"
  shows "tn_sound known (snd (tn_create_buf B a s))"
    "tn_models tv k (snd (tn_create_buf B a s)) v \<Longrightarrow> tn_models tv k s v"
    "tn_models tv k (snd (tn_create_buf B a s)) v \<Longrightarrow> v (fst (tn_create_buf B a s)) = v a"
proof -
  obtain n s' where c: "tn_create_node_from_literal B [a] 2 s = (n, s')" by fastforce
  have B: "klut_laws B" and b: "known (tn_cache s) 2" "tv (tt_lookup k (tn_cache s) 2) [v a] = v a"
    using assms by (auto simp: tn_laws_def tn_sound_def cache_laws_def)
  show "tn_sound known (snd (tn_create_buf B a s))"
    using sound_create [OF B c assms(2) b(1)] c by (simp add: tn_create_buf_def)
  show "tn_models tv k (snd (tn_create_buf B a s)) v \<Longrightarrow> tn_models tv k s v"
    "tn_models tv k (snd (tn_create_buf B a s)) v \<Longrightarrow> v (fst (tn_create_buf B a s)) = v a"
    using models_create [OF B c, of tv k v] c b(2) by (simp_all add: tn_create_buf_def)
qed

text \<open>A sound storage under the laws of the libraries.\<close>

definition tn_valid ::
    "'tt klut \<Rightarrow> ('tt \<Rightarrow> bool list \<Rightarrow> bool) \<Rightarrow> 'tt kitty \<Rightarrow> ('tt list \<Rightarrow> u32 \<Rightarrow> bool) \<Rightarrow> 'tt technology_network \<Rightarrow> bool" where
  "tn_valid B tv k known s \<longleftrightarrow> tn_laws B tv k known \<and> tn_sound known s"

interpretation tn: buffer_network "tn_valid B tv k known" "tn_models tv k" "tn_create_buf B" "\<lambda>b. b" for B tv k known
  using create_buf_contract unfolding tn_valid_def by unfold_locales blast+

lemma funpow_pass [simp]: "((\<lambda>b. b) ^^ n) x = x"
  by (induction n) simp_all

lemma create_node_contract:
  assumes "tn_valid B tv k known s" and "cs \<noteq> []" and "tn_create_node B k cs f s = (n, s')"
  shows "tn.explains B tv k known s s'" "tn_outputs s' = tn_outputs s" "tn_models tv k s' v \<Longrightarrow> v n = tv f (map v cs)"
proof -
  let ?s = "s\<lparr>tn_cache := tn_cache s @ [f]\<rparr>"
  have c: "tn_create_node_from_literal B cs (tt_insert k (tn_cache s) f) ?s = (n, s')"
    using assms(2,3) by (simp add: tn_create_node_def)
  have l: "tn_laws B tv k known" and so: "tn_sound known s" and B: "klut_laws B"
    using assms(1) by (simp_all add: tn_valid_def tn_laws_def)
  have k: "known (tn_cache ?s) (tt_insert k (tn_cache s) f)" "tt_lookup k (tn_cache ?s) (tt_insert k (tn_cache s) f) = f"
    and st: "known (tn_cache s) i \<Longrightarrow> known (tn_cache ?s) i"
    and lk: "known (tn_cache s) i \<Longrightarrow> tt_lookup k (tn_cache ?s) i = tt_lookup k (tn_cache s) i" for i
    using l by (simp_all add: tn_laws_def cache_laws_def)
  have sh: "tn_shape ?s = tn_shape s" by (simp add: tn_shape_def)
  have so': "tn_sound known ?s" using so st unfolding tn_sound_def sh by blast
  have "tn_models tv k s v" if "tn_models tv k ?s v" for v
    unfolding tn_models_def
  proof (intro allI impI)
    fix j
    assume j: "j < length (tn_nodes s)" "fst (tn_shape s ! j) \<noteq> []"
    then have "tn_shape s ! j \<in> set (tn_shape s)" by simp
    then have "known (tn_cache s) (snd (tn_shape s ! j))" using so j(2) unfolding tn_sound_def by blast
    from lk [OF this] show "v j = tv (tt_lookup k (tn_cache s) (snd (tn_shape s ! j))) (map v (fst (tn_shape s ! j)))"
      using that j unfolding tn_models_def sh by simp
  qed
  then show "tn.explains B tv k known s s'"
    using models_create(1) [OF B c assms(2)] sound_create [OF B c so' k(1)] l unfolding tn.explains_def tn_valid_def by blast
  show "tn_outputs s' = tn_outputs s" using create_literal(3) [OF B c] by simp
  show "tn_models tv k s' v \<Longrightarrow> v n = tv f (map v cs)"
    using models_create(2) [OF B c assms(2), of tv k v] k(2) by simp
qed

lemma create_buf_outputs: "klut_laws B \<Longrightarrow> tn_create_buf B a s = (n, s') \<Longrightarrow> tn_outputs s' = tn_outputs s"
  using create_literal(3) by (simp add: tn_create_buf_def) blast

lemma chain_outputs:
  assumes "klut_laws B"
  shows "insert_buf_chain (tn_create_buf B) num (a, s) = (b, s') \<Longrightarrow> tn_outputs s' = tn_outputs s"
proof (induction num arbitrary: b s')
  case (Suc num)
  obtain b1 s1 where p: "insert_buf_chain (tn_create_buf B) num (a, s) = (b1, s1)" by fastforce
  then have "tn_create_buf B b1 s1 = (b, s')" using Suc.prems by (simp add: insert_buf_chain_def)
  then show ?case using Suc.IH [OF p] create_buf_outputs [OF assms] by simp
qed (simp add: insert_buf_chain_def)

lemma create_po_contract:
  assumes "tn_valid B tv k known s"
  shows "tn.explains B tv k known s (kl_create_po B a s)" "tn_outputs (kl_create_po B a s) = tn_outputs s @ [a]"
proof -
  have e: "kl_create_po B a s = tn_incr_refs a (s\<lparr>tn_outputs := tn_outputs s @ [a]\<rparr>)"
    using assms by (simp add: tn_valid_def tn_laws_def klut_laws_def)
  have sh: "tn_shape (s\<lparr>tn_outputs := x\<rparr>) = tn_shape s" for x by (simp add: tn_shape_def)
  show "tn_outputs (kl_create_po B a s) = tn_outputs s @ [a]" by (simp add: e)
  show "tn.explains B tv k known s (kl_create_po B a s)"
    using assms unfolding tn.explains_def tn_valid_def tn_sound_def tn_models_def e by (simp add: sh)
qed

section \<open>The balanced network computes the same functions\<close>

text \<open>The gates come in topological order: each after its fanins, which are constants, inputs or gates.\<close>

fun ordered_gates :: "'tt network \<Rightarrow> ntk_node set \<Rightarrow> ntk_node list \<Rightarrow> bool" where
  "ordered_gates N D [] = True"
| "ordered_gates N D (g # gs) =
     (nw_fanins N g \<noteq> [] \<and> (\<forall>f\<in>set (nw_fanins N g). f \<in> D) \<and> g \<notin> D \<and> \<not> nw_is_constant N g \<and>
      ordered_gates N (insert g D) gs)"

definition source_inputs :: "'tt network \<Rightarrow> ntk_node set" where
  "source_inputs N = {n. nw_is_constant N n} \<union> set (nw_pis N)"

definition topological_network :: "'tt network \<Rightarrow> bool" where
  "topological_network N \<longleftrightarrow> ordered_gates N (source_inputs N) (nw_gates N) \<and>
     (\<forall>po\<in>set (nw_pos N). po \<in> source_inputs N \<union> set (nw_gates N))"

text \<open>The values of the nodes of the source.\<close>

definition evaluates :: "('tt \<Rightarrow> bool list \<Rightarrow> bool) \<Rightarrow> 'tt network \<Rightarrow> (ntk_node \<Rightarrow> bool) \<Rightarrow> bool" where
  "evaluates tv N val \<longleftrightarrow> (\<forall>g\<in>set (nw_gates N). val g = tv (nw_function N g) (map val (nw_fanins N g)))"

text \<open>Whatever explains the network gives the copies of the nodes in \<open>D\<close> their values.\<close>

definition copies ::
    "('tt \<Rightarrow> bool list \<Rightarrow> bool) \<Rightarrow> 'tt kitty \<Rightarrow> ((ntk_node \<Rightarrow> bool) \<Rightarrow> bool) \<Rightarrow> (ntk_node \<Rightarrow> bool) \<Rightarrow> ntk_node set \<Rightarrow>
     'tt technology_network \<Rightarrow> (ntk_node \<Rightarrow> ntk_node) \<Rightarrow> bool" where
  "copies tv k given val D s old2new \<longleftrightarrow> (\<forall>v. tn_models tv k s v \<longrightarrow> given v \<longrightarrow> (\<forall>n\<in>D. v (old2new n) = val n))"

lemma copies_explains: "copies tv k given val D s o2n \<Longrightarrow> tn.explains B tv k known s s' \<Longrightarrow> copies tv k given val D s' o2n"
  unfolding copies_def tn.explains_def by blast

lemma balanced_children_copy:
  assumes "balanced_children B N o2n n fns s = (cs, s')" and "tn_valid B tv k known s" and "copies tv k given val D s o2n"
    and "\<forall>f\<in>set fns. f \<in> D"
  shows "tn.explains B tv k known s s' \<and> tn_outputs s' = tn_outputs s \<and> length cs = length fns \<and>
    (\<forall>v. tn_models tv k s' v \<longrightarrow> given v \<longrightarrow> map v cs = map val fns)"
  using assms
proof (induction fns arbitrary: cs s s')
  case Nil
  then show ?case by (simp add: tn.explains_refl)
next
  case (Cons fn fns)
  let ?num = "unat (nw_level N n - nw_level N fn - 1)"
  obtain child s1 where c: "(if nw_is_constant N fn then (o2n fn, s)
      else insert_buf_chain (tn_create_buf B) ?num (o2n fn, s)) = (child, s1)" by fastforce
  obtain cs1 s2 where r: "balanced_children B N o2n n fns s1 = (cs1, s2)" by fastforce
  have e: "cs = child # cs1" "s' = s2"
    using Cons.prems(1) unfolding balanced_children.simps c prod.case r by simp_all
  have B: "klut_laws B" using Cons.prems(2) by (simp add: tn_valid_def tn_laws_def)
  have s1: "tn.explains B tv k known s s1 \<and> tn_outputs s1 = tn_outputs s \<and> (\<forall>v. tn_models tv k s1 v \<longrightarrow> v child = v (o2n fn))"
  proof (cases "nw_is_constant N fn")
    case True
    then show ?thesis using c Cons.prems(2) by (auto simp: tn.explains_refl)
  next
    case False
    then have p: "insert_buf_chain (tn_create_buf B) ?num (o2n fn, s) = (child, s1)" using c by simp
    show ?thesis using tn.chain [OF Cons.prems(2) p] chain_outputs [OF B p] by simp
  qed
  then have v1: "tn_valid B tv k known s1" by (simp add: tn.explains_def)
  have c1: "copies tv k given val D s1 o2n" using copies_explains [OF Cons.prems(3)] s1 by blast
  have rest: "tn.explains B tv k known s1 s2 \<and> tn_outputs s2 = tn_outputs s1 \<and> length cs1 = length fns \<and>
      (\<forall>v. tn_models tv k s2 v \<longrightarrow> given v \<longrightarrow> map v cs1 = map val fns)"
    using Cons.IH [OF r v1 c1] Cons.prems(4) by simp
  have "v child = val fn" if "tn_models tv k s2 v" "given v" for v
  proof -
    have "tn_models tv k s1 v" using rest that(1) by (simp add: tn.explains_def)
    then show ?thesis using s1 c1 that(2) Cons.prems(4) unfolding copies_def by simp
  qed
  then show ?case unfolding e using s1 rest tn.explains_trans by simp blast
qed

lemma balanced_children_outputs:
  assumes "klut_laws B"
  shows "balanced_children B N o2n n fns s = (cs, s') \<Longrightarrow> tn_outputs s' = tn_outputs s \<and> length cs = length fns"
proof (induction fns arbitrary: cs s)
  case (Cons fn fns)
  obtain child s1 where c: "(if nw_is_constant N fn then (o2n fn, s)
      else insert_buf_chain (tn_create_buf B) (unat (nw_level N n - nw_level N fn - 1)) (o2n fn, s)) = (child, s1)" by fastforce
  obtain cs1 s2 where r: "balanced_children B N o2n n fns s1 = (cs1, s2)" by fastforce
  have e: "cs = child # cs1" "s' = s2"
    using Cons.prems unfolding balanced_children.simps c prod.case r by simp_all
  have "tn_outputs s1 = tn_outputs s" using c chain_outputs [OF assms] by (auto split: if_splits)
  then show ?case using Cons.IH [of s1 cs1] r e by simp
qed simp

lemma clone_copy:
  assumes "tn_clone_node B k N n cs s = (m, s')" and "tn_valid B tv k known s" and "copies tv k given val D s o2n"
    and "cs \<noteq> []" and "n \<notin> D" and "\<forall>v. tn_models tv k s v \<longrightarrow> given v \<longrightarrow> val n = tv (nw_function N n) (map v cs)"
  shows "tn.explains B tv k known s s' \<and> tn_outputs s' = tn_outputs s \<and> copies tv k given val (insert n D) s' (o2n(n := m))"
proof -
  have c: "tn_create_node B k cs (nw_function N n) s = (m, s')" using assms(1) by (simp add: tn_clone_node_def)
  note d = create_node_contract [OF assms(2,4) c]
  have "copies tv k given val D s' o2n" using copies_explains [OF assms(3) d(1)] .
  then have "copies tv k given val (insert n D) s' (o2n(n := m))"
    using d(1,3) assms(5,6) unfolding copies_def tn.explains_def by auto
  then show ?thesis using d(1,2) by blast
qed

lemma balance_gates_copy:
  assumes "evaluates tv N val"
  shows "fold (balance_gate B k N) gs (s, o2n) = (s', o2n') \<Longrightarrow> ordered_gates N D gs \<Longrightarrow> set gs \<subseteq> set (nw_gates N) \<Longrightarrow>
    tn_valid B tv k known s \<Longrightarrow> copies tv k given val D s o2n \<Longrightarrow>
    tn_valid B tv k known s' \<and> tn_outputs s' = tn_outputs s \<and> copies tv k given val (D \<union> set gs) s' o2n'"
proof (induction gs arbitrary: D s o2n)
  case (Cons g gs)
  obtain cs s1 where c: "balanced_children B N o2n g (nw_fanins N g) s = (cs, s1)" by fastforce
  obtain m s2 where m: "tn_clone_node B k N g cs s1 = (m, s2)" by fastforce
  have "balance_gate B k N g (s, o2n) = (s2, o2n(g := m))" by (simp add: balance_gate_def c m)
  then have f: "fold (balance_gate B k N) gs (s2, o2n(g := m)) = (s', o2n')"
    using Cons.prems(1) by simp
  have o: "nw_fanins N g \<noteq> []" "\<forall>f\<in>set (nw_fanins N g). f \<in> D" "g \<notin> D" "ordered_gates N (insert g D) gs"
    using Cons.prems(2) by simp_all
  note c' = balanced_children_copy [OF c Cons.prems(4,5) o(2)]
  have s1: "tn_valid B tv k known s1" "copies tv k given val D s1 o2n" "cs \<noteq> []"
    using c' o(1) copies_explains [OF Cons.prems(5)] by (auto simp: tn.explains_def)
  have "val g = tv (nw_function N g) (map val (nw_fanins N g))"
    using assms Cons.prems(3) by (simp add: evaluates_def)
  then have "\<forall>v. tn_models tv k s1 v \<longrightarrow> given v \<longrightarrow> val g = tv (nw_function N g) (map v cs)" using c' by simp
  note m' = clone_copy [OF m s1 o(3) this]
  have v2: "tn_valid B tv k known s2" and o2: "tn_outputs s2 = tn_outputs s"
    and c2: "copies tv k given val (insert g D) s2 (o2n(g := m))" and sub: "set gs \<subseteq> set (nw_gates N)"
    using m' c' Cons.prems(3) by (simp_all add: tn.explains_def)
  have "D \<union> set (g # gs) = insert g D \<union> set gs" by simp
  then show ?case using Cons.IH [OF f o(4) sub v2 c2] o2 by (simp only:)
qed simp

lemma balance_po_copy:
  assumes "tn_valid B tv k known s" and "\<not> nw_po_complemented N i" and "copies tv k given val D s o2n" and "nw_pos N ! i \<in> D"
  shows "\<exists>po. tn.explains B tv k known s (balance_po B ps N max_level o2n i s) \<and>
    tn_outputs (balance_po B ps N max_level o2n i s) = tn_outputs s @ [po] \<and>
    (\<forall>v. tn_models tv k (balance_po B ps N max_level o2n i s) v \<longrightarrow> given v \<longrightarrow> v po = val (nw_pos N ! i))"
proof -
  let ?num = "unat (max_level - get_po_levels N ! i)"
  obtain po s2 where p: "(if unify_outputs ps then insert_buf_chain (tn_create_buf B) ?num (o2n (nw_pos N ! i), s)
      else (o2n (nw_pos N ! i), s)) = (po, s2)" by fastforce
  have B: "klut_laws B" using assms(1) by (simp add: tn_valid_def tn_laws_def)
  have s2: "tn.explains B tv k known s s2 \<and> tn_outputs s2 = tn_outputs s \<and>
      (\<forall>v. tn_models tv k s2 v \<longrightarrow> v po = v (o2n (nw_pos N ! i)))"
  proof (cases "unify_outputs ps")
    case True
    then have q: "insert_buf_chain (tn_create_buf B) ?num (o2n (nw_pos N ! i), s) = (po, s2)" using p by simp
    show ?thesis using tn.chain [OF assms(1) q] chain_outputs [OF B q] by simp
  qed (use p assms(1) in \<open>simp add: tn.explains_refl\<close>)
  have r: "balance_po B ps N max_level o2n i s = kl_create_po B po s2"
    using p assms(2) by (simp add: balance_po_def Let_def)
  have v2: "tn_valid B tv k known s2" using s2 by (simp add: tn.explains_def)
  note c = create_po_contract [OF v2, of po]
  have "v po = val (nw_pos N ! i)" if "tn_models tv k (kl_create_po B po s2) v" "given v" for v
  proof -
    have "tn_models tv k s2 v" "tn_models tv k s v" using c(1) s2 that(1) unfolding tn.explains_def by blast+
    then show ?thesis using s2 assms(3,4) that(2) unfolding copies_def by simp
  qed
  then show ?thesis unfolding r using s2 c tn.explains_trans by auto
qed

lemma balance_pos_copy:
  shows "tn_valid B tv k known s \<Longrightarrow> \<forall>i\<in>set is. \<not> nw_po_complemented N i \<Longrightarrow> copies tv k given val D s o2n \<Longrightarrow>
    \<forall>i\<in>set is. nw_pos N ! i \<in> D \<Longrightarrow>
    \<exists>os. tn_outputs (fold (balance_po B ps N max_level o2n) is s) = tn_outputs s @ os \<and>
      tn_valid B tv k known (fold (balance_po B ps N max_level o2n) is s) \<and>
      (\<forall>v. tn_models tv k (fold (balance_po B ps N max_level o2n) is s) v \<longrightarrow> tn_models tv k s v \<and>
        (given v \<longrightarrow> map v os = map (\<lambda>i. val (nw_pos N ! i)) is))"
proof (induction "is" arbitrary: s)
  case (Cons i "is")
  obtain po where po: "tn.explains B tv k known s (balance_po B ps N max_level o2n i s)"
      "tn_outputs (balance_po B ps N max_level o2n i s) = tn_outputs s @ [po]"
      "\<forall>v. tn_models tv k (balance_po B ps N max_level o2n i s) v \<longrightarrow> given v \<longrightarrow> v po = val (nw_pos N ! i)"
    using balance_po_copy [OF Cons.prems(1) _ Cons.prems(3)] Cons.prems(2,4) by (meson list.set_intros(1))
  then have "tn_valid B tv k known (balance_po B ps N max_level o2n i s)"
      "copies tv k given val D (balance_po B ps N max_level o2n i s) o2n"
    using copies_explains [OF Cons.prems(3)] by (auto simp: tn.explains_def)
  from Cons.IH [OF this(1) _ this(2)] Cons.prems(2,4) obtain os where os:
    "tn_outputs (fold (balance_po B ps N max_level o2n) is (balance_po B ps N max_level o2n i s)) =
       tn_outputs (balance_po B ps N max_level o2n i s) @ os"
    "tn_valid B tv k known (fold (balance_po B ps N max_level o2n) is (balance_po B ps N max_level o2n i s))"
    "\<forall>v. tn_models tv k (fold (balance_po B ps N max_level o2n) is (balance_po B ps N max_level o2n i s)) v \<longrightarrow>
       tn_models tv k (balance_po B ps N max_level o2n i s) v \<and> (given v \<longrightarrow> map v os = map (\<lambda>i. val (nw_pos N ! i)) is)"
    by (metis list.set_intros(2))
  show ?case
    using po os unfolding tn.explains_def by (intro exI [of _ "po # os"]) simp
qed simp

text \<open>C14. Balancing preserves the functions: in every valuation of the result that gives the copies of
  the constants and inputs their values, the outputs have the values that they have in the source.\<close>

theorem network_balancing_equivalent:
  assumes "tn_valid B tv k known s0" and "tn_outputs s0 = []" and "topological_network N"
    and "\<forall>i<length (nw_pos N). \<not> nw_po_complemented N i" and "evaluates tv N val"
    and "tn_models tv k (network_balancing B k ps N (s0, old2new)) v" and "\<forall>n\<in>source_inputs N. v (old2new n) = val n"
  shows "map v (tn_outputs (network_balancing B k ps N (s0, old2new))) = map val (nw_pos N)"
proof -
  define given where "given = (\<lambda>v. \<forall>n\<in>source_inputs N. v (old2new n) = val n)"
  have c0: "copies tv k given val (source_inputs N) s0 old2new" by (simp add: copies_def given_def)
  obtain s o2n where g: "fold (balance_gate B k N) (nw_gates N) (s0, old2new) = (s, o2n)" by fastforce
  have "ordered_gates N (source_inputs N) (nw_gates N)" using assms(3) by (simp add: topological_network_def)
  note r = balance_gates_copy [OF assms(5) g this order_refl assms(1) c0]
  have v: "tn_valid B tv k known s" and o: "tn_outputs s = []"
    and c: "copies tv k given val (source_inputs N \<union> set (nw_gates N)) s o2n"
    using r assms(2) by simp_all
  have a: "\<forall>i\<in>set [0..<length (nw_pos N)]. \<not> nw_po_complemented N i"
    "\<forall>i\<in>set [0..<length (nw_pos N)]. nw_pos N ! i \<in> source_inputs N \<union> set (nw_gates N)"
    using assms(3,4) by (simp_all add: topological_network_def)
  let ?r = "fold (balance_po B ps N (fold max (get_po_levels N) 0) o2n) [0..<length (nw_pos N)] s"
  have e: "network_balancing B k ps N (s0, old2new) = ?r"
    by (simp add: network_balancing_def g Let_def)
  obtain os where os: "tn_outputs ?r = os"
      "\<forall>v. tn_models tv k ?r v \<longrightarrow> given v \<longrightarrow> map v os = map (\<lambda>i. val (nw_pos N ! i)) [0..<length (nw_pos N)]"
    using balance_pos_copy [OF v a(1) c a(2)] o by (metis append_Nil)
  have "map (\<lambda>i. val (nw_pos N ! i)) [0..<length (nw_pos N)] = map val (nw_pos N)"
    by (rule nth_equalityI) simp_all
  then show ?thesis using os assms(6,7) unfolding e given_def by simp
qed

section \<open>The balanced network is balanced\<close>

text \<open>A labelling of the nodes by their levels.\<close>

definition tn_levels :: "'tt technology_network \<Rightarrow> (ntk_node \<Rightarrow> nat) \<Rightarrow> bool" where
  "tn_levels s lv \<longleftrightarrow>
     (\<forall>j<length (tn_nodes s). fst (tn_shape s ! j) \<noteq> [] \<longrightarrow> lv j = Suc (Max (lv ` set (fst (tn_shape s ! j)))))"

lemma levels_create:
  assumes "klut_laws B" and "tn_create_node_from_literal B cs i s = (n, s')" and "cs \<noteq> []" and "tn_levels s' lv"
  shows "tn_levels s lv" "lv n = Suc (Max (lv ` set cs))"
  using assms(3,4) create_literal [OF assms(1,2)]
  by (auto simp: tn_levels_def nth_append less_Suc_eq)

interpretation lvl: buffer_network "\<lambda>s. klut_laws B" "tn_levels" "tn_create_buf B" Suc for B
proof
  fix s :: "'a technology_network" and a lv
  obtain n s' where c: "tn_create_node_from_literal B [a] 2 s = (n, s')" by fastforce
  show "tn_levels s lv" if "klut_laws B" "tn_levels (snd (tn_create_buf B a s)) lv"
    using levels_create(1) [OF that(1) c] that(2) c by (simp add: tn_create_buf_def)
  show "lv (fst (tn_create_buf B a s)) = Suc (lv a)" if "klut_laws B" "tn_levels (snd (tn_create_buf B a s)) lv"
    using levels_create(2) [OF that(1) c] that(2) c by (simp add: tn_create_buf_def)
qed

lemma funpow_Suc [simp]: "(Suc ^^ n) x = n + x"
  by (induction n) simp_all

text \<open>Only buffers have been added.\<close>

definition adds_buffers :: "'tt technology_network \<Rightarrow> 'tt technology_network \<Rightarrow> bool" where
  "adds_buffers s s' \<longleftrightarrow> (\<exists>xs. tn_shape s' = tn_shape s @ map (\<lambda>c. ([c], 2)) xs)"

lemma adds_buffers_refl: "adds_buffers s s"
  unfolding adds_buffers_def by (rule exI [of _ "[]"]) simp

lemma adds_buffers_trans: "adds_buffers s s1 \<Longrightarrow> adds_buffers s1 s2 \<Longrightarrow> adds_buffers s s2"
  unfolding adds_buffers_def by (metis append.assoc map_append)

lemma chain_adds_buffers:
  assumes "klut_laws B"
  shows "insert_buf_chain (tn_create_buf B) num (a, s) = (b, s') \<Longrightarrow> adds_buffers s s'"
proof (induction num arbitrary: b s')
  case (Suc num)
  obtain b1 s1 where p: "insert_buf_chain (tn_create_buf B) num (a, s) = (b1, s1)" by fastforce
  then have c: "tn_create_node_from_literal B [b1] 2 s1 = (b, s')"
    using Suc.prems by (simp add: insert_buf_chain_def tn_create_buf_def)
  have "adds_buffers s1 s'" unfolding adds_buffers_def
    using create_literal(2) [OF assms c] by (intro exI [of _ "[b1]"]) simp
  then show ?case using Suc.IH [OF p] adds_buffers_trans by blast
qed (simp add: insert_buf_chain_def adds_buffers_refl)

text \<open>From node \<open>b\<close> on, a node with more than one child is one level above each of them, the constants
  in \<open>C\<close> apart.\<close>

definition ranked :: "nat \<Rightarrow> ntk_node set \<Rightarrow> (ntk_node \<Rightarrow> nat) \<Rightarrow> (ntk_node list \<times> u32) list \<Rightarrow> bool" where
  "ranked b C lv sh \<longleftrightarrow> (\<forall>j. b \<le> j \<and> j < length sh \<longrightarrow>
     (\<exists>c. fst (sh ! j) = [c]) \<or> (\<forall>c\<in>set (fst (sh ! j)). c \<in> C \<or> lv j = Suc (lv c)))"

lemma ranked_buffers: "adds_buffers s s' \<Longrightarrow> ranked b C lv (tn_shape s) \<Longrightarrow> ranked b C lv (tn_shape s')"
proof -
  have "ranked b C lv sh \<Longrightarrow> ranked b C lv (sh @ map (\<lambda>c. ([c], 2)) xs)" for sh xs
    unfolding ranked_def by (auto simp: nth_append)
  then show "adds_buffers s s' \<Longrightarrow> ranked b C lv (tn_shape s) \<Longrightarrow> ranked b C lv (tn_shape s')"
    by (auto simp: adds_buffers_def)
qed

lemma ranked_append:
  "ranked b C lv sh \<Longrightarrow> (\<forall>c\<in>set cs. c \<in> C \<or> lv (length sh) = Suc (lv c)) \<Longrightarrow> ranked b C lv (sh @ [(cs, i)])"
  by (auto simp: ranked_def nth_append less_Suc_eq)

text \<open>The levels of the source.\<close>

definition leveled_source :: "'tt network \<Rightarrow> bool" where
  "leveled_source N \<longleftrightarrow> (\<forall>n\<in>source_inputs N. nw_level N n = 0) \<and>
     (\<forall>g\<in>set (nw_gates N). unat (nw_level N g) = Suc (Max ((\<lambda>f. unat (nw_level N f)) ` set (nw_fanins N g))))"

definition level_copies ::
    "'tt network \<Rightarrow> nat \<Rightarrow> ntk_node set \<Rightarrow> ((ntk_node \<Rightarrow> nat) \<Rightarrow> bool) \<Rightarrow> ntk_node set \<Rightarrow> 'tt technology_network \<Rightarrow>
     (ntk_node \<Rightarrow> ntk_node) \<Rightarrow> bool" where
  "level_copies N b C given D s o2n \<longleftrightarrow> (\<forall>n. nw_is_constant N n \<longrightarrow> o2n n \<in> C) \<and>
     (\<forall>lv. tn_levels s lv \<longrightarrow> given lv \<longrightarrow> ranked b C lv (tn_shape s) \<and> (\<forall>n\<in>D. lv (o2n n) = unat (nw_level N n)))"

lemma level_copies_buffers:
  assumes "level_copies N b C given D s o2n" and "adds_buffers s s'" and "\<And>lv. tn_levels s' lv \<Longrightarrow> tn_levels s lv"
  shows "level_copies N b C given D s' o2n"
  using assms(1,3) ranked_buffers [OF assms(2)] unfolding level_copies_def by blast

lemma balanced_children_levels:
  assumes "balanced_children B N o2n n fns s = (cs, s')" and "klut_laws B" and "level_copies N b C given D s o2n"
    and "\<forall>f\<in>set fns. f \<in> D \<and> (nw_is_constant N f \<or> nw_level N f < nw_level N n)"
  shows "adds_buffers s s' \<and> (\<forall>lv. tn_levels s' lv \<longrightarrow> tn_levels s lv \<and> (given lv \<longrightarrow>
     list_all2 (\<lambda>c f. if nw_is_constant N f then c \<in> C \<and> lv c = unat (nw_level N f)
                      else Suc (lv c) = unat (nw_level N n)) cs fns))"
  using assms
proof (induction fns arbitrary: cs s s')
  case Nil
  then show ?case by (simp add: adds_buffers_refl)
next
  case (Cons fn fns)
  let ?num = "unat (nw_level N n - nw_level N fn - 1)"
  obtain child s1 where c: "(if nw_is_constant N fn then (o2n fn, s)
      else insert_buf_chain (tn_create_buf B) ?num (o2n fn, s)) = (child, s1)" by fastforce
  obtain cs1 s2 where r: "balanced_children B N o2n n fns s1 = (cs1, s2)" by fastforce
  have e: "cs = child # cs1" "s' = s2"
    using Cons.prems(1) unfolding balanced_children.simps c prod.case r by simp_all
  have s1: "adds_buffers s s1 \<and> (\<forall>lv. tn_levels s1 lv \<longrightarrow> tn_levels s lv \<and>
      lv child = (if nw_is_constant N fn then 0 else ?num) + lv (o2n fn))"
  proof (cases "nw_is_constant N fn")
    case True
    then show ?thesis using c by (auto simp: adds_buffers_refl)
  next
    case False
    then have p: "insert_buf_chain (tn_create_buf B) ?num (o2n fn, s) = (child, s1)" using c by simp
    show ?thesis
      using lvl.chain [OF Cons.prems(2) p] chain_adds_buffers [OF Cons.prems(2) p] False by (simp add: lvl.explains_def)
  qed
  then have c1: "level_copies N b C given D s1 o2n" using level_copies_buffers [OF Cons.prems(3)] by blast
  note rest = Cons.IH [OF r Cons.prems(2) c1]
  have fn: "fn \<in> D" "nw_is_constant N fn \<or> nw_level N fn < nw_level N n" using Cons.prems(4) by simp_all
  have num: "Suc (?num + unat (nw_level N fn)) = unat (nw_level N n)" if lt: "\<not> nw_is_constant N fn"
  proof -
    have "nw_level N fn < nw_level N n" using fn(2) lt by blast
    then have "unat (nw_level N fn) < unat (nw_level N n)" by (simp add: word_less_nat_alt)
    moreover from this have d: "unat (nw_level N n - nw_level N fn) = unat (nw_level N n) - unat (nw_level N fn)"
      by (simp add: unat_sub word_le_nat_alt)
    moreover have "1 \<le> nw_level N n - nw_level N fn" unfolding word_le_nat_alt d using calculation(1) by simp
    then have "?num = unat (nw_level N n - nw_level N fn) - unat (1 :: u32)" by (rule unat_sub)
    ultimately show ?thesis by simp
  qed
  have "if nw_is_constant N fn then child \<in> C \<and> lv child = unat (nw_level N fn) else Suc (lv child) = unat (nw_level N n)"
    if lv: "tn_levels s2 lv" "given lv" for lv
  proof -
    have l1: "tn_levels s1 lv" using rest Cons.prems(4) lv(1) by simp
    have o: "lv (o2n fn) = unat (nw_level N fn)" using c1 l1 lv(2) fn(1) unfolding level_copies_def by blast
    have "lv child = (if nw_is_constant N fn then 0 else ?num) + lv (o2n fn)" using s1 l1 by blast
    then show ?thesis using num o c Cons.prems(3) by (auto simp: level_copies_def)
  qed
  then show ?case unfolding e using s1 rest Cons.prems(4) adds_buffers_trans by auto
qed

lemma gate_level:
  assumes l: "unat (nw_level N n) = Suc (Max ((\<lambda>f. unat (nw_level N f)) ` set fs))" and "fs \<noteq> []"
    and cs: "list_all2 (\<lambda>c f. if nw_is_constant N f then c \<in> C \<and> lv c = unat (nw_level N f)
                      else Suc (lv c) = unat (nw_level N n)) cs fs"
  shows "Suc (Max (lv ` set cs)) = unat (nw_level N n)" and "\<forall>c\<in>set cs. c \<in> C \<or> unat (nw_level N n) = Suc (lv c)"
proof -
  let ?M = "Max ((\<lambda>f. unat (nw_level N f)) ` set fs)"
  have "?M \<in> (\<lambda>f. unat (nw_level N f)) ` set fs" using assms(2) by (intro Max_in) simp_all
  then obtain i where i: "i < length fs" "unat (nw_level N (fs ! i)) = ?M" by (auto simp: in_set_conv_nth)
  have len: "length cs = length fs" using cs by (rule list_all2_lengthD)
  have each: "if nw_is_constant N (fs ! j) then cs ! j \<in> C \<and> lv (cs ! j) = unat (nw_level N (fs ! j))
      else Suc (lv (cs ! j)) = unat (nw_level N n)" if "j < length fs" for j
    using cs that len by (simp add: list_all2_conv_all_nth)
  have "Max (lv ` set cs) = ?M"
  proof (rule Max_eqI)
    show "y \<le> ?M" if y: "y \<in> lv ` set cs" for y
    proof -
      obtain j where j: "j < length fs" "y = lv (cs ! j)" using y len by (auto simp: in_set_conv_nth)
      have "unat (nw_level N (fs ! j)) \<le> ?M" using j(1) by (intro Max_ge) simp_all
      then show ?thesis using each [OF j(1)] j(2) l by (simp split: if_splits)
    qed
    have "lv (cs ! i) = ?M" using each [OF i(1)] i(2) l by (simp split: if_splits)
    then show "?M \<in> lv ` set cs" using i(1) len by (metis imageI nth_mem)
  qed simp
  then show "Suc (Max (lv ` set cs)) = unat (nw_level N n)" using l by simp
  show "\<forall>c\<in>set cs. c \<in> C \<or> unat (nw_level N n) = Suc (lv c)"
  proof
    fix c
    assume "c \<in> set cs"
    then obtain j where "j < length fs" "c = cs ! j" using len by (auto simp: in_set_conv_nth)
    then show "c \<in> C \<or> unat (nw_level N n) = Suc (lv c)" using each [of j] by (auto split: if_splits)
  qed
qed

lemma balance_gates_levels:
  assumes B: "klut_laws B" and lv: "leveled_source N"
  shows "fold (balance_gate B k N) gs (s, o2n) = (s', o2n') \<Longrightarrow> ordered_gates N D gs \<Longrightarrow> set gs \<subseteq> set (nw_gates N) \<Longrightarrow>
    level_copies N b C given D s o2n \<Longrightarrow>
    (\<forall>lv. tn_levels s' lv \<longrightarrow> tn_levels s lv) \<and> tn_outputs s' = tn_outputs s \<and>
    level_copies N b C given (D \<union> set gs) s' o2n'"
proof (induction gs arbitrary: D s o2n)
  case (Cons g gs)
  obtain cs s1 where c: "balanced_children B N o2n g (nw_fanins N g) s = (cs, s1)" by fastforce
  obtain m s2 where m: "tn_clone_node B k N g cs s1 = (m, s2)" by fastforce
  have "balance_gate B k N g (s, o2n) = (s2, o2n(g := m))" by (simp add: balance_gate_def c m)
  then have f: "fold (balance_gate B k N) gs (s2, o2n(g := m)) = (s', o2n')"
    using Cons.prems(1) by simp
  have o: "nw_fanins N g \<noteq> []" "\<forall>f\<in>set (nw_fanins N g). f \<in> D" "g \<notin> D" "\<not> nw_is_constant N g" "ordered_gates N (insert g D) gs"
    using Cons.prems(2) by simp_all
  have l: "unat (nw_level N g) = Suc (Max ((\<lambda>f. unat (nw_level N f)) ` set (nw_fanins N g)))"
    using lv Cons.prems(3) by (simp add: leveled_source_def)
  have "\<forall>f\<in>set (nw_fanins N g). f \<in> D \<and> (nw_is_constant N f \<or> nw_level N f < nw_level N g)"
    using o(2) l by (auto simp: word_less_nat_alt less_Suc_eq_le)
  note ch = balanced_children_levels [OF c B Cons.prems(4) this]
  have out1: "tn_outputs s1 = tn_outputs s" and cs: "cs \<noteq> []"
    using balanced_children_outputs [OF B c] o(1) by auto
  let ?t = "s1\<lparr>tn_cache := tn_cache s1 @ [nw_function N g]\<rparr>"
  have lit: "tn_create_node_from_literal B cs (tt_insert k (tn_cache s1) (nw_function N g)) ?t = (m, s2)"
    using m cs by (simp add: tn_clone_node_def tn_create_node_def)
  have sh: "tn_shape ?t = tn_shape s1" "tn_levels ?t lv = tn_levels s1 lv" for lv
    by (simp_all add: tn_shape_def tn_levels_def)
  have m2: "tn_shape s2 = tn_shape s1 @ [(cs, tt_insert k (tn_cache s1) (nw_function N g))]" "m = length (tn_shape s1)"
      "tn_outputs s2 = tn_outputs s"
    using create_literal [OF B lit] out1 sh by simp_all
  have bk: "tn_levels s1 lv" "tn_levels s lv" "lv m = Suc (Max (lv ` set cs))" if "tn_levels s2 lv" for lv
    using levels_create [OF B lit cs that] sh ch by simp_all
  have "level_copies N b C given (insert g D) s2 (o2n(g := m))"
    unfolding level_copies_def
  proof (intro conjI allI impI ballI)
    show "(o2n(g := m)) n \<in> C" if "nw_is_constant N n" for n
      using Cons.prems(4) o(4) that by (auto simp: level_copies_def)
    fix lv
    assume a: "tn_levels s2 lv" "given lv"
    have "list_all2 (\<lambda>c f. if nw_is_constant N f then c \<in> C \<and> lv c = unat (nw_level N f)
        else Suc (lv c) = unat (nw_level N g)) cs (nw_fanins N g)"
      using ch bk(1) [OF a(1)] a(2) by blast
    note gl = gate_level [OF l o(1) this]
    have lvm: "lv m = unat (nw_level N g)" using bk(3) [OF a(1)] gl(1) by simp
    have "ranked b C lv (tn_shape s)" using Cons.prems(4) bk(2) [OF a(1)] a(2) by (simp add: level_copies_def)
    then have "ranked b C lv (tn_shape s1)" using ranked_buffers ch by blast
    then show "ranked b C lv (tn_shape s2)" unfolding m2(1)
      by (rule ranked_append) (use gl(2) lvm m2(2) in simp)
    show "lv ((o2n(g := m)) n) = unat (nw_level N n)" if "n \<in> insert g D" for n
      using that lvm Cons.prems(4) bk(2) [OF a(1)] a(2) by (auto simp: level_copies_def)
  qed
  note ih = Cons.IH [OF f o(5) _ this]
  have "D \<union> set (g # gs) = insert g D \<union> set gs" by simp
  then show ?case using ih Cons.prems(3) bk(2) m2(3) by (simp only: list.set insert_subset) blast
qed simp

lemma fold_max_ge: "(x :: u32) \<in> set xs \<union> {y} \<Longrightarrow> x \<le> fold max xs y"
proof (induction xs arbitrary: x y)
  case (Cons z zs)
  have m: "max z y \<le> fold max zs (max z y)" by (rule Cons.IH) simp
  show ?case
  proof (cases "x \<in> set zs")
    case True
    then show ?thesis using Cons.IH [of x "max z y"] by simp
  next
    case False
    then have "x \<le> max z y" using Cons.prems by auto
    then have "x \<le> fold max zs (max z y)" using m by (rule order_trans)
    then show ?thesis by simp
  qed
qed simp

lemma balance_po_levels:
  assumes B: "klut_laws B" and "\<not> nw_po_complemented N i" and "level_copies N b C given D s o2n" and "nw_pos N ! i \<in> D"
    and "i < length (nw_pos N)" and mx: "nw_level N (nw_pos N ! i) \<le> mx"
  shows "\<exists>po. tn_outputs (balance_po B ps N mx o2n i s) = tn_outputs s @ [po] \<and>
    level_copies N b C given D (balance_po B ps N mx o2n i s) o2n \<and>
    (\<forall>lv. tn_levels (balance_po B ps N mx o2n i s) lv \<longrightarrow> tn_levels s lv \<and>
      (given lv \<and> unify_outputs ps \<longrightarrow> lv po = unat mx))"
proof -
  let ?num = "unat (mx - nw_level N (nw_pos N ! i))"
  obtain po s2 where p: "(if unify_outputs ps then insert_buf_chain (tn_create_buf B) ?num (o2n (nw_pos N ! i), s)
      else (o2n (nw_pos N ! i), s)) = (po, s2)" by fastforce
  have s2: "adds_buffers s s2 \<and> tn_outputs s2 = tn_outputs s \<and>
      (\<forall>lv. tn_levels s2 lv \<longrightarrow> tn_levels s lv \<and> (unify_outputs ps \<longrightarrow> lv po = ?num + lv (o2n (nw_pos N ! i))))"
  proof (cases "unify_outputs ps")
    case True
    then have q: "insert_buf_chain (tn_create_buf B) ?num (o2n (nw_pos N ! i), s) = (po, s2)" using p by simp
    show ?thesis
      using lvl.chain [OF B q] chain_outputs [OF B q] chain_adds_buffers [OF B q] by (simp add: lvl.explains_def)
  qed (use p in \<open>simp add: adds_buffers_refl\<close>)
  have r: "balance_po B ps N mx o2n i s = kl_create_po B po s2"
    using p assms(2,5) by (cases "unify_outputs ps") (simp_all add: balance_po_def get_po_levels_def Let_def)
  have e: "kl_create_po B po s2 = tn_incr_refs po (s2\<lparr>tn_outputs := tn_outputs s2 @ [po]\<rparr>)"
    using B by (simp add: klut_laws_def)
  have sh: "tn_shape (s\<lparr>tn_outputs := x\<rparr>) = tn_shape s" for s :: "'a technology_network" and x by (simp add: tn_shape_def)
  have "tn_shape (kl_create_po B po s2) = tn_shape s2" unfolding e by (simp add: sh)
  moreover from this have "tn_levels (kl_create_po B po s2) lv = tn_levels s2 lv" for lv
    unfolding tn_levels_def by (metis length_shape(1))
  moreover have "level_copies N b C given D s2 o2n" using level_copies_buffers [OF assms(3)] s2 by blast
  moreover have "lv po = unat mx" if "tn_levels s2 lv" "given lv" "unify_outputs ps" for lv
  proof -
    have "lv (o2n (nw_pos N ! i)) = unat (nw_level N (nw_pos N ! i))"
      using assms(3,4) s2 that unfolding level_copies_def by blast
    moreover have "?num = unat mx - unat (nw_level N (nw_pos N ! i))" by (rule unat_sub [OF mx])
    moreover have "unat (nw_level N (nw_pos N ! i)) \<le> unat mx" using mx by (simp add: word_le_nat_alt)
    moreover have "lv po = ?num + lv (o2n (nw_pos N ! i))" using s2 that by blast
    ultimately show ?thesis by linarith
  qed
  ultimately show ?thesis
    unfolding r using s2 by (intro exI [of _ po]) (auto simp: level_copies_def e)
qed

lemma balance_pos_levels:
  assumes B: "klut_laws B"
  shows "\<forall>i\<in>set is. \<not> nw_po_complemented N i \<and> nw_pos N ! i \<in> D \<and> i < length (nw_pos N) \<and> nw_level N (nw_pos N ! i) \<le> mx \<Longrightarrow>
    level_copies N b C given D s o2n \<Longrightarrow>
    level_copies N b C given D (fold (balance_po B ps N mx o2n) is s) o2n \<and>
    (\<exists>os. tn_outputs (fold (balance_po B ps N mx o2n) is s) = tn_outputs s @ os \<and>
      (\<forall>lv. tn_levels (fold (balance_po B ps N mx o2n) is s) lv \<longrightarrow> tn_levels s lv \<and>
        (given lv \<and> unify_outputs ps \<longrightarrow> (\<forall>po\<in>set os. lv po = unat mx))))"
proof (induction "is" arbitrary: s)
  case (Cons i "is")
  have i: "\<not> nw_po_complemented N i" "nw_pos N ! i \<in> D" "i < length (nw_pos N)" "nw_level N (nw_pos N ! i) \<le> mx"
    using Cons.prems(1) by simp_all
  obtain po where po: "tn_outputs (balance_po B ps N mx o2n i s) = tn_outputs s @ [po]"
      "level_copies N b C given D (balance_po B ps N mx o2n i s) o2n"
      "\<forall>lv. tn_levels (balance_po B ps N mx o2n i s) lv \<longrightarrow> tn_levels s lv \<and> (given lv \<and> unify_outputs ps \<longrightarrow> lv po = unat mx)"
    using balance_po_levels [OF B i(1) Cons.prems(2) i(2-4)] by blast
  have rest: "\<forall>i\<in>set is. \<not> nw_po_complemented N i \<and> nw_pos N ! i \<in> D \<and> i < length (nw_pos N) \<and> nw_level N (nw_pos N ! i) \<le> mx"
    using Cons.prems(1) by simp
  obtain os where os: "tn_outputs (fold (balance_po B ps N mx o2n) is (balance_po B ps N mx o2n i s)) =
        tn_outputs (balance_po B ps N mx o2n i s) @ os"
      "\<forall>lv. tn_levels (fold (balance_po B ps N mx o2n) is (balance_po B ps N mx o2n i s)) lv \<longrightarrow>
        tn_levels (balance_po B ps N mx o2n i s) lv \<and> (given lv \<and> unify_outputs ps \<longrightarrow> (\<forall>po\<in>set os. lv po = unat mx))"
    using Cons.IH [OF rest po(2)] by blast
  show ?case using Cons.IH [OF rest po(2)] po os by (intro conjI exI [of _ "po # os"]) auto
qed simp

text \<open>C15. The balanced network is balanced: under its levels, every child of a node that was created is one
  level below it, unless it is the copy of a constant, and with unified outputs all outputs have the
  same level.\<close>

theorem network_balancing_balances:
  assumes "klut_laws B" and "tn_outputs s0 = []" and "topological_network N" and "leveled_source N"
    and "\<forall>i<length (nw_pos N). \<not> nw_po_complemented N i"
    and "tn_levels (network_balancing B k ps N (s0, old2new)) lv" and "\<forall>n\<in>source_inputs N. lv (old2new n) = 0"
  shows "(\<forall>j. length (tn_nodes s0) \<le> j \<and> j < length (tn_nodes (network_balancing B k ps N (s0, old2new))) \<longrightarrow>
      (\<forall>c\<in>set (tn_children (tn_nodes (network_balancing B k ps N (s0, old2new)) ! j)).
         c \<in> old2new ` {n. nw_is_constant N n} \<or> lv j = Suc (lv c))) \<and>
    (unify_outputs ps \<longrightarrow> (\<exists>r. \<forall>po\<in>set (tn_outputs (network_balancing B k ps N (s0, old2new))). lv po = r))"
proof -
  let ?C = "old2new ` {n. nw_is_constant N n}" and ?b = "length (tn_nodes s0)"
  let ?r = "network_balancing B k ps N (s0, old2new)"
  define mx where "mx = fold max (get_po_levels N) 0"
  define given where "given = (\<lambda>lv :: ntk_node \<Rightarrow> nat. \<forall>n\<in>source_inputs N. lv (old2new n) = 0)"
  have c0: "level_copies N ?b ?C given (source_inputs N) s0 old2new"
    using assms(4) by (auto simp: level_copies_def given_def ranked_def leveled_source_def)
  obtain s o2n where g: "fold (balance_gate B k N) (nw_gates N) (s0, old2new) = (s, o2n)" by fastforce
  have "ordered_gates N (source_inputs N) (nw_gates N)" using assms(3) by (simp add: topological_network_def)
  note gs = balance_gates_levels [OF assms(1,4) g this order_refl c0]
  have pos: "\<forall>i\<in>set [0..<length (nw_pos N)]. \<not> nw_po_complemented N i \<and>
      nw_pos N ! i \<in> source_inputs N \<union> set (nw_gates N) \<and> i < length (nw_pos N) \<and> nw_level N (nw_pos N ! i) \<le> mx"
    using assms(3,5) unfolding mx_def
    by (auto simp: topological_network_def get_po_levels_def intro!: fold_max_ge)
  have e: "?r = fold (balance_po B ps N mx o2n) [0..<length (nw_pos N)] s"
    by (simp add: network_balancing_def g Let_def mx_def)
  note r = balance_pos_levels [OF assms(1) pos conjunct2 [OF conjunct2 [OF gs]], of ps, folded e]
  have gv: "given lv" using assms(7) by (simp add: given_def)
  have rk: "ranked ?b ?C lv (tn_shape ?r)" using r assms(6) gv by (simp add: level_copies_def)
  have "c \<in> ?C \<or> lv j = Suc (lv c)"
    if j: "?b \<le> j" "j < length (tn_nodes ?r)" and c: "c \<in> set (tn_children (tn_nodes ?r ! j))" for j c
  proof -
    have sj: "fst (tn_shape ?r ! j) = tn_children (tn_nodes ?r ! j)" using j by (simp add: tn_shape_def)
    have "lv j = Suc (Max (lv ` set (fst (tn_shape ?r ! j))))"
      using assms(6) j(2) c sj unfolding tn_levels_def by force
    then show ?thesis using rk j c unfolding ranked_def sj [symmetric] by force
  qed
  moreover have "\<exists>r. \<forall>po\<in>set (tn_outputs ?r). lv po = r" if "unify_outputs ps"
    using r gs assms(2,6) gv that by auto
  ultimately show ?thesis by blast
qed

section \<open>Examples\<close>

lemma sample_topological: "topological_network sample_network"
  unfolding topological_network_def source_inputs_def sample_network_def sample_fanins_def by simp

lemma sample_copy_valid: "tn_valid sample_klut sample_value sample_tables (\<lambda>c i. True) (fst sample_copy)"
  by (simp add: tn_valid_def tn_laws_def sample_laws tn_sound_def)

definition sample_values :: "ntk_node \<Rightarrow> bool" where
  "sample_values n = (n \<in> {1, 2, 6, 7})"

lemma sample_evaluates: "evaluates sample_value sample_network sample_values"
  by (simp add: evaluates_def sample_network_def sample_fanins_def sample_values_def)

text \<open>The balanced example network: node 5 is the buffer that makes up for the fanout node.\<close>

definition sample_balanced :: "u32 technology_network" where
  "sample_balanced = network_balancing sample_klut sample_tables \<lparr>unify_outputs = True\<rparr> sample_network sample_copy"

lemma sample_balanced_eq:
  "sample_balanced = network_balancing sample_klut sample_tables \<lparr>unify_outputs = True\<rparr> sample_network (fst sample_copy, snd sample_copy)"
  by (simp add: sample_balanced_def)

lemma sample_balanced_shape:
  "tn_shape sample_balanced = replicate 4 ([], 0) @ [([3], 2), ([2], 2), ([5, 4], 4), ([4], 3), ([6, 7], 6)] \<and>
   tn_outputs sample_balanced = [8] \<and> length (tn_nodes sample_balanced) = 9"
  by code_simp

lemma tn_models_code: "tn_models tv k s v \<longleftrightarrow> list_all (\<lambda>j. fst (tn_shape s ! j) \<noteq> [] \<longrightarrow>
    v j = tv (tt_lookup k (tn_cache s) (snd (tn_shape s ! j))) (map v (fst (tn_shape s ! j)))) [0..<length (tn_nodes s)]"
  by (auto simp: tn_models_def list_all_iff)

lemma tn_levels_code: "tn_levels s lv \<longleftrightarrow> list_all (\<lambda>j. fst (tn_shape s ! j) \<noteq> [] \<longrightarrow>
    lv j = Suc (Max (set (map lv (fst (tn_shape s ! j)))))) [0..<length (tn_nodes s)]"
  by (auto simp: tn_levels_def list_all_iff)

lemma sample_inputs: "source_inputs sample_network = {0, 1, 2, 3}"
  by (auto simp: source_inputs_def sample_network_def)

lemma network_balancing_equivalent_witness:
  "map (\<lambda>n. n \<in> {1, 2, 5, 7, 8}) (tn_outputs sample_balanced) = map sample_values (nw_pos sample_network) \<and>
   tn_outputs sample_balanced = [8]"
proof -
  have m: "tn_models sample_value sample_tables sample_balanced (\<lambda>n. n \<in> {1, 2, 5, 7, 8})"
    unfolding tn_models_code by code_simp
  have o: "tn_outputs (fst sample_copy) = []" "\<forall>i<length (nw_pos sample_network). \<not> nw_po_complemented sample_network i"
    by (simp_all add: sample_copy_def sample_network_def)
  have i: "\<forall>n\<in>source_inputs sample_network. (snd sample_copy n \<in> {1, 2, 5, 7, 8}) = sample_values n"
    by (simp add: sample_inputs sample_copy_def sample_values_def)
  show ?thesis
    using network_balancing_equivalent [OF sample_copy_valid o(1) sample_topological o(2) sample_evaluates
        m [unfolded sample_balanced_eq] i, folded sample_balanced_eq] sample_balanced_shape by blast
qed

lemma network_balancing_balances_witness:
  "list_all (\<lambda>j. list_all (\<lambda>c. c \<in> {0, 1} \<or> [0, 0, 0, 0, 1, 1, 2, 2, 3] ! j = Suc ([0, 0, 0, 0, 1, 1, 2, 2, 3] ! c))
     (tn_children (tn_nodes sample_balanced ! j))) [4..<9]"
proof -
  let ?lv = "\<lambda>n. [0, 0, 0, 0, 1, 1, 2, 2, 3 :: nat] ! n"
  have m: "tn_levels sample_balanced ?lv"
    unfolding tn_levels_code by code_simp
  have o: "tn_outputs (fst sample_copy) = []" "\<forall>i<length (nw_pos sample_network). \<not> nw_po_complemented sample_network i"
    by (simp_all add: sample_copy_def sample_network_def)
  have i: "\<forall>n\<in>source_inputs sample_network. ?lv (snd sample_copy n) = 0"
    by (simp add: sample_inputs sample_copy_def)
  have l: "leveled_source sample_network"
    by (simp add: leveled_source_def sample_inputs) (simp add: sample_network_def sample_fanins_def)
  have n: "length (tn_nodes (fst sample_copy)) = 4" "snd sample_copy ` {n. nw_is_constant sample_network n} = {0, 1}"
    by (auto simp: sample_copy_def sample_network_def)
  have "length (tn_nodes sample_balanced) = 9" using sample_balanced_shape by blast
  then show ?thesis
    using network_balancing_balances [OF sample_laws(1) o(1) sample_topological l o(2) m [unfolded sample_balanced_eq] i,
        folded sample_balanced_eq, unfolded n]
    unfolding list_all_iff set_upt by (simp only: Ball_def atLeastLessThan_iff) blast
qed

end
