(* ===== verification/Fanout_Substitution.thy ===== *)
theory Fanout_Substitution
  imports Network_Balancing
begin

text \<open>
  Model of \<open>algorithms/network_transformation/fanout_substitution.hpp\<close>, which replaces high output degrees by
  trees of buffers, for combinational networks.

  As for the balancing, the source is the topological view of the converted network and \<open>init\<close> the copy of
  its constants and inputs with the map of them. The queue of the available fanouts of a node is a
  list. It is copied wherever it is read, so that what \<open>get_fanout\<close> takes from its copy stays in the map.
  Reading the front of an empty queue is undefined and makes the result \<open>None\<close>. The restoration of the
  names is left out.
\<close>

section \<open>The transformation\<close>

record 'tt fanout_state =
  fo_net :: "'tt technology_network"
  fo_map :: "ntk_node \<Rightarrow> ntk_node"
  fo_available :: "ntk_node \<Rightarrow> ntk_node list"

text \<open>The quotient of two 32-bit numbers in double precision, rounded up, is exact.\<close>

definition num_fanouts :: "fanout_substitution_params \<Rightarrow> u32 \<Rightarrow> nat" where
  "num_fanouts ps sz =
     (let a = max (sint sz - sint (fs_threshold ps)) 0;
          b = max (sint (fs_degree ps) - 1) 1
      in nat ((a + b - 1) div b))"

fun depth_tree :: "'tt klut \<Rightarrow> nat \<Rightarrow> ntk_node \<Rightarrow> 'tt technology_network \<Rightarrow> ntk_node list \<times> 'tt technology_network" where
  "depth_tree B 0 child s = ([], s)"
| "depth_tree B (Suc i) child s =
     (case tn_create_buf B child s of (b, s1) \<Rightarrow> (case depth_tree B i b s1 of (q, s2) \<Rightarrow> (b # q, s2)))"

fun breadth_tree ::
    "'tt klut \<Rightarrow> nat \<Rightarrow> nat \<Rightarrow> ntk_node list \<Rightarrow> 'tt technology_network \<Rightarrow> ntk_node list \<times> 'tt technology_network" where
  "breadth_tree B dg 0 q s = (q, s)"
| "breadth_tree B dg (Suc f) q s =
     (case tn_create_buf B (hd q) s of (b, s1) \<Rightarrow> breadth_tree B dg f (tl q @ replicate dg b) s1)"

definition generate_fanout_tree ::
    "'tt klut \<Rightarrow> fanout_substitution_params \<Rightarrow> 'tt network \<Rightarrow> ntk_node \<Rightarrow> 'tt fanout_state \<Rightarrow> 'tt fanout_state" where
  "generate_fanout_tree B ps N n st =
     (if nw_is_fanout N n \<and> nw_fanout_size N n \<le> fs_degree ps then st
      else
        (let num = num_fanouts ps (nw_fanout_size N n); child = fo_map st n
         in if num = 0 then st
            else (case (case fs_strategy ps of
                          DEPTH \<Rightarrow> depth_tree B num child (fo_net st)
                        | BREADTH \<Rightarrow> breadth_tree B (unat (fs_degree ps)) num [child] (fo_net st)) of
                    (q, s) \<Rightarrow> st\<lparr>fo_net := s, fo_available := (fo_available st)(n := q)\<rparr>)))"

text \<open>The first fanout that has a place left.\<close>

fun free_fanout :: "'tt klut \<Rightarrow> nat \<Rightarrow> 'tt technology_network \<Rightarrow> ntk_node list \<Rightarrow> ntk_node option" where
  "free_fanout B dg s [] = None"
| "free_fanout B dg s (c # cs) = (if kl_fanout_size B s c \<ge> dg then free_fanout B dg s cs else Some c)"

definition get_fanout ::
    "'tt klut \<Rightarrow> fanout_substitution_params \<Rightarrow> 'tt fanout_state \<Rightarrow> ntk_node \<Rightarrow> ntk_node \<Rightarrow> ntk_node option" where
  "get_fanout B ps st n child =
     (if kl_fanout_size B (fo_net st) child \<ge> unat (fs_threshold ps) \<and> fo_available st n \<noteq> []
      then free_fanout B (unat (fs_degree ps)) (fo_net st) (fo_available st n) else Some child)"

fun gather_children ::
    "'tt klut \<Rightarrow> fanout_substitution_params \<Rightarrow> 'tt network \<Rightarrow> 'tt fanout_state \<Rightarrow> ntk_node list \<Rightarrow> ntk_node list option" where
  "gather_children B ps N st [] = Some []"
| "gather_children B ps N st (fn # fns) =
     (case (if nw_is_constant N fn then Some (fo_map st fn) else get_fanout B ps st fn (fo_map st fn)) of
        None \<Rightarrow> None
      | Some c \<Rightarrow> (case gather_children B ps N st fns of None \<Rightarrow> None | Some cs \<Rightarrow> Some (c # cs)))"

definition substitute_gate ::
    "'tt klut \<Rightarrow> 'tt kitty \<Rightarrow> fanout_substitution_params \<Rightarrow> 'tt network \<Rightarrow> ntk_node \<Rightarrow> 'tt fanout_state \<Rightarrow> 'tt fanout_state option" where
  "substitute_gate B k ps N n st =
     (case gather_children B ps N st (nw_fanins N n) of
        None \<Rightarrow> None
      | Some children \<Rightarrow>
          (case tn_clone_node B k N n children (fo_net st) of
             (m, s) \<Rightarrow> Some (generate_fanout_tree B ps N n (st\<lparr>fo_net := s, fo_map := (fo_map st)(n := m)\<rparr>))))"

text \<open>The reference argument of \<open>get_fanout\<close> is the target signal, so the complement is taken of the fanout.\<close>

definition substitute_po ::
    "'tt klut \<Rightarrow> fanout_substitution_params \<Rightarrow> 'tt network \<Rightarrow> nat \<Rightarrow> 'tt fanout_state \<Rightarrow> 'tt fanout_state option" where
  "substitute_po B ps N i st =
     (case get_fanout B ps st (nw_pos N ! i) (fo_map st (nw_pos N ! i)) of
        None \<Rightarrow> None
      | Some tgt \<Rightarrow>
          (case (if nw_po_complemented N i then tn_create_not B tgt (fo_net st) else (tgt, fo_net st)) of
             (po, s) \<Rightarrow> Some (st\<lparr>fo_net := kl_create_po B po s\<rparr>)))"

definition fanout_substitution ::
    "'tt klut \<Rightarrow> 'tt kitty \<Rightarrow> fanout_substitution_params \<Rightarrow> 'tt network \<Rightarrow> 'tt technology_network \<times> (ntk_node \<Rightarrow> ntk_node) \<Rightarrow>
     'tt technology_network option" where
  "fanout_substitution B k ps N init =
     (let st0 = \<lparr>fo_net = fst init, fo_map = snd init, fo_available = (\<lambda>n. [])\<rparr>;
          st1 = fold (generate_fanout_tree B ps N) (nw_pis N) st0
      in map_option fo_net
           (case fold_option (substitute_gate B k ps N) (nw_gates N) st1 of
              None \<Rightarrow> None
            | Some st2 \<Rightarrow> fold_option (substitute_po B ps N) [0..<length (nw_pos N)] st2))"

section \<open>Trees\<close>

abbreviation refs_of :: "'tt technology_network \<Rightarrow> ntk_node \<Rightarrow> nat" where
  "refs_of s x \<equiv> tn_counts s ! x"

lemma fanout_size_refs: "klut_laws B \<Longrightarrow> x < length (tn_nodes s) \<Longrightarrow> kl_fanout_size B s x = refs_of s x"
  by (simp add: klut_laws_def tn_counts_def)

text \<open>A tree of \<open>k\<close> buffers below the node \<open>m\<close>: where places are left in it, and how often its nodes are
  referred to.\<close>

definition tree_built :: "nat \<Rightarrow> ntk_node \<Rightarrow> nat \<Rightarrow> 'tt technology_network \<Rightarrow> ntk_node list \<Rightarrow> 'tt technology_network \<Rightarrow> bool" where
  "tree_built d m k s0 q s \<longleftrightarrow>
     (let L = length (tn_nodes s0)
      in length (tn_nodes s) = L + k \<and> (\<forall>x<L. refs_of s x = refs_of s0 x + (if x = m then 1 else 0)) \<and>
         q \<noteq> [] \<and> set q \<subseteq> {L..<L + k} \<and> (\<forall>b\<in>{L..<L + k}. refs_of s b \<le> d \<and> (b \<notin> set q \<longrightarrow> refs_of s b = d)) \<and>
         (\<Sum>b\<in>{L..<L + k}. refs_of s b) + 1 = k \<and> adds_buffers s0 s \<and> tn_outputs s = tn_outputs s0)"

lemma create_buf_refs:
  assumes "klut_laws B" and "tn_create_buf B a s = (b, s')" and "a < length (tn_nodes s)"
  shows "b = length (tn_nodes s)" "length (tn_nodes s') = Suc (length (tn_nodes s))"
    "x < length (tn_nodes s) \<Longrightarrow> refs_of s' x = refs_of s x + (if x = a then 1 else 0)" "refs_of s' b = 0"
    "adds_buffers s s'" "tn_outputs s' = tn_outputs s"
proof -
  have c: "tn_create_node_from_literal B [a] 2 s = (b, s')" using assms(2) by (simp add: tn_create_buf_def)
  note l = create_literal [OF assms(1) c]
  show "b = length (tn_nodes s)" "length (tn_nodes s') = Suc (length (tn_nodes s))" "tn_outputs s' = tn_outputs s"
    using l by simp_all
  show "adds_buffers s s'" unfolding adds_buffers_def using l(2) by (intro exI [of _ "[a]"]) simp
  note r = create_literal_counts [OF assms(1) c]
  show "x < length (tn_nodes s) \<Longrightarrow> refs_of s' x = refs_of s x + (if x = a then 1 else 0)" "refs_of s' b = 0"
    using r [of x] r [of b] assms(3) l(1) by auto
qed

lemma count_list_replicate: "count_list (replicate n x) y = (if y = x then n else 0)"
  by (induction n) auto

text \<open>The loops hold what \<open>tree_built\<close> says after each buffer.\<close>

definition breadth_inv :: "nat \<Rightarrow> ntk_node \<Rightarrow> nat \<Rightarrow> 'tt technology_network \<Rightarrow> ntk_node list \<Rightarrow> 'tt technology_network \<Rightarrow> bool" where
  "breadth_inv d m i s0 q s \<longleftrightarrow>
     (let L = length (tn_nodes s0)
      in length (tn_nodes s) = L + i \<and> (\<forall>x<L. refs_of s x = refs_of s0 x + (if x = m \<and> 0 < i then 1 else 0)) \<and>
         q \<noteq> [] \<and> (if i = 0 then q = [m] else set q \<subseteq> {L..<L + i}) \<and> (\<forall>b\<in>{L..<L + i}. refs_of s b + count_list q b = d) \<and>
         (\<Sum>b\<in>{L..<L + i}. refs_of s b) + (if i = 0 then 0 else 1) = i \<and> adds_buffers s0 s \<and> tn_outputs s = tn_outputs s0)"

lemma breadth_step:
  assumes B: "klut_laws B" and d: "0 < d" and m: "m < length (tn_nodes s0)" and inv: "breadth_inv d m i s0 q s"
    and c: "tn_create_buf B (hd q) s = (b, s')"
  shows "breadth_inv d m (Suc i) s0 (tl q @ replicate d b) s'"
proof -
  let ?L = "length (tn_nodes s0)"
  have q: "q \<noteq> []" and len: "length (tn_nodes s) = ?L + i"
    and old0: "\<And>x. x < ?L \<Longrightarrow> refs_of s x = refs_of s0 x + (if x = m \<and> 0 < i then 1 else 0)"
    and start: "i = 0 \<Longrightarrow> q = [m]" and sub0: "i \<noteq> 0 \<Longrightarrow> set q \<subseteq> {?L..<?L + i}"
    and each0: "\<And>x. x \<in> {?L..<?L + i} \<Longrightarrow> refs_of s x + count_list q x = d"
    and sum0: "(\<Sum>b\<in>{?L..<?L + i}. refs_of s b) + (if i = 0 then 0 else 1) = i"
    and rest0: "adds_buffers s0 s" "tn_outputs s = tn_outputs s0"
    using inv by (auto simp: breadth_inv_def Let_def)
  have hdi: "hd q \<in> {?L..<?L + i}" if "i \<noteq> 0" using sub0 [OF that] hd_in_set [OF q] by blast
  have hq: "hd q < length (tn_nodes s)" using start hdi m len by (cases "i = 0") auto
  note r = create_buf_refs [OF B c hq]
  have cnt: "count_list q x = (if x = hd q then 1 else 0) + count_list (tl q) x" for x using q by (cases q) auto
  have b: "b = ?L + i" using r(1) len by simp
  have tlq: "set (tl q) \<subseteq> {?L..<?L + i}"
    using start sub0 by (cases "i = 0") (auto dest: list.set_sel(2) [OF q])
  have nb: "count_list (tl q) b = 0" using tlq b by (auto simp: count_list_0_iff)
  have each: "refs_of s' x + count_list (tl q @ replicate d b) x = d" if "x \<in> {?L..<?L + Suc i}" for x
  proof (cases "x = b")
    case True
    then show ?thesis using r(4) nb by (simp add: count_list_append count_list_replicate)
  next
    case False
    then have x: "x \<in> {?L..<?L + i}" "x < length (tn_nodes s)" using that b len by auto
    show ?thesis using r(3) [OF x(2)] cnt [of x] each0 [OF x(1)] False by (simp add: count_list_append count_list_replicate)
  qed
  have "(\<Sum>x\<in>{?L..<?L + Suc i}. refs_of s' x) = (\<Sum>x\<in>{?L..<?L + i}. refs_of s' x)"
    using r(4) by (simp add: b)
  also have "\<dots> = (\<Sum>x\<in>{?L..<?L + i}. refs_of s x + (if x = hd q then 1 else 0))"
    using r(3) len by (intro sum.cong) auto
  also have "\<dots> = (\<Sum>x\<in>{?L..<?L + i}. refs_of s x) + (if i = 0 then 0 else 1)"
    using hdi by (simp add: sum.distrib)
  finally have sum: "(\<Sum>x\<in>{?L..<?L + Suc i}. refs_of s' x) = i" using sum0 by simp
  have old: "refs_of s' x = refs_of s0 x + (if x = m then 1 else 0)" if x: "x < ?L" for x
    using old0 [OF x] r(3) [of x] x len start hdi by (cases "i = 0") auto
  have sub: "set (tl q @ replicate d b) \<subseteq> {?L..<?L + Suc i}"
    using tlq b by auto
  show ?thesis
    unfolding breadth_inv_def Let_def
    using r(2,6) len each sum old sub d rest0 adds_buffers_trans [OF rest0(1) r(5)] by simp
qed

lemma breadth_loop:
  assumes B: "klut_laws B" and d: "0 < d" and m: "m < length (tn_nodes s0)"
  shows "breadth_inv d m i s0 q s \<Longrightarrow> breadth_tree B d k q s = (q', s') \<Longrightarrow> breadth_inv d m (i + k) s0 q' s'"
proof (induction k arbitrary: i q s)
  case (Suc k)
  obtain b s1 where c: "tn_create_buf B (hd q) s = (b, s1)" by fastforce
  have "breadth_tree B d k (tl q @ replicate d b) s1 = (q', s')" using Suc.prems(2) c by simp
  from Suc.IH [OF breadth_step [OF B d m Suc.prems(1) c] this] show ?case by simp
qed simp

lemma breadth_built:
  assumes "klut_laws B" and "0 < d" and "m < length (tn_nodes s0)" and "0 < k" and "breadth_tree B d k [m] s0 = (q, s)"
  shows "tree_built d m k s0 q s"
proof -
  have "breadth_inv d m 0 s0 [m] s0" by (simp add: breadth_inv_def adds_buffers_refl)
  from breadth_loop [OF assms(1-3) this assms(5)] have i: "breadth_inv d m k s0 q s" by simp
  have "refs_of s b \<le> d \<and> (b \<notin> set q \<longrightarrow> refs_of s b = d)" if "b \<in> {length (tn_nodes s0)..<length (tn_nodes s0) + k}" for b
  proof -
    have "refs_of s b + count_list q b = d" using i that by (simp add: breadth_inv_def Let_def)
    then show ?thesis by (auto simp: count_list_0_iff)
  qed
  then show ?thesis using i assms(4) unfolding breadth_inv_def tree_built_def Let_def by simp
qed

lemma depth_built:
  assumes "klut_laws B"
  shows "a < length (tn_nodes s) \<Longrightarrow> depth_tree B k a s = (q, s') \<Longrightarrow>
    length (tn_nodes s') = length (tn_nodes s) + k \<and>
    (\<forall>x<length (tn_nodes s). refs_of s' x = refs_of s x + (if x = a \<and> 0 < k then 1 else 0)) \<and>
    set q = {length (tn_nodes s)..<length (tn_nodes s) + k} \<and>
    (\<forall>b\<in>{length (tn_nodes s)..<length (tn_nodes s) + k}. refs_of s' b \<le> 1) \<and>
    (\<Sum>b\<in>{length (tn_nodes s)..<length (tn_nodes s) + k}. refs_of s' b) + (if k = 0 then 0 else 1) = k \<and>
    adds_buffers s s' \<and> tn_outputs s' = tn_outputs s"
proof (induction k arbitrary: a s q)
  case 0
  then show ?case by (simp add: adds_buffers_refl)
next
  case (Suc k)
  let ?L = "length (tn_nodes s)"
  obtain b s1 where c: "tn_create_buf B a s = (b, s1)" by fastforce
  obtain q1 where t: "depth_tree B k b s1 = (q1, s')" and q: "q = b # q1"
    using Suc.prems(2) c by (auto split: prod.splits)
  note r = create_buf_refs [OF assms c Suc.prems(1)]
  have "b < length (tn_nodes s1)" using r(1,2) by simp
  note ih = Suc.IH [OF this t]
  have split: "{?L..<?L + Suc k} = insert ?L {Suc ?L..<Suc ?L + k}" by auto
  have len: "length (tn_nodes s1) = Suc ?L" using r(2) by simp
  have bL: "refs_of s' ?L = (if 0 < k then 1 else 0)"
    using ih r(1,4) len by simp
  have old: "refs_of s' x = refs_of s x + (if x = a then 1 else 0)" if "x < ?L" for x
    using ih r(1) r(3) [OF that] that len by simp
  have sum: "(\<Sum>b\<in>{?L..<?L + Suc k}. refs_of s' b) + 1 = Suc k"
    unfolding split using ih bL len by (cases "k = 0") (simp_all del: sum.op_ivl_Suc)
  have all: "refs_of s' x \<le> 1" if "x \<in> {?L..<?L + Suc k}" for x
    using that ih bL len unfolding split by auto
  have sq: "set q = {?L..<?L + Suc k}" using ih q r(1) len unfolding split by simp
  show ?case using ih len old sum all sq adds_buffers_trans [OF r(5)] r(6) by simp
qed

lemma depth_tree_built:
  assumes "klut_laws B" and "0 < d" and "m < length (tn_nodes s0)" and "0 < k" and "depth_tree B k m s0 = (q, s)"
  shows "tree_built d m k s0 q s"
proof -
  note b = depth_built [OF assms(1,3,5)]
  then have "set q \<noteq> {}" using assms(4) by simp
  then have "q \<noteq> []" by auto
  then show ?thesis using b assms(2,4) unfolding tree_built_def Let_def by auto
qed

text \<open>All nodes of a tree have the value of its root.\<close>

definition passes_on ::
    "('tt \<Rightarrow> bool list \<Rightarrow> bool) \<Rightarrow> 'tt kitty \<Rightarrow> ntk_node \<Rightarrow> 'tt technology_network \<Rightarrow> 'tt technology_network \<Rightarrow> bool" where
  "passes_on tv k m s s' \<longleftrightarrow>
     (\<forall>v. tn_models tv k s' v \<longrightarrow> (\<forall>b\<in>{length (tn_nodes s)..<length (tn_nodes s')}. v b = v m))"

lemma buf_values:
  assumes "tn_valid B tv k known s" and "tn_create_buf B a s = (b, s')"
  shows "tn.explains B tv k known s s'" "tn_models tv k s' v \<Longrightarrow> v b = v a"
    "b = length (tn_nodes s)" "length (tn_nodes s') = Suc (length (tn_nodes s))"
proof -
  show "tn.explains B tv k known s s'" "tn_models tv k s' v \<Longrightarrow> v b = v a"
    using tn.buf_sound [OF assms(1), of a] tn.buf_models [OF assms(1), of a] tn.buf_value [OF assms(1), of a v] assms(2)
    by (auto simp: tn.explains_def)
  have "klut_laws B" using assms(1) by (simp add: tn_valid_def tn_laws_def)
  from create_literal [OF this, of "[a]" 2 s b s'] assms(2)
  show "b = length (tn_nodes s)" "length (tn_nodes s') = Suc (length (tn_nodes s))" by (simp_all add: tn_create_buf_def)
qed

lemma depth_values:
  "tn_valid B tv k known s \<Longrightarrow> depth_tree B i a s = (q, s') \<Longrightarrow>
   tn.explains B tv k known s s' \<and> length (tn_nodes s') = length (tn_nodes s) + i \<and> passes_on tv k a s s'"
proof (induction i arbitrary: a s q)
  case 0
  then show ?case by (simp add: tn.explains_refl passes_on_def)
next
  case (Suc i)
  obtain b s1 where c: "tn_create_buf B a s = (b, s1)" by fastforce
  obtain q1 where t: "depth_tree B i b s1 = (q1, s')"
    using Suc.prems(2) c by (auto split: prod.splits)
  note r = buf_values [OF Suc.prems(1) c]
  have "tn_valid B tv k known s1" using r(1) by (simp add: tn.explains_def)
  note ih = Suc.IH [OF this t]
  have "v x = v a" if v: "tn_models tv k s' v" and x: "x \<in> {length (tn_nodes s)..<length (tn_nodes s')}" for v x
  proof -
    have "v b = v a" using r(2) ih v unfolding tn.explains_def by blast
    moreover have "x = b \<or> x \<in> {length (tn_nodes s1)..<length (tn_nodes s')}" using x r(3,4) by auto
    ultimately show ?thesis using ih v unfolding passes_on_def by metis
  qed
  then show ?case using ih r tn.explains_trans [OF r(1)] by (simp add: passes_on_def)
qed

lemma breadth_values:
  "tn_valid B tv k known s \<Longrightarrow> breadth_tree B d i q s = (q', s') \<Longrightarrow> 0 < d \<Longrightarrow> q \<noteq> [] \<Longrightarrow>
   \<forall>v. tn_models tv k s v \<longrightarrow> (\<forall>x\<in>set q. v x = v a) \<Longrightarrow>
   tn.explains B tv k known s s' \<and> length (tn_nodes s') = length (tn_nodes s) + i \<and> passes_on tv k a s s'"
proof (induction i arbitrary: s q)
  case 0
  then show ?case by (simp add: tn.explains_refl passes_on_def)
next
  case (Suc i)
  obtain b s1 where c: "tn_create_buf B (hd q) s = (b, s1)" by fastforce
  have t: "breadth_tree B d i (tl q @ replicate d b) s1 = (q', s')" using Suc.prems(2) c by simp
  note r = buf_values [OF Suc.prems(1) c]
  have v1: "tn_valid B tv k known s1" using r(1) by (simp add: tn.explains_def)
  have eq: "v b = v a \<and> (\<forall>x\<in>set q. v x = v a)" if v: "tn_models tv k s1 v" for v
  proof -
    have "tn_models tv k s v" using r(1) v by (simp add: tn.explains_def)
    then show ?thesis using Suc.prems(4,5) r(2) [OF v] by simp
  qed
  have "\<forall>v. tn_models tv k s1 v \<longrightarrow> (\<forall>x\<in>set (tl q @ replicate d b). v x = v a)"
    using eq list.set_sel(2) [OF Suc.prems(4)] by (metis UnE in_set_replicate set_append)
  note ih = Suc.IH [OF v1 t Suc.prems(3) _ this]
  have ih: "tn.explains B tv k known s1 s'" "length (tn_nodes s') = length (tn_nodes s1) + i" "passes_on tv k a s1 s'"
    using ih Suc.prems(3) by simp_all
  have "v x = v a" if v: "tn_models tv k s' v" and x: "x \<in> {length (tn_nodes s)..<length (tn_nodes s')}" for v x
  proof -
    have "v b = v a" using eq ih(1) v unfolding tn.explains_def by blast
    moreover have "x = b \<or> x \<in> {length (tn_nodes s1)..<length (tn_nodes s')}" using x r(3,4) by auto
    ultimately show ?thesis using ih(3) v unfolding passes_on_def by metis
  qed
  then show ?case using ih r(4) tn.explains_trans [OF r(1) ih(1)] by (simp add: passes_on_def)
qed

section \<open>Generation of a tree\<close>

definition requires_tree :: "fanout_substitution_params \<Rightarrow> 'tt network \<Rightarrow> ntk_node \<Rightarrow> bool" where
  "requires_tree ps N n \<longleftrightarrow>
     \<not> (nw_is_fanout N n \<and> nw_fanout_size N n \<le> fs_degree ps) \<and> num_fanouts ps (nw_fanout_size N n) \<noteq> 0"

lemma generate_tree:
  assumes valid: "tn_valid B tv k known (fo_net st)" and "0 < fs_degree ps" and m: "fo_map st n < length (tn_nodes (fo_net st))"
  shows "if requires_tree ps N n
    then \<exists>q s. generate_fanout_tree B ps N n st = st\<lparr>fo_net := s, fo_available := (fo_available st)(n := q)\<rparr> \<and>
      tree_built (unat (fs_degree ps)) (fo_map st n) (num_fanouts ps (nw_fanout_size N n)) (fo_net st) q s \<and>
      tn.explains B tv k known (fo_net st) s \<and> passes_on tv k (fo_map st n) (fo_net st) s
    else generate_fanout_tree B ps N n st = st"
proof (cases "requires_tree ps N n")
  case True
  let ?d = "unat (fs_degree ps)" and ?num = "num_fanouts ps (nw_fanout_size N n)" and ?m = "fo_map st n"
  have B: "klut_laws B" using valid by (simp add: tn_valid_def tn_laws_def)
  have d: "0 < ?d" using assms(2) by (simp add: unat_gt_0 word_gt_0)
  have num: "0 < ?num" using True by (simp add: requires_tree_def)
  obtain q s where t: "(case fs_strategy ps of DEPTH \<Rightarrow> depth_tree B ?num ?m (fo_net st)
      | BREADTH \<Rightarrow> breadth_tree B ?d ?num [?m] (fo_net st)) = (q, s)" by fastforce
  have g: "generate_fanout_tree B ps N n st = st\<lparr>fo_net := s, fo_available := (fo_available st)(n := q)\<rparr>"
    using True t unfolding generate_fanout_tree_def requires_tree_def Let_def by (auto split: substitution_strategy.splits)
  have "tree_built ?d ?m ?num (fo_net st) q s \<and> tn.explains B tv k known (fo_net st) s \<and> passes_on tv k ?m (fo_net st) s"
  proof (cases "fs_strategy ps")
    case DEPTH
    then have t': "depth_tree B ?num ?m (fo_net st) = (q, s)" using t by simp
    show ?thesis using depth_tree_built [OF B d m num t'] depth_values [OF valid t'] by blast
  next
    case BREADTH
    then have t': "breadth_tree B ?d ?num [?m] (fo_net st) = (q, s)" using t by simp
    show ?thesis using breadth_built [OF B d m num t'] breadth_values [OF valid t' d, of ?m] by simp
  qed
  then show ?thesis using True g by auto
next
  case False
  then show ?thesis by (auto simp: generate_fanout_tree_def requires_tree_def Let_def)
qed

text \<open>The number of buffers suffices, and no tree is made for a node that has at most \<open>threshold\<close> outputs.\<close>

definition moderate_params :: "fanout_substitution_params \<Rightarrow> bool" where
  "moderate_params ps \<longleftrightarrow> 2 \<le> unat (fs_degree ps) \<and> unat (fs_degree ps) < 2 ^ 31 \<and>
     1 \<le> unat (fs_threshold ps) \<and> unat (fs_threshold ps) < 2 ^ 31"

lemma sint_small:
  assumes "unat (w :: u32) < 2 ^ 31"
  shows "sint w = int (unat w)"
proof -
  have "int (unat w) < int (2 ^ 31)" using assms by (simp only: of_nat_less_iff)
  then have "uint w < 2 ^ 31" by simp
  moreover have "- (2 ^ 31) \<le> uint w" by (rule order_trans [of _ 0]) simp_all
  ultimately have "signed_take_bit 31 (uint w) = uint w" by (intro signed_take_bit_int_eq_self)
  moreover have "sint w = signed_take_bit 31 (uint w)" by (simp add: sint_uint)
  ultimately show ?thesis by simp
qed

lemma num_fanouts_suffice:
  assumes "moderate_params ps" and "unat sz < 2 ^ 31"
  shows "unat sz \<le> unat (fs_threshold ps) + num_fanouts ps sz * (unat (fs_degree ps) - 1)"
proof -
  let ?t = "int (unat (fs_threshold ps))" and ?d = "int (unat (fs_degree ps))" and ?f = "int (unat sz)"
  define a where "a = max (?f - ?t) 0"
  have d: "2 \<le> ?d" using assms(1) by (simp add: moderate_params_def del: of_nat_unat)
  have num: "int (num_fanouts ps sz) = (a + (?d - 1) - 1) div (?d - 1)"
    using assms d unfolding num_fanouts_def Let_def a_def moderate_params_def
    by (simp add: sint_small max_def pos_imp_zdiv_nonneg_iff del: of_nat_unat)
  have "(a + (?d - 1) - 1) mod (?d - 1) < ?d - 1" using d by simp
  then have "a \<le> (a + (?d - 1) - 1) div (?d - 1) * (?d - 1)"
    using div_mult_mod_eq [of "a + (?d - 1) - 1" "?d - 1"] by linarith
  then have "?f \<le> ?t + int (num_fanouts ps sz) * (?d - 1)" unfolding num a_def by simp
  also have "\<dots> = int (unat (fs_threshold ps) + num_fanouts ps sz * (unat (fs_degree ps) - 1))"
    using d by (simp add: of_nat_diff del: of_nat_unat)
  finally show ?thesis by (simp only: of_nat_le_iff)
qed

end
