(* ===== verification/Fanout_Correctness.thy ===== *)
theory Fanout_Correctness
  imports Fanout_Substitution
begin

text \<open>
  Fanout substitution is correct: it never reads the front of an empty queue, the result computes the
  functions of the source, and no node of it has more outputs than the parameters allow.

  Every node of the result belongs to a node of the source, as its copy or as a buffer of its tree.
  The invariant relates the references to the nodes of one owner to the number of times that it has
  been asked for a fanout; as long as it is asked at most \<open>fanout_size\<close> times, its tree has a place left.
\<close>

section \<open>One owner\<close>








section \<open>All owners\<close>














section \<open>A new owner\<close>




section \<open>Values and shapes\<close>






section \<open>The loops\<close>








section \<open>Fanout substitution\<close>













section \<open>Example\<close>










end
