(* ===== verification/Spec2Isabelle.thy ===== *)
theory Spec2Isabelle
  imports Gate_Level_Flow Bounding_Box QCA_One_Layout Bestagon_Layout INML_Optimization Aspect_Ratio_Iterator
    Design_Rules Critical_Path Layout_Statistics Fqca_Roundtrip Equivalence_Checking Fanout_Correctness
begin

text \<open>
  \<^bold>\<open>A model of the layout layers of fiction\<close>, the C++ library for the physical design of
  field-coupled nanotechnologies (\<open>src/include/fiction\<close>).

  fiction stacks layout classes by inheritance: a coordinate layout gives tiles and their
  neighbourhood, a clocked layout assigns clock numbers to them, a gate-level layout places logic
  nodes on them. The development follows this stack; each class is a record that extends the record
  of its base class, each member a definition on it. A template parameter that selects a base class
  is a value of the datatype \<open>topology\<close>.

  \<^item> \<open>Fiction_Prelude\<close>: machine words, the standard containers as lists with their insertion, the
    comparator contract of \<open>std::set\<close> as the locale \<open>weak_order\<close>.
  \<^item> \<open>Coordinates\<close> (\<open>layouts/coordinates.hpp\<close>): the 64-bit packed coordinate, its order, the
    coordinate iterator and the ranges it spans, cube coordinates, area and volume.
  \<^item> \<open>Cartesian_Layout\<close> (\<open>layouts/cartesian_layout.hpp\<close>) and \<open>Hexagonal_Layout\<close>
    (\<open>layouts/hexagonal_layout.hpp\<close>, \<open>layouts/shifted_cartesian_layout.hpp\<close>): cardinal operations,
    borders, iteration and adjacency; the conversions between offset and cube coordinates.
  \<^item> \<open>Coordinate_Layout\<close> (\<open>layouts/tile_based_layout.hpp\<close> and the choice of the base class): the
    operations that the upper layers call, and the locale \<open>adjacency\<close> with what they rely on,
    interpreted on every topology.
  \<^item> \<open>Clocking_Scheme\<close> (\<open>layouts/clocking_scheme.hpp\<close>): schemes, cutouts, lookup by name.
  \<^item> \<open>Clocked_Layout\<close> (\<open>layouts/clocked_layout.hpp\<close>,
    \<open>layouts/synchronization_element_layout.hpp\<close>): clock numbers of zones, incoming and outgoing
    zones, degrees, synchronization elements.
  \<^item> \<open>Gate_Level_Layout\<close> (\<open>layouts/gate_level_layout.hpp\<close>): the storage of nodes and the maps between
    nodes and tiles, with every operation on them. \<open>Gate_Level_Invariant\<close> proves the invariant and the
    refinement of an abstract placement, \<open>Gate_Level_Flow\<close> the facts on data flow.
  \<^item> \<open>Cell_Technologies\<close> (\<open>technology/cell_technologies.hpp\<close>): cell types, modes and marks of QCA,
    iNML and SiDB; the locale \<open>cell_technology\<close> is what cell-level layouts rely on.
  \<^item> \<open>Cell_Level_Layout\<close> (\<open>layouts/cell_level_layout.hpp\<close>): types, modes and names of cells, the
    counters, the step relation of its operations and its invariant.
  \<^item> \<open>Bounding_Box\<close> (\<open>layouts/bounding_box.hpp\<close>): the four scanning loops, for gate-level and
    cell-level layouts.
  \<^item> \<open>Gate_Library\<close> (\<open>technology/fcn_gate_library.hpp\<close>, \<open>technology/cell_ports.hpp\<close>,
    \<open>utils/array_utils.hpp\<close>): cell arrays and their rotation and merging, ports, look-up tables and
    errors; the locale \<open>port_routing\<close> of a library's routing.
  \<^item> \<open>QCA_One_Library\<close>, \<open>Bestagon_Tables\<close>, \<open>Bestagon_Library\<close>, \<open>INML_Library\<close>
    (\<open>technology/qca_one_library.hpp\<close>, \<open>technology/sidb_bestagon_library.hpp\<close>,
    \<open>technology/inml_topolinano_library.hpp\<close>): the gates of each library, the port routing of a tile
    and the choice of its gate.
  \<^item> \<open>Apply_Gate_Library\<close> (\<open>algorithms/physical_design/apply_gate_library.hpp\<close>): a gate-level layout
    becomes a cell-level layout, tile by tile; \<open>QCA_One_Layout\<close> and \<open>Bestagon_Layout\<close> apply it with these
    libraries, \<open>QCA_One_Layout\<close> with the vias of its \<open>post_layout_optimization\<close>.
  \<^item> \<open>INML_Optimization\<close> (\<open>technology/inml_topolinano_library.hpp\<close>): the \<open>post_layout_optimization\<close> that
    straightens wires, as a state machine over the cells of a row and a loop over passes.
  \<^item> \<open>Design_Rules\<close> (\<open>algorithms/verification/design_rule_violations.hpp\<close>): the ten checks of gate-level
    layouts, their report and counters.
  \<^item> \<open>Aspect_Ratio_Iterator\<close> (\<open>algorithms/iter/aspect_ratio_iterator.hpp\<close>): the factorization of a
    number of faces and the iterator over aspect ratios.
  \<^item> \<open>Critical_Path\<close> (\<open>algorithms/properties/critical_path_length_and_throughput.hpp\<close>): the recursion over
    the incoming data flow with its cache; the locale \<open>path_sort\<close> of the sorting that it calls.
    \<open>Layout_Statistics\<close> (\<open>algorithms/properties/count_gate_types.hpp\<close>, \<open>technology/energy_model.hpp\<close>,
    \<open>technology/magcad_magnet_count.hpp\<close>, \<open>technology/area.hpp\<close>): the counters of layouts.
  \<^item> \<open>Fqca_Layout\<close> (\<open>io/write_fqca_layout.hpp\<close>, \<open>io/read_fqca_layout.hpp\<close>): writer and reader of
    cell-level QCA layouts as functions on strings; \<open>Fqca_Roundtrip\<close> proves that they fit.
  \<^item> \<open>Equivalence_Checking\<close> (\<open>algorithms/verification/equivalence_checking.hpp\<close>): the comparison of two
    designs by their design rules, their miter and their throughputs.
  \<^item> \<open>Logic_Network\<close> (\<open>utils/network_utils.hpp\<close>), \<open>Technology_Network\<close>
    (\<open>networks/technology_network.hpp\<close>) and \<open>Network_Balancing\<close>
    (\<open>algorithms/network_transformation/network_balancing.hpp\<close>): the inspection of networks, the construction of
    technology networks and the balancing of their paths by buffers, for which the locale
    \<open>buffer_network\<close> states what the insertion of buffers relies on. \<open>Fanout_Substitution\<close>
    (\<open>algorithms/network_transformation/fanout_substitution.hpp\<close>) builds trees of buffers for nodes with many
    outputs; \<open>Fanout_Correctness\<close> proves that they have a place for every output.

  \<^bold>\<open>What is shown.\<close> Packed words and coordinates determine each other and are ordered alike.
  Ranges end and enumerate exactly the coordinates of the layout, and which layouts make them run
  forever. Adjacency is distance one, symmetric and within the layout. Clock numbers are below
  the number of clocks; the degrees a regular scheme states are kept; the linear schemes admit no
  cyclic flow of information, on the topologies for which they are meant, and examples where they
  do. Every operation of the gate-level layout keeps the invariant that the tile and node maps are
  inverse to each other and the counters exact, creating and moving nodes refine updates of an
  abstract placement, and fanins and fanouts agree. The design rule checker counts no violation exactly
  when the layout satisfies the rules of the enabled checks, and such a layout routes every
  connection of the network. Cell-level layouts keep their counters exact under every sequence of operations.
  Every gate of a library has the size and the cell types of its technology and fits the
  ports of its tile, and the tiles that a library supports are characterized, with the errors for
  the others. Applied to a layout, QCA ONE returns exactly the gates of the tiles. The
  bounding box is tight whenever it is computed. The optimization of ToPoliNano layouts ends in a
  fixed point. The aspect ratio iterator reaches every aspect ratio. Under the linear schemes the
  critical path is the longest chain of the data flow and the throughput is exact, on the topologies that
  the schemes are meant for. Reading what the
  FQCA writer wrote restores the layout. The verdict of the equivalence check is characterized by the
  violations, the solver and the throughputs. A balanced network computes the functions of its
  source and is balanced. Fanout substitution always returns a network, which computes the functions of
  the source and respects the limits on outputs.

  \<^bold>\<open>Conventions.\<close> Bit fields and fixed-width integers are words of their width, except the fields
  of \<open>cube::coord_t\<close>, whose signed overflow is undefined; they are integers, and a lemma shows
  when they fit. A loop that may not end is a partial function whose value is \<open>None\<close> when it does
  not. Fuel is used only for the search of incoming paths, where any fuel above the rank of the node in an
  acyclic network is shown to be enough. A \<open>foreach\<close> member is the list of what it hands to its functor. Reads out of
  range are undefined in C++; no statement depends on their value. \<open>std::unordered_map\<close> is a map,
  or an association list where its size matters. A \<open>std::shared_ptr\<close> to storage is the storage
  itself, so that copies of a layout that share storage are not modelled. Truth tables and their
  cache belong to other libraries and are parameters.

  \<^bold>\<open>Not modelled.\<close> Logic networks are mockturtle's, which is not part of the repository: what the code asks of a
  network is a record of its answers, an argument of the definitions, and the storage of a technology
  network is modelled as far as the code of the repository accesses it. The conversion of networks,
  the balancing of inverters and the sequential networks are left out. So are the physical design algorithms: the
  exact and the one-pass synthesis state their problem to Z3 and to SAT solvers, and the orthogonal ones,
  which colour and place a network that has been fanout-substituted, are left out for their size. Of
  the readers and writers, only those of the FQCA format are modelled; the others write the formats of other
  tools and are not read back. The Boolean overload of \<open>compute\<close> in the gate-level layout names a member
  that its storage does not have and cannot be instantiated.
\<close>

end
